theory Spec2Isabelle
  imports Main "HOL-Library.Word"
begin

section \<open>Detection of unclosed cursors (cursors\_leaks.c)\<close>

subsection \<open>Data model\<close>

text \<open>
  The C structs of cursors\_leaks.c. \<open>Oid\<close>, \<open>TransactionId\<close> and
  \<open>LocalTransactionId\<close> are unsigned 32-bit integers of the host and are only
  compared for equality. The \<open>int\<close> fields \<open>stmtid\<close> and \<open>rec_level\<close> are
  only assigned and compared for equality; \<open>ncursors\<close> and \<open>cursors_size\<close> are
  counters that never go below zero. A \<open>char *\<close> that may be NULL is a
  \<open>string option\<close>.
\<close>

type_synonym Oid = "32 word"
type_synonym TransactionId = "32 word"
type_synonym LocalTransactionId = "32 word"

definition InvalidLocalTransactionId :: LocalTransactionId where
  "InvalidLocalTransactionId = 0"

definition InvalidOid :: Oid where
  "InvalidOid = 0"

definition MAX_NAMES_PER_STATEMENT :: nat where
  "MAX_NAMES_PER_STATEMENT = 20"

record CursorTrace =
  stmtid :: int
  rec_level :: int
  curname :: "string option"

text \<open>The fields of \<open>FunctionTraceKey\<close> carry the prefix \<open>key_\<close>, since
  \<open>PLpgSQL_function\<close> has fields of the same names.\<close>

record FunctionTraceKey =
  key_fn_oid :: Oid
  key_fn_xmin :: TransactionId

text \<open>
  \<open>cursors_traces\<close> is the array the pointer refers to: the list of its
  allocated cells. The NULL pointer is the array without cells (every allocation
  of the code has at least 10 cells).
\<close>

record FunctionTrace =
  key :: FunctionTraceKey
  ncursors :: nat
  cursors_size :: nat
  cursors_traces :: "CursorTrace list"

text \<open>The parts of the host's structs that the hooks read.\<close>

record PLpgSQL_function =
  fn_oid :: Oid
  fn_xmin :: TransactionId
  use_count :: int

record PLpgSQL_var =
  isnull :: bool
  var_value :: string

record PLpgSQL_execstate =
  func :: PLpgSQL_function
  datums :: "PLpgSQL_var list"

datatype PLpgSQL_stmt_type =
  PLPGSQL_STMT_BLOCK | PLPGSQL_STMT_ASSIGN | PLPGSQL_STMT_OPEN
  | PLPGSQL_STMT_FETCH | PLPGSQL_STMT_CLOSE | PLPGSQL_STMT_RETURN
  | PLPGSQL_STMT_CALL | PLPGSQL_STMT_COMMIT

text \<open>\<open>stmt_id\<close> is \<open>stmt->stmtid\<close>; \<open>curvar\<close> is the field of
  \<open>PLpgSQL_stmt_open\<close>, the index of the cursor variable in \<open>estate->datums\<close>.\<close>

record PLpgSQL_stmt =
  cmd_type :: PLpgSQL_stmt_type
  stmt_id :: int
  curvar :: nat

subsection \<open>The host\<close>

text \<open>
  What a hook reads from the host while it runs: the lightweight id of the running
  transaction (\<open>MyProc->lxid\<close>), the portal lookup \<open>SPI_cursor_find\<close> (whether
  an open cursor of that name exists), the text of \<open>GetErrorContextStack\<close>, the
  three configuration variables, and the contents that newly allocated cells of
  \<open>palloc_array\<close> and \<open>repalloc_array\<close> happen to hold (cell by index).
\<close>

record host =
  MyProc_lxid :: LocalTransactionId
  SPI_cursor_find :: "string \<Rightarrow> bool"
  GetErrorContextStack :: string
  plpgsql_check_cursors_leaks :: bool
  plpgsql_check_cursors_leaks_strict :: bool
  plpgsql_check_cursors_leaks_level :: int
  palloc_contents :: "nat \<Rightarrow> CursorTrace"

text \<open>The message levels of the host's elog.h.\<close>

definition NOTICE :: int where "NOTICE = 18"
definition WARNING :: int where "WARNING = 19"
definition ERROR :: int where "ERROR = 21"

definition ERRCODE_INVALID_CURSOR_STATE :: string where
  "ERRCODE_INVALID_CURSOR_STATE = ''24000''"

record report =
  elevel :: int
  sqlerrcode :: string
  message :: string
  detail :: string

text \<open>
  A hook ends in one of three ways: it returns; a report of level \<open>ERROR\<close> or
  above leaves it by a non-local exit (the host's ereport does not return then),
  with the memory as it is at that moment; or it touches memory it must not touch
  (a cell outside the array, a record of a released store, a failed \<open>Assert\<close>).
\<close>

datatype 'a outcome = Returned 'a | Raised 'a | Crashed

text \<open>
  The host's \<open>ereport(level, errcode(..), errmsg(..), errdetail(..))\<close>: the
  report is emitted (appended to the reports so far); control comes back to the
  caller only when the level is below \<open>ERROR\<close>.
\<close>

definition ereport :: "report \<Rightarrow> report list \<Rightarrow> report list outcome" where
  "ereport r out =
     (if elevel r < ERROR then Returned (out @ [r]) else Raised (out @ [r]))"

text \<open>The one report of this file, built at both places in the same way.\<close>

definition cursor_is_not_closed :: "host \<Rightarrow> report" where
  "cursor_is_not_closed h =
     \<lparr>elevel = plpgsql_check_cursors_leaks_level h,
      sqlerrcode = ERRCODE_INVALID_CURSOR_STATE,
      message = ''cursor is not closed'',
      detail = GetErrorContextStack h\<rparr>"

subsection \<open>The trace store\<close>

text \<open>
  The static variables \<open>traces_lxid\<close> and \<open>traces\<close> (NULL is \<open>None\<close>; the hash
  table is the map from keys to entries), and the reports emitted so far. The
  arena \<open>traces_mcxt\<close> is a child of the transaction's memory context: the host
  releases it, and the table with it, when the transaction that created it ends.

  A pointer to an entry of the table (what \<open>plugin2_info\<close> holds) names the table
  by the transaction that created it, and the entry by its key. It can be
  dereferenced while that table is still the current one.
\<close>

record trace_state =
  traces_lxid :: LocalTransactionId
  traces :: "(FunctionTraceKey \<rightharpoonup> FunctionTrace) option"
  reports :: "report list"

record ftrace_ptr =
  ptr_lxid :: LocalTransactionId
  ptr_key :: FunctionTraceKey

definition deref :: "trace_state \<Rightarrow> ftrace_ptr \<Rightarrow> FunctionTrace option" where
  "deref s p =
     (case traces s of
        None \<Rightarrow> None
      | Some tab \<Rightarrow> if ptr_lxid p = traces_lxid s then tab (ptr_key p) else None)"

definition assign :: "ftrace_ptr \<Rightarrow> FunctionTrace \<Rightarrow> trace_state \<Rightarrow> trace_state" where
  "assign p ft s =
     (case traces s of
        None \<Rightarrow> s
      | Some tab \<Rightarrow> s\<lparr>traces := Some (tab(ptr_key p \<mapsto> ft))\<rparr>)"

definition initial_state :: trace_state where
  "initial_state =
     \<lparr>traces_lxid = InvalidLocalTransactionId, traces = None, reports = []\<rparr>"

subsection \<open>get\_function\_trace and func\_setup\<close>

text \<open>
  \<open>get_function_trace\<close>. After the first \<open>if\<close> the table \<open>tab\<close> is a new
  empty one when there was none or when it belongs to another transaction, and
  \<open>traces_lxid\<close> is the id of the running transaction. \<open>hash_search\<close> with
  \<open>HASH_ENTER\<close> finds the entry of the key or makes one, which is then filled.
  The returned pointer refers to the entry of the current table.
\<close>

definition get_function_trace ::
  "host \<Rightarrow> PLpgSQL_function \<Rightarrow> trace_state \<Rightarrow> ftrace_ptr \<times> trace_state" where
  "get_function_trace h fn s =
     (let tab = (case traces s of
                   None \<Rightarrow> Map.empty
                 | Some t \<Rightarrow> if traces_lxid s \<noteq> MyProc_lxid h then Map.empty else t);
          s1 = s\<lparr>traces := Some tab, traces_lxid := MyProc_lxid h\<rparr>;
          k = \<lparr>key_fn_oid = fn_oid fn, key_fn_xmin = fn_xmin fn\<rparr>;
          p = \<lparr>ptr_lxid = MyProc_lxid h, ptr_key = k\<rparr>
      in case tab k of
           Some ft \<Rightarrow> (p, s1)
         | None \<Rightarrow>
             (p, s1\<lparr>traces := Some (tab(k \<mapsto>
                   \<lparr>key = k, ncursors = 0, cursors_size = 0, cursors_traces = []\<rparr>))\<rparr>))"

definition func_setup ::
  "host \<Rightarrow> PLpgSQL_function \<Rightarrow> trace_state \<Rightarrow> ftrace_ptr option \<times> trace_state" where
  "func_setup h fn s =
     (if plpgsql_check_cursors_leaks h
      then (case get_function_trace h fn s of (p, s') \<Rightarrow> (Some p, s'))
      else (None, s))"

subsection \<open>func\_end\<close>

text \<open>The three assignments that clear a slot (\<open>pfree\<close> of the name, \<open>stmtid = -1\<close>,
  \<open>curname = NULL\<close>); \<open>rec_level\<close> is left as it is.\<close>

definition clear_slot :: "CursorTrace \<Rightarrow> CursorTrace" where
  "clear_slot ct = ct\<lparr>stmtid := - 1, curname := None\<rparr>"

text \<open>The body of the loop of \<open>func_end\<close> for the slot \<open>ct\<close> (lines 146 to 173).\<close>

definition func_end_slot ::
  "host \<Rightarrow> int \<Rightarrow> CursorTrace \<Rightarrow> report list \<Rightarrow> (CursorTrace \<times> report list) outcome" where
  "func_end_slot h uc ct out =
     (case curname ct of
        None \<Rightarrow> Returned (ct, out)
      | Some name \<Rightarrow>
          if rec_level ct = uc then
            if SPI_cursor_find h name then
              if plpgsql_check_cursors_leaks_strict h then
                (case ereport (cursor_is_not_closed h) out of
                   Returned out' \<Rightarrow> Returned (clear_slot ct, out')
                 | Raised out' \<Rightarrow> Raised (ct, out')
                 | Crashed \<Rightarrow> Crashed)
              else Returned (ct, out)
            else Returned (clear_slot ct, out)
          else Returned (ct, out))"

text \<open>The loop \<open>for (i = 0; i < ftrace->ncursors; i++)\<close> of \<open>func_end\<close>, from
  index \<open>i\<close> on; \<open>n\<close> is \<open>ftrace->ncursors\<close>.\<close>

function func_end_loop ::
  "host \<Rightarrow> int \<Rightarrow> nat \<Rightarrow> nat \<Rightarrow> CursorTrace list \<Rightarrow> report list
     \<Rightarrow> (CursorTrace list \<times> report list) outcome" where
  "func_end_loop h uc n i cells out =
     (if i < n then
        if i < length cells then
          (case func_end_slot h uc (cells ! i) out of
             Returned (ct, out') \<Rightarrow> func_end_loop h uc n (i + 1) (cells[i := ct]) out'
           | Raised (ct, out') \<Rightarrow> Raised (cells[i := ct], out')
           | Crashed \<Rightarrow> Crashed)
        else Crashed
      else Returned (cells, out))"
  by pat_completeness auto
termination
  by (relation "measure (\<lambda>(h, uc, n, i, cells, out). n - i)") auto

definition func_end ::
  "host \<Rightarrow> PLpgSQL_function \<Rightarrow> ftrace_ptr option \<Rightarrow> trace_state \<Rightarrow> trace_state outcome" where
  "func_end h fn plugin2_info s =
     (case plugin2_info of
        None \<Rightarrow> Returned s
      | Some p \<Rightarrow>
          if traces_lxid s \<noteq> MyProc_lxid h then Returned s
          else
            (case deref s p of
               None \<Rightarrow> Crashed
             | Some ft \<Rightarrow>
                 (case func_end_loop h (use_count fn) (ncursors ft) 0
                         (cursors_traces ft) (reports s) of
                    Returned (cells, out) \<Rightarrow>
                      Returned (assign p (ft\<lparr>cursors_traces := cells\<rparr>) (s\<lparr>reports := out\<rparr>))
                  | Raised (cells, out) \<Rightarrow>
                      Raised (assign p (ft\<lparr>cursors_traces := cells\<rparr>) (s\<lparr>reports := out\<rparr>))
                  | Crashed \<Rightarrow> Crashed)))"

subsection \<open>stmt\_end\<close>

text \<open>The first \<open>if\<close> of the loop body of \<open>stmt_end\<close> for the slot \<open>ct\<close>
  (lines 202 to 234); \<open>cnt\<close> is \<open>cursors_for_current_stmt\<close>.\<close>

definition stmt_end_slot ::
  "host \<Rightarrow> int \<Rightarrow> int \<Rightarrow> CursorTrace \<Rightarrow> nat \<Rightarrow> report list
     \<Rightarrow> (CursorTrace \<times> nat \<times> report list) outcome" where
  "stmt_end_slot h uc sid ct cnt out =
     (case curname ct of
        None \<Rightarrow> Returned (ct, cnt, out)
      | Some name \<Rightarrow>
          if stmtid ct = sid then
            if SPI_cursor_find h name then
              if uc = 1 \<and> \<not> plpgsql_check_cursors_leaks_strict h then
                (case ereport (cursor_is_not_closed h) out of
                   Returned out' \<Rightarrow> Returned (clear_slot ct, cnt, out')
                 | Raised out' \<Rightarrow> Raised (ct, cnt, out')
                 | Crashed \<Rightarrow> Crashed)
              else Returned (ct, cnt + 1, out)
            else Returned (clear_slot ct, cnt, out)
          else Returned (ct, cnt, out))"

text \<open>The loop of \<open>stmt_end\<close> (lines 198 to 238), from index \<open>i\<close> on. After the
  slot has been treated, the second \<open>if\<close> of the body remembers the first index
  whose \<open>stmtid\<close> is \<open>-1\<close> in \<open>free_slot\<close>.\<close>

function stmt_end_loop ::
  "host \<Rightarrow> int \<Rightarrow> int \<Rightarrow> nat \<Rightarrow> nat \<Rightarrow> CursorTrace list \<Rightarrow> nat \<Rightarrow> int \<Rightarrow> report list
     \<Rightarrow> (CursorTrace list \<times> nat \<times> int \<times> report list) outcome" where
  "stmt_end_loop h uc sid n i cells cnt free_slot out =
     (if i < n then
        if i < length cells then
          (case stmt_end_slot h uc sid (cells ! i) cnt out of
             Returned (ct, cnt', out') \<Rightarrow>
               stmt_end_loop h uc sid n (i + 1) (cells[i := ct]) cnt'
                 (if stmtid ct = - 1 \<and> free_slot = - 1 then int i else free_slot) out'
           | Raised (ct, cnt', out') \<Rightarrow> Raised (cells[i := ct], cnt', free_slot, out')
           | Crashed \<Rightarrow> Crashed)
        else Crashed
      else Returned (cells, cnt, free_slot, out))"
  by pat_completeness auto
termination
  by (relation "measure (\<lambda>(h, uc, sid, n, i, cells, cnt, free_slot, out). n - i)") auto

text \<open>\<open>palloc_array\<close> gives \<open>n\<close> new cells; \<open>repalloc_array\<close> keeps the cells
  there are and adds new ones up to \<open>n\<close>. It must not be given the NULL pointer.\<close>

definition palloc_array :: "host \<Rightarrow> nat \<Rightarrow> CursorTrace list" where
  "palloc_array h n = map (palloc_contents h) [0..<n]"

definition repalloc_array :: "host \<Rightarrow> CursorTrace list \<Rightarrow> nat \<Rightarrow> CursorTrace list option" where
  "repalloc_array h cells n =
     (if cells = [] then None
      else Some (take n cells @ map (palloc_contents h) [length cells..<n]))"

text \<open>Lines 253 to 279: the slot for the new entry is chosen (the free slot, or
  the next cell after growing the array when it is full) and filled.\<close>

definition stmt_end_store ::
  "host \<Rightarrow> FunctionTrace \<Rightarrow> int \<Rightarrow> CursorTrace \<Rightarrow> FunctionTrace option" where
  "stmt_end_store h ft free_slot new =
     (if free_slot \<noteq> - 1 then
        if nat free_slot < length (cursors_traces ft)
        then Some (ft\<lparr>cursors_traces := (cursors_traces ft)[nat free_slot := new]\<rparr>)
        else None
      else
        (case (if ncursors ft = cursors_size ft then
                 if cursors_size ft > 0 then
                   (case repalloc_array h (cursors_traces ft) (cursors_size ft + 10) of
                      None \<Rightarrow> None
                    | Some cells \<Rightarrow>
                        Some (ft\<lparr>cursors_size := cursors_size ft + 10, cursors_traces := cells\<rparr>))
                 else Some (ft\<lparr>cursors_size := 10, cursors_traces := palloc_array h 10\<rparr>)
               else Some ft) of
           None \<Rightarrow> None
         | Some ft1 \<Rightarrow>
             if ncursors ft1 < length (cursors_traces ft1)
             then Some (ft1\<lparr>cursors_traces := (cursors_traces ft1)[ncursors ft1 := new],
                            ncursors := ncursors ft1 + 1\<rparr>)
             else None))"

text \<open>
  \<open>stmt_end\<close>. The record is read only for an OPEN statement. \<open>Assert(!curvar->isnull)\<close>
  is a check here; the name of the new cursor is the text of the variable.
\<close>

definition stmt_end ::
  "host \<Rightarrow> PLpgSQL_execstate \<Rightarrow> PLpgSQL_stmt \<Rightarrow> ftrace_ptr option \<Rightarrow> trace_state
     \<Rightarrow> (ftrace_ptr option \<times> trace_state) outcome" where
  "stmt_end h estate stmt plugin2_info s =
     (case plugin2_info of
        None \<Rightarrow> Returned (None, s)
      | Some p0 \<Rightarrow>
          (case (if traces_lxid s \<noteq> MyProc_lxid h
                 then get_function_trace h (func estate) s else (p0, s)) of
             (p, s1) \<Rightarrow>
               if cmd_type stmt = PLPGSQL_STMT_OPEN then
                 (case deref s1 p of
                    None \<Rightarrow> Crashed
                  | Some ft \<Rightarrow>
                      (case stmt_end_loop h (use_count (func estate)) (stmt_id stmt)
                              (ncursors ft) 0 (cursors_traces ft) 0 (- 1) (reports s1) of
                         Crashed \<Rightarrow> Crashed
                       | Raised (cells, cnt, free_slot, out) \<Rightarrow>
                           Raised (Some p,
                             assign p (ft\<lparr>cursors_traces := cells\<rparr>) (s1\<lparr>reports := out\<rparr>))
                       | Returned (cells, cnt, free_slot, out) \<Rightarrow>
                           if curvar stmt < length (datums estate) then
                             if isnull (datums estate ! curvar stmt) then Crashed
                             else if cnt < MAX_NAMES_PER_STATEMENT then
                               (case stmt_end_store h (ft\<lparr>cursors_traces := cells\<rparr>) free_slot
                                       \<lparr>stmtid = stmt_id stmt,
                                        rec_level = use_count (func estate),
                                        curname = Some (var_value (datums estate ! curvar stmt))\<rparr> of
                                  None \<Rightarrow> Crashed
                                | Some ft' \<Rightarrow>
                                    Returned (Some p, assign p ft' (s1\<lparr>reports := out\<rparr>)))
                             else Returned (Some p,
                                    assign p (ft\<lparr>cursors_traces := cells\<rparr>) (s1\<lparr>reports := out\<rparr>))
                           else Crashed))
               else Returned (Some p, s1)))"

section \<open>Catalog lookups (catalog.c)\<close>

text \<open>
  The system caches of the host that \<open>plpgsql_check_is_plpgsql_function\<close> reads:
  \<open>SearchSysCache1(PROCOID, ..)\<close> finds the row of \<open>pg_proc\<close> with the given
  oid, if there is one; the languages are found by name. Of a row of \<open>pg_proc\<close>
  only \<open>prolang\<close> is read.
\<close>

record Form_pg_proc =
  prolang :: Oid

record syscache =
  PROCOID :: "Oid \<rightharpoonup> Form_pg_proc"
  LANGNAME :: "string \<rightharpoonup> Oid"

definition OidIsValid :: "Oid \<Rightarrow> bool" where
  "OidIsValid oid = (oid \<noteq> InvalidOid)"

text \<open>
  The host's \<open>get_language_oid(langname, missing_ok)\<close>: the oid of the language
  of that name, \<open>InvalidOid\<close> when the cache has none; an invalid oid is an
  error (\<open>ereport(ERROR, ..)\<close>) unless \<open>missing_ok\<close>.
\<close>

definition get_language_oid :: "syscache \<Rightarrow> string \<Rightarrow> bool \<Rightarrow> Oid outcome" where
  "get_language_oid c langname missing_ok =
     (let oid = (case LANGNAME c langname of Some oid \<Rightarrow> oid | None \<Rightarrow> InvalidOid)
      in if \<not> OidIsValid oid \<and> \<not> missing_ok then Raised oid else Returned oid)"

text \<open>
  \<open>plpgsql_check_is_plpgsql_function\<close>. The static variable
  \<open>plpgsql_check_PLpgSQLlanguageId\<close> is passed in as \<open>langid\<close> and returned
  beside the result.
\<close>

definition plpgsql_check_is_plpgsql_function ::
  "syscache \<Rightarrow> Oid \<Rightarrow> Oid \<Rightarrow> (bool \<times> Oid) outcome" where
  "plpgsql_check_is_plpgsql_function c foid langid =
     (case PROCOID c foid of
        None \<Rightarrow> Returned (False, langid)
      | Some procStruct \<Rightarrow>
          (case (if \<not> OidIsValid langid then get_language_oid c ''plpgsql'' False
                 else Returned langid) of
             Returned langid' \<Rightarrow> Returned (prolang procStruct = langid', langid')
           | Raised _ \<Rightarrow> Raised (False, langid)
           | Crashed \<Rightarrow> Crashed))"

section \<open>Properties\<close>

subsection \<open>Vocabulary\<close>

text \<open>
  A record is well-formed when the live entries fit into the allocated cells and
  \<open>cursors_size\<close> is the number of cells of the array.
\<close>

definition wf_ftrace :: "FunctionTrace \<Rightarrow> bool" where
  "wf_ftrace ft =
     (ncursors ft \<le> cursors_size ft \<and> length (cursors_traces ft) = cursors_size ft)"

text \<open>
  At teardown of an activation with use count \<open>uc\<close>: a slot recorded at this level
  whose cursor still exists, and one whose cursor is gone.
\<close>

definition leaked_at_end :: "host \<Rightarrow> int \<Rightarrow> CursorTrace \<Rightarrow> bool" where
  "leaked_at_end h uc ct =
     (case curname ct of None \<Rightarrow> False
      | Some name \<Rightarrow> rec_level ct = uc \<and> SPI_cursor_find h name)"

definition closed_at_end :: "host \<Rightarrow> int \<Rightarrow> CursorTrace \<Rightarrow> bool" where
  "closed_at_end h uc ct =
     (case curname ct of None \<Rightarrow> False
      | Some name \<Rightarrow> rec_level ct = uc \<and> \<not> SPI_cursor_find h name)"

text \<open>What teardown leaves in a slot it gets past, and the slot at which it is
  left by the report.\<close>

definition func_end_cell :: "host \<Rightarrow> int \<Rightarrow> CursorTrace \<Rightarrow> CursorTrace" where
  "func_end_cell h uc ct =
     (if closed_at_end h uc ct \<or>
         (leaked_at_end h uc ct \<and> plpgsql_check_cursors_leaks_strict h)
      then clear_slot ct else ct)"

definition func_end_stops :: "host \<Rightarrow> int \<Rightarrow> CursorTrace \<Rightarrow> bool" where
  "func_end_stops h uc ct =
     (leaked_at_end h uc ct \<and> plpgsql_check_cursors_leaks_strict h \<and>
      \<not> plpgsql_check_cursors_leaks_level h < ERROR)"

text \<open>
  At the end of the OPEN statement \<open>sid\<close>: a slot of this statement whose cursor
  still exists, and one whose cursor is gone. The report is made at once when the
  use count is 1 and strict mode is off.
\<close>

definition still_open :: "host \<Rightarrow> int \<Rightarrow> CursorTrace \<Rightarrow> bool" where
  "still_open h sid ct =
     (case curname ct of None \<Rightarrow> False
      | Some name \<Rightarrow> stmtid ct = sid \<and> SPI_cursor_find h name)"

definition closed_since :: "host \<Rightarrow> int \<Rightarrow> CursorTrace \<Rightarrow> bool" where
  "closed_since h sid ct =
     (case curname ct of None \<Rightarrow> False
      | Some name \<Rightarrow> stmtid ct = sid \<and> \<not> SPI_cursor_find h name)"

definition early_report :: "host \<Rightarrow> int \<Rightarrow> bool" where
  "early_report h uc = (uc = 1 \<and> \<not> plpgsql_check_cursors_leaks_strict h)"

definition stmt_end_cell :: "host \<Rightarrow> int \<Rightarrow> int \<Rightarrow> CursorTrace \<Rightarrow> CursorTrace" where
  "stmt_end_cell h uc sid ct =
     (if closed_since h sid ct \<or> (still_open h sid ct \<and> early_report h uc)
      then clear_slot ct else ct)"

definition stmt_end_stops :: "host \<Rightarrow> int \<Rightarrow> int \<Rightarrow> CursorTrace \<Rightarrow> bool" where
  "stmt_end_stops h uc sid ct =
     (still_open h sid ct \<and> early_report h uc \<and>
      \<not> plpgsql_check_cursors_leaks_level h < ERROR)"

text \<open>The zero-initialised record that \<open>get_function_trace\<close> makes for a key, and
  the key of a routine.\<close>

definition key_of :: "PLpgSQL_function \<Rightarrow> FunctionTraceKey" where
  "key_of fn = \<lparr>key_fn_oid = fn_oid fn, key_fn_xmin = fn_xmin fn\<rparr>"

definition zero_trace :: "FunctionTraceKey \<Rightarrow> FunctionTrace" where
  "zero_trace k = \<lparr>key = k, ncursors = 0, cursors_size = 0, cursors_traces = []\<rparr>"

text \<open>The entry that \<open>stmt_end\<close> writes for the cursor just opened.\<close>

definition new_entry :: "PLpgSQL_execstate \<Rightarrow> PLpgSQL_stmt \<Rightarrow> CursorTrace" where
  "new_entry estate stmt =
     \<lparr>stmtid = stmt_id stmt, rec_level = use_count (func estate),
      curname = Some (var_value (datums estate ! curvar stmt))\<rparr>"

text \<open>The number of slots of the statement that the scan keeps: their cursor
  still exists and they are not reported and cleared at once. This is the count
  that is compared with \<open>MAX_NAMES_PER_STATEMENT\<close>.\<close>

definition kept_for_stmt :: "host \<Rightarrow> int \<Rightarrow> int \<Rightarrow> FunctionTrace \<Rightarrow> nat" where
  "kept_for_stmt h uc sid ft =
     length (filter (\<lambda>ct. still_open h sid ct \<and> \<not> early_report h uc)
        (take (ncursors ft) (cursors_traces ft)))"

text \<open>
  Among the live slots of a record, the name is null exactly when the statement
  id is -1.
\<close>

definition slots_consistent :: "FunctionTrace \<Rightarrow> bool" where
  "slots_consistent ft =
     (\<forall>i < ncursors ft.
        (curname (cursors_traces ft ! i) = None) = (stmtid (cursors_traces ft ! i) = - 1))"

definition store_ok :: "trace_state \<Rightarrow> bool" where
  "store_ok s =
     (\<forall>tab k ft. traces s = Some tab \<longrightarrow> tab k = Some ft \<longrightarrow>
        wf_ftrace ft \<and> slots_consistent ft)"

text \<open>
  The states of the store that the hooks produce, from the state at the start of
  the process: the host calls the three hooks in any order, in any transaction,
  with any configuration and any open cursors, and with any pointer in
  \<open>plugin2_info\<close>; a hook returns or is left by a report. The statement ids that
  the host assigns are not negative.
\<close>

inductive reachable :: "trace_state \<Rightarrow> bool" where
  at_start: "reachable initial_state"
| after_setup: "reachable s \<Longrightarrow> func_setup h fn s = (info, s') \<Longrightarrow> reachable s'"
| stmt_returned:
    "reachable s \<Longrightarrow> 0 \<le> stmt_id stmt \<Longrightarrow>
     stmt_end h estate stmt info s = Returned (info', s') \<Longrightarrow> reachable s'"
| stmt_raised:
    "reachable s \<Longrightarrow> 0 \<le> stmt_id stmt \<Longrightarrow>
     stmt_end h estate stmt info s = Raised (info', s') \<Longrightarrow> reachable s'"
| end_returned:
    "reachable s \<Longrightarrow> func_end h fn info s = Returned s' \<Longrightarrow> reachable s'"
| end_raised:
    "reachable s \<Longrightarrow> func_end h fn info s = Raised s' \<Longrightarrow> reachable s'"

subsection \<open>Concrete inputs\<close>

text \<open>
  A host in transaction \<open>lxid\<close> with the given mode, level and open cursors; a
  routine at a use count; a store that holds one record for this routine; an
  execution state whose only variable holds the name of the cursor just opened;
  the OPEN statement with a statement id.
\<close>

definition ex_host :: "LocalTransactionId \<Rightarrow> bool \<Rightarrow> int \<Rightarrow> string list \<Rightarrow> host" where
  "ex_host lxid strict level opened =
     \<lparr>MyProc_lxid = lxid,
      SPI_cursor_find = (\<lambda>name. name \<in> set opened),
      GetErrorContextStack = ''PL/pgSQL function f() line 5 at OPEN'',
      plpgsql_check_cursors_leaks = True,
      plpgsql_check_cursors_leaks_strict = strict,
      plpgsql_check_cursors_leaks_level = level,
      palloc_contents = (\<lambda>i. \<lparr>stmtid = 0, rec_level = 0, curname = None\<rparr>)\<rparr>"

definition ex_fn :: "int \<Rightarrow> PLpgSQL_function" where
  "ex_fn uc = \<lparr>fn_oid = 16384, fn_xmin = 700, use_count = uc\<rparr>"

definition ex_key :: FunctionTraceKey where
  "ex_key = \<lparr>key_fn_oid = 16384, key_fn_xmin = 700\<rparr>"

definition ex_ptr :: "LocalTransactionId \<Rightarrow> ftrace_ptr" where
  "ex_ptr lxid = \<lparr>ptr_lxid = lxid, ptr_key = ex_key\<rparr>"

definition ex_trace :: "nat \<Rightarrow> nat \<Rightarrow> CursorTrace list \<Rightarrow> FunctionTrace" where
  "ex_trace n sz cells =
     \<lparr>key = ex_key, ncursors = n, cursors_size = sz, cursors_traces = cells\<rparr>"

definition ex_state :: "LocalTransactionId \<Rightarrow> FunctionTrace \<Rightarrow> report list \<Rightarrow> trace_state" where
  "ex_state lxid ft out =
     \<lparr>traces_lxid = lxid, traces = Some [ex_key \<mapsto> ft], reports = out\<rparr>"

definition ex_estate :: "int \<Rightarrow> string \<Rightarrow> PLpgSQL_execstate" where
  "ex_estate uc name = \<lparr>func = ex_fn uc, datums = [\<lparr>isnull = False, var_value = name\<rparr>]\<rparr>"

definition ex_open :: "int \<Rightarrow> PLpgSQL_stmt" where
  "ex_open sid = \<lparr>cmd_type = PLPGSQL_STMT_OPEN, stmt_id = sid, curvar = 0\<rparr>"

definition slot :: "int \<Rightarrow> int \<Rightarrow> string \<Rightarrow> CursorTrace" where
  "slot sid lvl name = \<lparr>stmtid = sid, rec_level = lvl, curname = Some name\<rparr>"

definition junk :: CursorTrace where
  "junk = \<lparr>stmtid = 0, rec_level = 0, curname = None\<rparr>"

definition ex_report :: "int \<Rightarrow> report" where
  "ex_report level =
     \<lparr>elevel = level, sqlerrcode = ''24000'', message = ''cursor is not closed'',
      detail = ''PL/pgSQL function f() line 5 at OPEN''\<rparr>"

text \<open>A record of capacity 20 whose \<open>n\<close> first slots were recorded by statement 7
  at use level 1 for cursors of different names, and a list of such names.\<close>

definition ex_names :: "string list" where
  "ex_names = map (\<lambda>i. replicate (Suc i) CHR ''c'') [0..<20]"

definition ex_cap_trace :: "nat \<Rightarrow> FunctionTrace" where
  "ex_cap_trace n =
     \<lparr>key = ex_key, ncursors = n, cursors_size = 20,
      cursors_traces = map (slot 7 1) ex_names\<rparr>"

text \<open>A full record of capacity \<open>n\<close>: every slot was recorded by statement 3.\<close>

definition ex_full_trace :: "nat \<Rightarrow> FunctionTrace" where
  "ex_full_trace n =
     \<lparr>key = ex_key, ncursors = n, cursors_size = n,
      cursors_traces = map (slot 3 1) (take n ex_names)\<rparr>"

text \<open>A cache with one routine written in PL/pgSQL.\<close>

definition ex_cache :: syscache where
  "ex_cache =
     \<lparr>PROCOID = [16384 \<mapsto> \<lparr>prolang = 13000\<rparr>], LANGNAME = [''plpgsql'' \<mapsto> 13000]\<rparr>"

text \<open>
  Two procedures in one store: the first has opened cursor c1 at statement 7 and
  calls the second, which commits. \<open>ex_nested_before\<close> is the store of the
  first transaction, as it is when the second procedure's COMMIT statement ends;
  \<open>ex_nested_after\<close> is the store that this statement end leaves in the second
  transaction.
\<close>

definition ex_fn2 :: "int \<Rightarrow> PLpgSQL_function" where
  "ex_fn2 uc = \<lparr>fn_oid = 16385, fn_xmin = 700, use_count = uc\<rparr>"

definition ex_key2 :: FunctionTraceKey where
  "ex_key2 = \<lparr>key_fn_oid = 16385, key_fn_xmin = 700\<rparr>"

definition ex_commit :: PLpgSQL_stmt where
  "ex_commit = \<lparr>cmd_type = PLPGSQL_STMT_COMMIT, stmt_id = 3, curvar = 0\<rparr>"

definition ex_nested_before :: trace_state where
  "ex_nested_before =
     \<lparr>traces_lxid = 1,
      traces = Some [ex_key \<mapsto> ex_trace 1 10 (slot 7 1 ''c1'' # replicate 9 junk),
                     ex_key2 \<mapsto> zero_trace ex_key2],
      reports = []\<rparr>"

definition ex_nested_after :: trace_state where
  "ex_nested_after =
     \<lparr>traces_lxid = 2, traces = Some [ex_key2 \<mapsto> zero_trace ex_key2], reports = []\<rparr>"

subsection \<open>The loops\<close>

declare func_end_loop.simps [simp del]

declare stmt_end_loop.simps [simp del]

lemma func_end_slot_cases:
  "func_end_slot h uc ct out =
     (if func_end_stops h uc ct then Raised (ct, out @ [cursor_is_not_closed h])
      else Returned (func_end_cell h uc ct,
             out @ (if leaked_at_end h uc ct \<and> plpgsql_check_cursors_leaks_strict h
                    then [cursor_is_not_closed h] else [])))"
  by (simp add: func_end_slot_def func_end_stops_def func_end_cell_def leaked_at_end_def
      closed_at_end_def ereport_def cursor_is_not_closed_def split: option.splits)

lemma func_end_loop_done:
  "\<not> i < n \<Longrightarrow> func_end_loop h uc n i cells out = Returned (cells, out)"
  by (simp add: func_end_loop.simps)

lemma func_end_loop_raise:
  "i < n \<Longrightarrow> i < length cells \<Longrightarrow> func_end_stops h uc (cells ! i) \<Longrightarrow>
   func_end_loop h uc n i cells out = Raised (cells, out @ [cursor_is_not_closed h])"
  by (subst func_end_loop.simps) (simp add: func_end_slot_cases)

lemma func_end_loop_next:
  "i < n \<Longrightarrow> i < length cells \<Longrightarrow> \<not> func_end_stops h uc (cells ! i) \<Longrightarrow>
   func_end_loop h uc n i cells out =
     func_end_loop h uc n (Suc i) (cells[i := func_end_cell h uc (cells ! i)])
       (out @ (if leaked_at_end h uc (cells ! i) \<and> plpgsql_check_cursors_leaks_strict h
               then [cursor_is_not_closed h] else []))"
  by (subst func_end_loop.simps) (simp add: func_end_slot_cases)

lemma func_end_loop_not_Crashed:
  "n \<le> length cells \<Longrightarrow> func_end_loop h uc n i cells out \<noteq> Crashed"
proof (induction "n - i" arbitrary: i cells out)
  case 0
  then show ?case by (simp add: func_end_loop_done)
next
  case (Suc k)
  then have i: "i < n" "i < length cells" and k: "k = n - Suc i" by simp_all
  show ?case
  proof (cases "func_end_stops h uc (cells ! i)")
    case True
    then show ?thesis by (simp add: func_end_loop_raise [OF i])
  next
    case False
    then show ?thesis
      using Suc.hyps(1) [OF k] Suc.prems by (simp add: func_end_loop_next [OF i])
  qed
qed

text \<open>Either way out of the loop, a cell is as it was or has been cleared.\<close>

lemma func_end_loop_cells:
  "func_end_loop h uc n i cells out = Returned (cells', out') \<or>
   func_end_loop h uc n i cells out = Raised (cells', out') \<Longrightarrow>
   n \<le> length cells \<Longrightarrow>
   length cells' = length cells \<and>
   (\<forall>j < length cells. cells' ! j = cells ! j \<or>
       (i \<le> j \<and> j < n \<and> cells' ! j = func_end_cell h uc (cells ! j)))"
proof (induction "n - i" arbitrary: i cells out)
  case 0
  then show ?case by (auto simp add: func_end_loop_done)
next
  case (Suc k)
  then have i: "i < n" "i < length cells" and k: "k = n - Suc i" by simp_all
  show ?case
  proof (cases "func_end_stops h uc (cells ! i)")
    case True
    with Suc.prems show ?thesis by (simp add: func_end_loop_raise [OF i])
  next
    case False
    let ?cells = "cells[i := func_end_cell h uc (cells ! i)]"
    from Suc.prems(1) False obtain out1 where
      r: "func_end_loop h uc n (Suc i) ?cells out1 = Returned (cells', out') \<or>
          func_end_loop h uc n (Suc i) ?cells out1 = Raised (cells', out')"
      by (simp add: func_end_loop_next [OF i])
    have len: "n \<le> length ?cells" using Suc.prems(2) by simp
    from Suc.hyps(1) [OF k r len] have
      l: "length cells' = length cells" and
      c: "\<And>j. j < length cells \<Longrightarrow> cells' ! j = ?cells ! j \<or>
            (Suc i \<le> j \<and> j < n \<and> cells' ! j = func_end_cell h uc (?cells ! j))"
      by simp_all
    have "cells' ! j = cells ! j \<or>
       (i \<le> j \<and> j < n \<and> cells' ! j = func_end_cell h uc (cells ! j))"
      if "j < length cells" for j
      using c [OF that] i by (cases "j = i") auto
    with l show ?thesis by blast
  qed
qed

lemma func_end_loop_Returned:
  "func_end_loop h uc n i cells out = Returned (cells', out') \<Longrightarrow>
   n \<le> length cells \<Longrightarrow>
   (\<forall>j < length cells. cells' ! j =
       (if i \<le> j \<and> j < n then func_end_cell h uc (cells ! j) else cells ! j)) \<and>
   out' = out @ replicate
      (if plpgsql_check_cursors_leaks_strict h
       then length (filter (leaked_at_end h uc) (drop i (take n cells))) else 0)
      (cursor_is_not_closed h)"
proof (induction "n - i" arbitrary: i cells out)
  case 0
  then show ?case by (auto simp add: func_end_loop_done)
next
  case (Suc k)
  then have i: "i < n" "i < length cells" and k: "k = n - Suc i" by simp_all
  have d: "drop i (take n cells) = cells ! i # drop (Suc i) (take n cells)"
    using i Cons_nth_drop_Suc [of i "take n cells"] by simp
  have u: "\<And>x. drop (Suc i) (take n (cells[i := x])) = drop (Suc i) (take n cells)"
    by (simp add: take_update_swap drop_update_cancel)
  show ?case
  proof (cases "func_end_stops h uc (cells ! i)")
    case True
    with Suc.prems show ?thesis by (simp add: func_end_loop_raise [OF i])
  next
    case False
    let ?cells = "cells[i := func_end_cell h uc (cells ! i)]"
    let ?out = "out @ (if leaked_at_end h uc (cells ! i) \<and> plpgsql_check_cursors_leaks_strict h
               then [cursor_is_not_closed h] else [])"
    from Suc.prems(1) False have
      r: "func_end_loop h uc n (Suc i) ?cells ?out = Returned (cells', out')"
      by (simp add: func_end_loop_next [OF i])
    have len: "n \<le> length ?cells" using Suc.prems(2) by simp
    note IH = Suc.hyps(1) [OF k r len]
    have "cells' ! j =
       (if i \<le> j \<and> j < n then func_end_cell h uc (cells ! j) else cells ! j)"
      if "j < length cells" for j
      using IH that i by (cases "j = i") auto
    moreover have "out' = out @ replicate
      (if plpgsql_check_cursors_leaks_strict h
       then length (filter (leaked_at_end h uc) (drop i (take n cells))) else 0)
      (cursor_is_not_closed h)"
      using IH by (simp add: d u replicate_app_Cons_same)
    ultimately show ?thesis by blast
  qed
qed

lemma func_end_loop_returns:
  "n \<le> length cells \<Longrightarrow>
   \<not> plpgsql_check_cursors_leaks_strict h \<or> plpgsql_check_cursors_leaks_level h < ERROR \<Longrightarrow>
   \<exists>cells' out'. func_end_loop h uc n i cells out = Returned (cells', out')"
proof (induction "n - i" arbitrary: i cells out)
  case 0
  then show ?case by (simp add: func_end_loop_done)
next
  case (Suc k)
  then have i: "i < n" "i < length cells" and k: "k = n - Suc i" by simp_all
  have ns: "\<not> func_end_stops h uc (cells ! i)"
    using Suc.prems(2) by (auto simp: func_end_stops_def)
  show ?case
    using Suc.hyps(1) [OF k, of "cells[i := func_end_cell h uc (cells ! i)]"] Suc.prems
    by (simp add: func_end_loop_next [OF i ns])
qed

lemma stmt_end_slot_cases:
  "stmt_end_slot h uc sid ct cnt out =
     (if stmt_end_stops h uc sid ct then Raised (ct, cnt, out @ [cursor_is_not_closed h])
      else Returned (stmt_end_cell h uc sid ct,
             cnt + (if still_open h sid ct \<and> \<not> early_report h uc then 1 else 0),
             out @ (if still_open h sid ct \<and> early_report h uc
                    then [cursor_is_not_closed h] else [])))"
  by (auto simp add: stmt_end_slot_def stmt_end_stops_def stmt_end_cell_def still_open_def
      closed_since_def early_report_def ereport_def cursor_is_not_closed_def split: option.splits)

lemma stmt_end_loop_done:
  "\<not> i < n \<Longrightarrow>
   stmt_end_loop h uc sid n i cells cnt free_slot out = Returned (cells, cnt, free_slot, out)"
  by (simp add: stmt_end_loop.simps)

lemma stmt_end_loop_raise:
  "i < n \<Longrightarrow> i < length cells \<Longrightarrow> stmt_end_stops h uc sid (cells ! i) \<Longrightarrow>
   stmt_end_loop h uc sid n i cells cnt free_slot out =
     Raised (cells, cnt, free_slot, out @ [cursor_is_not_closed h])"
  by (subst stmt_end_loop.simps) (simp add: stmt_end_slot_cases)

lemma stmt_end_loop_next:
  "i < n \<Longrightarrow> i < length cells \<Longrightarrow> \<not> stmt_end_stops h uc sid (cells ! i) \<Longrightarrow>
   stmt_end_loop h uc sid n i cells cnt free_slot out =
     stmt_end_loop h uc sid n (Suc i) (cells[i := stmt_end_cell h uc sid (cells ! i)])
       (cnt + (if still_open h sid (cells ! i) \<and> \<not> early_report h uc then 1 else 0))
       (if stmtid (stmt_end_cell h uc sid (cells ! i)) = - 1 \<and> free_slot = - 1
        then int i else free_slot)
       (out @ (if still_open h sid (cells ! i) \<and> early_report h uc
               then [cursor_is_not_closed h] else []))"
  by (subst stmt_end_loop.simps) (simp add: stmt_end_slot_cases)

lemma stmt_end_loop_not_Crashed:
  "n \<le> length cells \<Longrightarrow> stmt_end_loop h uc sid n i cells cnt free_slot out \<noteq> Crashed"
proof (induction "n - i" arbitrary: i cells cnt free_slot out)
  case 0
  then show ?case by (simp add: stmt_end_loop_done)
next
  case (Suc k)
  then have i: "i < n" "i < length cells" and k: "k = n - Suc i" by simp_all
  show ?case
  proof (cases "stmt_end_stops h uc sid (cells ! i)")
    case True
    then show ?thesis by (simp add: stmt_end_loop_raise [OF i])
  next
    case False
    then show ?thesis
      using Suc.hyps(1) [OF k] Suc.prems by (simp add: stmt_end_loop_next [OF i])
  qed
qed

lemma stmt_end_loop_cells:
  "stmt_end_loop h uc sid n i cells cnt free_slot out = Returned (cells', cnt', free', out') \<or>
   stmt_end_loop h uc sid n i cells cnt free_slot out = Raised (cells', cnt', free', out') \<Longrightarrow>
   n \<le> length cells \<Longrightarrow>
   length cells' = length cells \<and>
   (\<forall>j < length cells. cells' ! j = cells ! j \<or>
       (i \<le> j \<and> j < n \<and> cells' ! j = stmt_end_cell h uc sid (cells ! j)))"
proof (induction "n - i" arbitrary: i cells cnt free_slot out)
  case 0
  then show ?case by (auto simp add: stmt_end_loop_done)
next
  case (Suc k)
  then have i: "i < n" "i < length cells" and k: "k = n - Suc i" by simp_all
  show ?case
  proof (cases "stmt_end_stops h uc sid (cells ! i)")
    case True
    with Suc.prems show ?thesis by (simp add: stmt_end_loop_raise [OF i])
  next
    case False
    let ?cells = "cells[i := stmt_end_cell h uc sid (cells ! i)]"
    from Suc.prems(1) False obtain cnt1 free1 out1 where
      r: "stmt_end_loop h uc sid n (Suc i) ?cells cnt1 free1 out1 = Returned (cells', cnt', free', out') \<or>
          stmt_end_loop h uc sid n (Suc i) ?cells cnt1 free1 out1 = Raised (cells', cnt', free', out')"
      by (simp add: stmt_end_loop_next [OF i])
    have len: "n \<le> length ?cells" using Suc.prems(2) by simp
    from Suc.hyps(1) [OF k r len] have
      l: "length cells' = length cells" and
      c: "\<And>j. j < length cells \<Longrightarrow> cells' ! j = ?cells ! j \<or>
            (Suc i \<le> j \<and> j < n \<and> cells' ! j = stmt_end_cell h uc sid (?cells ! j))"
      by simp_all
    have "cells' ! j = cells ! j \<or>
       (i \<le> j \<and> j < n \<and> cells' ! j = stmt_end_cell h uc sid (cells ! j))"
      if "j < length cells" for j
      using c [OF that] i by (cases "j = i") auto
    with l show ?thesis by blast
  qed
qed

lemma stmt_end_loop_Returned:
  "stmt_end_loop h uc sid n i cells cnt free_slot out = Returned (cells', cnt', free', out') \<Longrightarrow>
   n \<le> length cells \<Longrightarrow>
   (\<forall>j < length cells. cells' ! j =
       (if i \<le> j \<and> j < n then stmt_end_cell h uc sid (cells ! j) else cells ! j)) \<and>
   cnt' = cnt + (if early_report h uc then 0
                 else length (filter (still_open h sid) (drop i (take n cells)))) \<and>
   out' = out @ replicate
      (if early_report h uc
       then length (filter (still_open h sid) (drop i (take n cells))) else 0)
      (cursor_is_not_closed h)"
proof (induction "n - i" arbitrary: i cells cnt free_slot out)
  case 0
  then show ?case by (auto simp add: stmt_end_loop_done)
next
  case (Suc k)
  then have i: "i < n" "i < length cells" and k: "k = n - Suc i" by simp_all
  have d: "drop i (take n cells) = cells ! i # drop (Suc i) (take n cells)"
    using i Cons_nth_drop_Suc [of i "take n cells"] by simp
  have u: "\<And>x. drop (Suc i) (take n (cells[i := x])) = drop (Suc i) (take n cells)"
    by (simp add: take_update_swap drop_update_cancel)
  show ?case
  proof (cases "stmt_end_stops h uc sid (cells ! i)")
    case True
    with Suc.prems show ?thesis by (simp add: stmt_end_loop_raise [OF i])
  next
    case False
    let ?cells = "cells[i := stmt_end_cell h uc sid (cells ! i)]"
    let ?cnt = "cnt + (if still_open h sid (cells ! i) \<and> \<not> early_report h uc then 1 else 0)"
    let ?free = "if stmtid (stmt_end_cell h uc sid (cells ! i)) = - 1 \<and> free_slot = - 1
        then int i else free_slot"
    let ?out = "out @ (if still_open h sid (cells ! i) \<and> early_report h uc
               then [cursor_is_not_closed h] else [])"
    from Suc.prems(1) False have
      r: "stmt_end_loop h uc sid n (Suc i) ?cells ?cnt ?free ?out = Returned (cells', cnt', free', out')"
      by (simp add: stmt_end_loop_next [OF i])
    have len: "n \<le> length ?cells" using Suc.prems(2) by simp
    note IH = Suc.hyps(1) [OF k r len]
    have "cells' ! j =
       (if i \<le> j \<and> j < n then stmt_end_cell h uc sid (cells ! j) else cells ! j)"
      if "j < length cells" for j
      using IH that i by (cases "j = i") auto
    moreover have "cnt' = cnt + (if early_report h uc then 0
                 else length (filter (still_open h sid) (drop i (take n cells))))"
      using IH by (simp add: d u)
    moreover have "out' = out @ replicate
      (if early_report h uc
       then length (filter (still_open h sid) (drop i (take n cells))) else 0)
      (cursor_is_not_closed h)"
      using IH by (simp add: d u replicate_app_Cons_same)
    ultimately show ?thesis by blast
  qed
qed

text \<open>The free slot the scan ends with: the first cell of the scanned part whose
  statement id is -1 afterwards.\<close>

lemma stmt_end_loop_free_slot:
  "stmt_end_loop h uc sid n i cells cnt free_slot out = Returned (cells', cnt', free', out') \<Longrightarrow>
   n \<le> length cells \<Longrightarrow>
   (free_slot \<noteq> - 1 \<longrightarrow> free' = free_slot) \<and>
   (free_slot = - 1 \<longrightarrow>
      (free' = - 1 \<and> (\<forall>j. i \<le> j \<and> j < n \<longrightarrow> stmtid (cells' ! j) \<noteq> - 1)) \<or>
      (\<exists>k. free' = int k \<and> i \<le> k \<and> k < n \<and> stmtid (cells' ! k) = - 1 \<and>
           (\<forall>j. i \<le> j \<and> j < k \<longrightarrow> stmtid (cells' ! j) \<noteq> - 1)))"
proof (induction "n - i" arbitrary: i cells cnt free_slot out)
  case 0
  then show ?case by (auto simp add: stmt_end_loop_done)
next
  case (Suc k)
  then have i: "i < n" "i < length cells" and k: "k = n - Suc i" by simp_all
  show ?case
  proof (cases "stmt_end_stops h uc sid (cells ! i)")
    case True
    with Suc.prems show ?thesis by (simp add: stmt_end_loop_raise [OF i])
  next
    case False
    let ?cells = "cells[i := stmt_end_cell h uc sid (cells ! i)]"
    let ?cnt = "cnt + (if still_open h sid (cells ! i) \<and> \<not> early_report h uc then 1 else 0)"
    let ?free = "if stmtid (stmt_end_cell h uc sid (cells ! i)) = - 1 \<and> free_slot = - 1
        then int i else free_slot"
    let ?out = "out @ (if still_open h sid (cells ! i) \<and> early_report h uc
               then [cursor_is_not_closed h] else [])"
    from Suc.prems(1) False have
      r: "stmt_end_loop h uc sid n (Suc i) ?cells ?cnt ?free ?out = Returned (cells', cnt', free', out')"
      by (simp add: stmt_end_loop_next [OF i])
    have len: "n \<le> length ?cells" using Suc.prems(2) by simp
    note IH = Suc.hyps(1) [OF k r len]
    have ci: "cells' ! i = stmt_end_cell h uc sid (cells ! i)"
      using stmt_end_loop_Returned [OF r len] i by simp
    show ?thesis
    proof (cases "free_slot = - 1")
      case nf: False
      with IH show ?thesis by simp
    next
      case f: True
      show ?thesis
      proof (cases "stmtid (stmt_end_cell h uc sid (cells ! i)) = - 1")
        case True
        with IH f have "free' = int i" by simp
        with True ci i f show ?thesis by auto
      next
        case nt: False
        with IH f have
          "(free' = - 1 \<and> (\<forall>j. Suc i \<le> j \<and> j < n \<longrightarrow> stmtid (cells' ! j) \<noteq> - 1)) \<or>
           (\<exists>k. free' = int k \<and> Suc i \<le> k \<and> k < n \<and> stmtid (cells' ! k) = - 1 \<and>
               (\<forall>j. Suc i \<le> j \<and> j < k \<longrightarrow> stmtid (cells' ! j) \<noteq> - 1))"
          by simp
        then show ?thesis
        proof
          assume a: "free' = - 1 \<and> (\<forall>j. Suc i \<le> j \<and> j < n \<longrightarrow> stmtid (cells' ! j) \<noteq> - 1)"
          have "stmtid (cells' ! j) \<noteq> - 1" if "i \<le> j \<and> j < n" for j
            using a that nt ci by (cases "j = i") auto
          with a f show ?thesis by blast
        next
          assume "\<exists>k. free' = int k \<and> Suc i \<le> k \<and> k < n \<and> stmtid (cells' ! k) = - 1 \<and>
               (\<forall>j. Suc i \<le> j \<and> j < k \<longrightarrow> stmtid (cells' ! j) \<noteq> - 1)"
          then obtain m where m: "free' = int m" "Suc i \<le> m" "m < n" "stmtid (cells' ! m) = - 1"
               "\<forall>j. Suc i \<le> j \<and> j < m \<longrightarrow> stmtid (cells' ! j) \<noteq> - 1" by blast
          have "stmtid (cells' ! j) \<noteq> - 1" if "i \<le> j \<and> j < m" for j
            using m(5) that nt ci by (cases "j = i") auto
          with m f show ?thesis by (intro conjI impI disjI2 exI [of _ m]) auto
        qed
      qed
    qed
  qed
qed

lemma stmt_end_loop_returns:
  "n \<le> length cells \<Longrightarrow>
   \<not> early_report h uc \<or> plpgsql_check_cursors_leaks_level h < ERROR \<Longrightarrow>
   \<exists>cells' cnt' free' out'.
      stmt_end_loop h uc sid n i cells cnt free_slot out = Returned (cells', cnt', free', out')"
proof (induction "n - i" arbitrary: i cells cnt free_slot out)
  case 0
  then show ?case by (simp add: stmt_end_loop_done)
next
  case (Suc k)
  then have i: "i < n" "i < length cells" and k: "k = n - Suc i" by simp_all
  have ns: "\<not> stmt_end_stops h uc sid (cells ! i)"
    using Suc.prems(2) by (auto simp: stmt_end_stops_def)
  show ?case
    using Suc.hyps(1) [OF k, of "cells[i := stmt_end_cell h uc sid (cells ! i)]"] Suc.prems
    by (simp add: stmt_end_loop_next [OF i ns])
qed

lemma deref_SomeD:
  "deref s p = Some ft \<Longrightarrow>
   \<exists>tab. traces s = Some tab \<and> ptr_lxid p = traces_lxid s \<and> tab (ptr_key p) = Some ft"
  by (auto simp: deref_def split: option.splits if_splits)

lemma deref_assign:
  "deref s p = Some ft \<Longrightarrow> deref (assign p ft' (s\<lparr>reports := out\<rparr>)) p = Some ft'"
  by (auto simp: deref_def assign_def split: option.splits if_splits)

lemma reports_assign: "reports (assign p ft s) = reports s"
  by (simp add: assign_def split: option.splits)

lemma traces_lxid_assign: "traces_lxid (assign p ft s) = traces_lxid s"
  by (simp add: assign_def split: option.splits)

lemma func_end_valid:
  "deref s p = Some ft \<Longrightarrow> traces_lxid s = MyProc_lxid h \<Longrightarrow>
   func_end h fn (Some p) s =
     (case func_end_loop h (use_count fn) (ncursors ft) 0 (cursors_traces ft) (reports s) of
        Returned (cells, out) \<Rightarrow>
          Returned (assign p (ft\<lparr>cursors_traces := cells\<rparr>) (s\<lparr>reports := out\<rparr>))
      | Raised (cells, out) \<Rightarrow>
          Raised (assign p (ft\<lparr>cursors_traces := cells\<rparr>) (s\<lparr>reports := out\<rparr>))
      | Crashed \<Rightarrow> Crashed)"
  by (simp add: func_end_def)

lemma stmt_end_valid:
  "deref s p = Some ft \<Longrightarrow> traces_lxid s = MyProc_lxid h \<Longrightarrow>
   cmd_type stmt = PLPGSQL_STMT_OPEN \<Longrightarrow>
   stmt_end h estate stmt (Some p) s =
     (case stmt_end_loop h (use_count (func estate)) (stmt_id stmt)
              (ncursors ft) 0 (cursors_traces ft) 0 (- 1) (reports s) of
         Crashed \<Rightarrow> Crashed
       | Raised (cells, cnt, free_slot, out) \<Rightarrow>
           Raised (Some p, assign p (ft\<lparr>cursors_traces := cells\<rparr>) (s\<lparr>reports := out\<rparr>))
       | Returned (cells, cnt, free_slot, out) \<Rightarrow>
           if curvar stmt < length (datums estate) then
             if isnull (datums estate ! curvar stmt) then Crashed
             else if cnt < MAX_NAMES_PER_STATEMENT then
               (case stmt_end_store h (ft\<lparr>cursors_traces := cells\<rparr>) free_slot
                       \<lparr>stmtid = stmt_id stmt,
                        rec_level = use_count (func estate),
                        curname = Some (var_value (datums estate ! curvar stmt))\<rparr> of
                  None \<Rightarrow> Crashed
                | Some ft' \<Rightarrow> Returned (Some p, assign p ft' (s\<lparr>reports := out\<rparr>)))
             else Returned (Some p,
                    assign p (ft\<lparr>cursors_traces := cells\<rparr>) (s\<lparr>reports := out\<rparr>))
           else Crashed)"
  by (simp add: stmt_end_def)

text \<open>What the store step does to a well-formed record.\<close>

lemma stmt_end_store_reuse:
  "0 \<le> free_slot \<Longrightarrow> nat free_slot < length (cursors_traces ft) \<Longrightarrow>
   stmt_end_store h ft free_slot new =
     Some (ft\<lparr>cursors_traces := (cursors_traces ft)[nat free_slot := new]\<rparr>)"
  by (simp add: stmt_end_store_def)

lemma stmt_end_store_append:
  assumes "wf_ftrace ft"
  shows "\<exists>ft'. stmt_end_store h ft (- 1) new = Some ft' \<and> wf_ftrace ft' \<and>
     key ft' = key ft \<and>
     ncursors ft' = ncursors ft + 1 \<and>
     cursors_size ft' =
       (if ncursors ft = cursors_size ft then cursors_size ft + 10 else cursors_size ft) \<and>
     cursors_traces ft' ! ncursors ft = new \<and>
     (\<forall>j < length (cursors_traces ft). j \<noteq> ncursors ft \<longrightarrow>
         cursors_traces ft' ! j = cursors_traces ft ! j)"
proof (cases "ncursors ft = cursors_size ft")
  case False
  with assms show ?thesis
    by (auto simp: stmt_end_store_def wf_ftrace_def)
next
  case full: True
  show ?thesis
  proof (cases "cursors_size ft > 0")
    case True
    with full assms show ?thesis
      by (auto simp: stmt_end_store_def wf_ftrace_def repalloc_array_def nth_append)
  next
    case False
    with full assms show ?thesis
      by (auto simp: stmt_end_store_def wf_ftrace_def palloc_array_def)
  qed
qed

subsection \<open>Evaluating the concrete inputs\<close>

lemmas ex_defs = ex_host_def ex_fn_def ex_key_def ex_ptr_def ex_trace_def ex_state_def
  ex_estate_def ex_open_def slot_def junk_def ex_report_def

lemmas eval_defs = func_end_def stmt_end_def deref_def assign_def func_end_loop.simps
  stmt_end_loop.simps func_end_slot_def stmt_end_slot_def ereport_def cursor_is_not_closed_def
  clear_slot_def stmt_end_store_def palloc_array_def repalloc_array_def
  MAX_NAMES_PER_STATEMENT_def ERRCODE_INVALID_CURSOR_STATE_def
  NOTICE_def WARNING_def ERROR_def get_function_trace_def func_setup_def Let_def

lemma get_function_trace_other_transaction:
  "traces_lxid s \<noteq> MyProc_lxid h \<Longrightarrow>
   get_function_trace h fn (s\<lparr>traces := t\<rparr>) = get_function_trace h fn s"
  by (simp add: get_function_trace_def Let_def split: option.splits)


lemmas nested_defs = ex_fn2_def ex_key2_def ex_commit_def ex_nested_before_def
  ex_nested_after_def zero_trace_def


subsection \<open>Teardown as a whole\<close>

lemma func_end_loop_reports:
  "func_end_loop h uc n i cells out = Returned (cells', out') \<or>
   func_end_loop h uc n i cells out = Raised (cells', out') \<Longrightarrow>
   n \<le> length cells \<Longrightarrow>
   \<exists>k \<le> length (filter (leaked_at_end h uc) (drop i (take n cells))).
      out' = out @ replicate k (cursor_is_not_closed h)"
proof (induction "n - i" arbitrary: i cells out)
  case 0
  then show ?case by (auto simp add: func_end_loop_done)
next
  case (Suc k)
  then have i: "i < n" "i < length cells" and k: "k = n - Suc i" by simp_all
  have d: "drop i (take n cells) = cells ! i # drop (Suc i) (take n cells)"
    using i Cons_nth_drop_Suc [of i "take n cells"] by simp
  have u: "\<And>x. drop (Suc i) (take n (cells[i := x])) = drop (Suc i) (take n cells)"
    by (simp add: take_update_swap drop_update_cancel)
  show ?case
  proof (cases "func_end_stops h uc (cells ! i)")
    case True
    then have "leaked_at_end h uc (cells ! i)" by (simp add: func_end_stops_def)
    then have "1 \<le> length (filter (leaked_at_end h uc) (drop i (take n cells)))"
      by (simp add: d)
    moreover from True Suc.prems(1) have "out' = out @ replicate 1 (cursor_is_not_closed h)"
      by (simp add: func_end_loop_raise [OF i])
    ultimately show ?thesis by blast
  next
    case False
    let ?cells = "cells[i := func_end_cell h uc (cells ! i)]"
    let ?out = "out @ (if leaked_at_end h uc (cells ! i) \<and> plpgsql_check_cursors_leaks_strict h
               then [cursor_is_not_closed h] else [])"
    from Suc.prems(1) False have
      r: "func_end_loop h uc n (Suc i) ?cells ?out = Returned (cells', out') \<or>
          func_end_loop h uc n (Suc i) ?cells ?out = Raised (cells', out')"
      by (simp add: func_end_loop_next [OF i])
    have len: "n \<le> length ?cells" using Suc.prems(2) by simp
    from Suc.hyps(1) [OF k r len] obtain m where
      m: "m \<le> length (filter (leaked_at_end h uc) (drop (Suc i) (take n cells)))"
         "out' = ?out @ replicate m (cursor_is_not_closed h)"
      by (auto simp: u)
    show ?thesis
    proof (cases "leaked_at_end h uc (cells ! i) \<and> plpgsql_check_cursors_leaks_strict h")
      case True
      with m show ?thesis
        by (intro exI [of _ "Suc m"]) (simp add: d replicate_app_Cons_same)
    next
      case False
      with m show ?thesis
        by (intro exI [of _ m]) (auto simp add: d)
    qed
  qed
qed

lemma func_end_loop_cong:
  "(\<And>j out. i \<le> j \<Longrightarrow> j < n \<Longrightarrow> j < length cells \<Longrightarrow>
       func_end_slot h' uc (cells ! j) out = func_end_slot h uc (cells ! j) out) \<Longrightarrow>
   func_end_loop h' uc n i cells out = func_end_loop h uc n i cells out"
proof (induction "n - i" arbitrary: i cells out)
  case 0
  then show ?case by (simp add: func_end_loop_done)
next
  case (Suc k)
  then have i: "i < n" and k: "k = n - Suc i" by simp_all
  show ?case
  proof (cases "i < length cells")
    case False
    with i show ?thesis by (simp add: func_end_loop.simps [of _ uc n i])
  next
    case True
    have e: "func_end_slot h' uc (cells ! i) out = func_end_slot h uc (cells ! i) out"
      using Suc.prems [of i out] i True by simp
    have r: "func_end_loop h' uc n (Suc i) (cells[i := ct]) out1 =
             func_end_loop h uc n (Suc i) (cells[i := ct]) out1" for ct out1
      by (rule Suc.hyps(1) [OF k]) (use Suc.prems in simp)
    show ?thesis
      using i True
      by (simp add: func_end_loop.simps [of _ uc n i] e r split: outcome.splits prod.splits)
  qed
qed

lemma func_end_slot_other_level:
  "rec_level ct \<noteq> uc \<Longrightarrow> func_end_slot h uc ct out = Returned (ct, out)"
  by (simp add: func_end_slot_def split: option.splits)

lemma func_end_slot_cursor_find:
  "(\<And>name. curname ct = Some name \<Longrightarrow> rec_level ct = uc \<Longrightarrow> f name = SPI_cursor_find h name) \<Longrightarrow>
   func_end_slot (h\<lparr>SPI_cursor_find := f\<rparr>) uc ct out = func_end_slot h uc ct out"
  by (simp add: func_end_slot_def cursor_is_not_closed_def split: option.splits)

lemma func_end_cell_cases:
  "func_end_cell h uc ct = ct \<or>
   (func_end_cell h uc ct = clear_slot ct \<and> rec_level ct = uc \<and> curname ct \<noteq> None)"
  by (auto simp: func_end_cell_def closed_at_end_def leaked_at_end_def split: option.splits)

lemma func_end_outcome:
  assumes "func_end h fn (Some p) s = Returned s' \<or> func_end h fn (Some p) s = Raised s'"
    and "deref s p = Some ft" and "traces_lxid s = MyProc_lxid h"
  shows "\<exists>cells' out'.
     (func_end h fn (Some p) s = Returned s' \<and>
      func_end_loop h (use_count fn) (ncursors ft) 0 (cursors_traces ft) (reports s)
         = Returned (cells', out') \<or>
      func_end h fn (Some p) s = Raised s' \<and>
      func_end_loop h (use_count fn) (ncursors ft) 0 (cursors_traces ft) (reports s)
         = Raised (cells', out')) \<and>
     s' = assign p (ft\<lparr>cursors_traces := cells'\<rparr>) (s\<lparr>reports := out'\<rparr>) \<and>
     deref s' p = Some (ft\<lparr>cursors_traces := cells'\<rparr>) \<and> reports s' = out' \<and>
     traces_lxid s' = traces_lxid s"
  using assms(1) deref_assign [OF assms(2)]
  by (auto simp: func_end_valid [OF assms(2,3)] reports_assign traces_lxid_assign
      split: outcome.splits prod.splits)


lemma func_end_cursor_find:
  assumes "deref s p = Some ft"
    and f: "\<forall>j < ncursors ft. \<forall>name.
                rec_level (cursors_traces ft ! j) = use_count fn \<and>
                curname (cursors_traces ft ! j) = Some name \<longrightarrow>
                f name = SPI_cursor_find h name"
  shows "func_end (h\<lparr>SPI_cursor_find := f\<rparr>) fn (Some p) s = func_end h fn (Some p) s"
proof -
  have "func_end_loop (h\<lparr>SPI_cursor_find := f\<rparr>) (use_count fn) (ncursors ft) 0
             (cursors_traces ft) (reports s) =
          func_end_loop h (use_count fn) (ncursors ft) 0 (cursors_traces ft) (reports s)"
    by (rule func_end_loop_cong, rule func_end_slot_cursor_find) (use f in auto)
  then show ?thesis
    using assms(1) by (simp add: func_end_def)
qed



lemma func_end_non_strict:
  assumes ns: "\<not> plpgsql_check_cursors_leaks_strict h"
    and d: "deref s p = Some ft"
    and n: "ncursors ft \<le> length (cursors_traces ft)"
  shows "\<exists>s' cells'. func_end h fn (Some p) s = Returned s' \<and> reports s' = reports s \<and>
     deref s' p = Some (ft\<lparr>cursors_traces := cells'\<rparr>) \<and>
     traces_lxid s' = traces_lxid s \<and>
     length cells' = length (cursors_traces ft) \<and>
     (\<forall>j < length (cursors_traces ft).
        cells' ! j = cursors_traces ft ! j \<or>
        (j < ncursors ft \<and> closed_at_end h (use_count fn) (cursors_traces ft ! j) \<and>
         cells' ! j = clear_slot (cursors_traces ft ! j)))"
proof (cases "traces_lxid s = MyProc_lxid h")
  case False
  then have "func_end h fn (Some p) s = Returned s" by (simp add: func_end_def)
  moreover have "deref s p = Some (ft\<lparr>cursors_traces := cursors_traces ft\<rparr>)"
    using d by simp
  ultimately show ?thesis by blast
next
  case True
  from func_end_loop_returns [OF n, of h "use_count fn" 0 "reports s"] ns obtain cells' out' where
    L: "func_end_loop h (use_count fn) (ncursors ft) 0 (cursors_traces ft) (reports s)
          = Returned (cells', out')"
    by blast
  let ?s' = "assign p (ft\<lparr>cursors_traces := cells'\<rparr>) (s\<lparr>reports := out'\<rparr>)"
  have r: "func_end h fn (Some p) s = Returned ?s'"
    by (simp add: func_end_valid [OF d True] L)
  from func_end_loop_Returned [OF L n] ns have
    o: "out' = reports s"
    and c: "\<forall>j < length (cursors_traces ft). cells' ! j =
       (if j < ncursors ft then func_end_cell h (use_count fn) (cursors_traces ft ! j)
        else cursors_traces ft ! j)"
    by simp_all
  from func_end_loop_cells [OF disjI1 [OF L] n]
  have len: "length cells' = length (cursors_traces ft)" by (rule conjunct1)
  have fr: "cells' ! j = cursors_traces ft ! j \<or>
        (j < ncursors ft \<and> closed_at_end h (use_count fn) (cursors_traces ft ! j) \<and>
         cells' ! j = clear_slot (cursors_traces ft ! j))"
    if "j < length (cursors_traces ft)" for j
    using c that ns by (auto simp: func_end_cell_def)
  have 1: "reports ?s' = reports s" by (simp add: reports_assign o)
  have 2: "deref ?s' p = Some (ft\<lparr>cursors_traces := cells'\<rparr>)" by (rule deref_assign [OF d])
  have 3: "traces_lxid ?s' = traces_lxid s" by (simp add: traces_lxid_assign)
  from r 1 2 3 len fr show ?thesis by blast
qed



lemma func_end_loop_Raised:
  "func_end_loop h uc n i cells out = Raised (cells', out') \<Longrightarrow>
   n \<le> length cells \<Longrightarrow>
   out' = out @ [cursor_is_not_closed h] \<and>
   (\<forall>j < length cells. leaked_at_end h uc (cells ! j) \<longrightarrow> cells' ! j = cells ! j)"
proof (induction "n - i" arbitrary: i cells out)
  case 0
  then show ?case by (simp add: func_end_loop_done)
next
  case (Suc k)
  then have i: "i < n" "i < length cells" and k: "k = n - Suc i" by simp_all
  have esc: "plpgsql_check_cursors_leaks_strict h \<and> \<not> plpgsql_check_cursors_leaks_level h < ERROR"
  proof (rule ccontr)
    assume "\<not> ?thesis"
    then have "\<not> plpgsql_check_cursors_leaks_strict h \<or> plpgsql_check_cursors_leaks_level h < ERROR"
      by blast
    from func_end_loop_returns [OF Suc.prems(2) this, of uc i out] Suc.prems(1)
    show False by simp
  qed
  show ?case
  proof (cases "func_end_stops h uc (cells ! i)")
    case True
    with Suc.prems show ?thesis by (simp add: func_end_loop_raise [OF i])
  next
    case False
    with esc have nl: "\<not> leaked_at_end h uc (cells ! i)" by (simp add: func_end_stops_def)
    let ?cells = "cells[i := func_end_cell h uc (cells ! i)]"
    from Suc.prems(1) False nl have
      r: "func_end_loop h uc n (Suc i) ?cells out = Raised (cells', out')"
      by (simp add: func_end_loop_next [OF i])
    have len: "n \<le> length ?cells" using Suc.prems(2) by simp
    from Suc.hyps(1) [OF k r len] have
      o: "out' = out @ [cursor_is_not_closed h]"
      and c: "\<And>j. j < length cells \<Longrightarrow> leaked_at_end h uc (?cells ! j) \<Longrightarrow>
                cells' ! j = ?cells ! j"
      by simp_all
    have "cells' ! j = cells ! j" if "j < length cells" "leaked_at_end h uc (cells ! j)" for j
    proof -
      from that(2) nl have "j \<noteq> i" by auto
      with c [of j] that show ?thesis by simp
    qed
    with o show ?thesis by blast
  qed
qed

lemma func_end_loop_raises:
  "n \<le> length cells \<Longrightarrow> plpgsql_check_cursors_leaks_strict h \<Longrightarrow>
   \<not> plpgsql_check_cursors_leaks_level h < ERROR \<Longrightarrow>
   i \<le> m \<Longrightarrow> m < n \<Longrightarrow> leaked_at_end h uc (cells ! m) \<Longrightarrow>
   \<exists>cells' out'. func_end_loop h uc n i cells out = Raised (cells', out')"
proof (induction "n - i" arbitrary: i cells out)
  case 0
  then show ?case by simp
next
  case (Suc k)
  then have i: "i < n" "i < length cells" and k: "k = n - Suc i" by simp_all
  show ?case
  proof (cases "func_end_stops h uc (cells ! i)")
    case True
    then show ?thesis by (simp add: func_end_loop_raise [OF i])
  next
    case False
    with Suc.prems have nl: "\<not> leaked_at_end h uc (cells ! i)" by (simp add: func_end_stops_def)
    with Suc.prems have mi: "Suc i \<le> m" by (cases "m = i") auto
    let ?cells = "cells[i := func_end_cell h uc (cells ! i)]"
    have len: "n \<le> length ?cells" using Suc.prems(1) by simp
    have lm: "leaked_at_end h uc (?cells ! m)" using Suc.prems(6) mi by simp
    from Suc.hyps(1) [OF k len Suc.prems(2,3) mi Suc.prems(5) lm] False nl
    show ?thesis by (simp add: func_end_loop_next [OF i])
  qed
qed


lemma cursor_is_not_closed_fields:
  "elevel (cursor_is_not_closed h) = plpgsql_check_cursors_leaks_level h"
  "sqlerrcode (cursor_is_not_closed h) = ERRCODE_INVALID_CURSOR_STATE"
  "message (cursor_is_not_closed h) = ''cursor is not closed''"
  "detail (cursor_is_not_closed h) = GetErrorContextStack h"
  by (simp_all add: cursor_is_not_closed_def)

lemma filter_take_some:
  assumes "i < n" "n \<le> length xs" "P (xs ! i)"
  shows "1 \<le> length (filter P (take n xs))"
proof -
  have "xs ! i \<in> set (take n xs)"
    using assms(1,2) by (auto simp: in_set_conv_nth intro!: exI [of _ i])
  with assms(3) have "filter P (take n xs) \<noteq> []" by (auto simp: filter_empty_conv)
  then show ?thesis by (cases "filter P (take n xs)") simp_all
qed






subsection \<open>The end of an OPEN statement as a whole\<close>

lemma stmt_end_loop_returns_if:
  "n \<le> length cells \<Longrightarrow>
   (\<And>j. i \<le> j \<Longrightarrow> j < n \<Longrightarrow> \<not> stmt_end_stops h uc sid (cells ! j)) \<Longrightarrow>
   \<exists>cells' cnt' free' out'.
      stmt_end_loop h uc sid n i cells cnt free_slot out = Returned (cells', cnt', free', out')"
proof (induction "n - i" arbitrary: i cells cnt free_slot out)
  case 0
  then show ?case by (simp add: stmt_end_loop_done)
next
  case (Suc k)
  then have i: "i < n" "i < length cells" and k: "k = n - Suc i" by simp_all
  have ns: "\<not> stmt_end_stops h uc sid (cells ! i)"
    using Suc.prems(2) [of i] i by simp
  let ?cells = "cells[i := stmt_end_cell h uc sid (cells ! i)]"
  have len: "n \<le> length ?cells" using Suc.prems(1) by simp
  have "\<not> stmt_end_stops h uc sid (?cells ! j)" if "Suc i \<le> j" "j < n" for j
    using Suc.prems(2) [of j] that by simp
  from Suc.hyps(1) [OF k len this] show ?case
    by (simp add: stmt_end_loop_next [OF i ns])
qed

lemma stmt_end_cell_cases:
  "stmt_end_cell h uc sid ct = ct \<or>
   (stmt_end_cell h uc sid ct = clear_slot ct \<and> stmtid ct = sid \<and> curname ct \<noteq> None)"
  by (auto simp: stmt_end_cell_def closed_since_def still_open_def split: option.splits)

lemma stmt_end_store_result:
  assumes "wf_ftrace ft" and "free_slot = - 1 \<or> (\<exists>k. free_slot = int k \<and> k < ncursors ft)"
  shows "\<exists>ft'. stmt_end_store h ft free_slot new = Some ft' \<and> wf_ftrace ft' \<and>
     key ft' = key ft \<and>
     (free_slot = - 1 \<longrightarrow>
        ncursors ft' = ncursors ft + 1 \<and>
        cursors_size ft' =
          (if ncursors ft = cursors_size ft then cursors_size ft + 10 else cursors_size ft) \<and>
        cursors_traces ft' ! ncursors ft = new \<and>
        (\<forall>j < length (cursors_traces ft). j \<noteq> ncursors ft \<longrightarrow>
            cursors_traces ft' ! j = cursors_traces ft ! j)) \<and>
     (\<forall>k. free_slot = int k \<longrightarrow>
        ft' = ft\<lparr>cursors_traces := (cursors_traces ft)[k := new]\<rparr>)"
proof (cases "free_slot = - 1")
  case True
  with stmt_end_store_append [OF assms(1), of h new] show ?thesis by auto
next
  case False
  with assms(2) obtain k where k: "free_slot = int k" "k < ncursors ft" by blast
  with assms(1) have "nat free_slot < length (cursors_traces ft)" "0 \<le> free_slot"
    by (simp_all add: wf_ftrace_def)
  from stmt_end_store_reuse [OF this(2,1), of h new] k assms(1) show ?thesis
    by (simp add: wf_ftrace_def)
qed

text \<open>The new entry that \<open>stmt_end\<close> writes.\<close>

lemma stmt_end_Returned:
  assumes "deref s p = Some ft" and "traces_lxid s = MyProc_lxid h"
    and "cmd_type stmt = PLPGSQL_STMT_OPEN"
    and "stmt_end h estate stmt (Some p) s = Returned (p', s')"
  shows "\<exists>cells1 cnt free_slot out1 ft'.
     stmt_end_loop h (use_count (func estate)) (stmt_id stmt) (ncursors ft) 0
        (cursors_traces ft) 0 (- 1) (reports s) = Returned (cells1, cnt, free_slot, out1) \<and>
     p' = Some p \<and> deref s' p = Some ft' \<and> reports s' = out1 \<and>
     traces_lxid s' = traces_lxid s \<and>
     curvar stmt < length (datums estate) \<and> \<not> isnull (datums estate ! curvar stmt) \<and>
     (if cnt < MAX_NAMES_PER_STATEMENT
      then stmt_end_store h (ft\<lparr>cursors_traces := cells1\<rparr>) free_slot
             (new_entry estate stmt) = Some ft'
      else ft' = ft\<lparr>cursors_traces := cells1\<rparr>)"
  using assms(4) deref_assign [OF assms(1)]
  by (auto simp: stmt_end_valid [OF assms(1,2,3)] reports_assign traces_lxid_assign
      new_entry_def split: outcome.splits prod.splits if_splits option.splits)


lemma stmt_end_scan_store:
  assumes d: "deref s p = Some ft" and lx: "traces_lxid s = MyProc_lxid h"
    and wf: "wf_ftrace ft" and op: "cmd_type stmt = PLPGSQL_STMT_OPEN"
    and r: "stmt_end h estate stmt (Some p) s = Returned (p', s')"
  shows "\<exists>cells1 cnt free_slot ft'.
     p' = Some p \<and> deref s' p = Some ft' \<and> wf_ftrace ft' \<and>
     traces_lxid s' = traces_lxid s \<and>
     curvar stmt < length (datums estate) \<and> \<not> isnull (datums estate ! curvar stmt) \<and>
     length cells1 = length (cursors_traces ft) \<and>
     (\<forall>j < length (cursors_traces ft). cells1 ! j =
         (if j < ncursors ft
          then stmt_end_cell h (use_count (func estate)) (stmt_id stmt) (cursors_traces ft ! j)
          else cursors_traces ft ! j)) \<and>
     cnt = (if early_report h (use_count (func estate)) then 0
            else length (filter (still_open h (stmt_id stmt))
                   (take (ncursors ft) (cursors_traces ft)))) \<and>
     reports s' = reports s @ replicate
        (if early_report h (use_count (func estate))
         then length (filter (still_open h (stmt_id stmt))
                (take (ncursors ft) (cursors_traces ft))) else 0)
        (cursor_is_not_closed h) \<and>
     ((free_slot = - 1 \<and> (\<forall>j < ncursors ft. stmtid (cells1 ! j) \<noteq> - 1)) \<or>
      (\<exists>k. free_slot = int k \<and> k < ncursors ft \<and> stmtid (cells1 ! k) = - 1 \<and>
           (\<forall>j < k. stmtid (cells1 ! j) \<noteq> - 1))) \<and>
     (if cnt < MAX_NAMES_PER_STATEMENT
      then stmt_end_store h (ft\<lparr>cursors_traces := cells1\<rparr>) free_slot
             (new_entry estate stmt) = Some ft'
      else ft' = ft\<lparr>cursors_traces := cells1\<rparr>)"
proof -
  let ?uc = "use_count (func estate)" and ?sid = "stmt_id stmt"
  from stmt_end_Returned [OF d lx op r] obtain cells1 cnt free_slot out1 ft' where
    L: "stmt_end_loop h ?uc ?sid (ncursors ft) 0 (cursors_traces ft) 0 (- 1) (reports s)
          = Returned (cells1, cnt, free_slot, out1)"
    and p: "p' = Some p" and d': "deref s' p = Some ft'" and o: "reports s' = out1"
    and lx': "traces_lxid s' = traces_lxid s"
    and dat: "curvar stmt < length (datums estate)" "\<not> isnull (datums estate ! curvar stmt)"
    and st: "if cnt < MAX_NAMES_PER_STATEMENT
      then stmt_end_store h (ft\<lparr>cursors_traces := cells1\<rparr>) free_slot
             (new_entry estate stmt) = Some ft'
      else ft' = ft\<lparr>cursors_traces := cells1\<rparr>"
    by blast
  have n: "ncursors ft \<le> length (cursors_traces ft)"
    using wf by (simp add: wf_ftrace_def)
  from stmt_end_loop_cells [OF disjI1 [OF L] n]
  have len: "length cells1 = length (cursors_traces ft)" by (rule conjunct1)
  note R = stmt_end_loop_Returned [OF L n]
  from R have cells: "\<forall>j < length (cursors_traces ft). cells1 ! j =
         (if j < ncursors ft then stmt_end_cell h ?uc ?sid (cursors_traces ft ! j)
          else cursors_traces ft ! j)"
    by simp
  from R have cnt: "cnt = (if early_report h ?uc then 0
            else length (filter (still_open h ?sid) (take (ncursors ft) (cursors_traces ft))))"
    by simp
  from R o have out: "reports s' = reports s @ replicate
        (if early_report h ?uc
         then length (filter (still_open h ?sid) (take (ncursors ft) (cursors_traces ft)))
         else 0) (cursor_is_not_closed h)"
    by simp
  from stmt_end_loop_free_slot [OF L n]
  have fs: "(free_slot = - 1 \<and> (\<forall>j < ncursors ft. stmtid (cells1 ! j) \<noteq> - 1)) \<or>
      (\<exists>k. free_slot = int k \<and> k < ncursors ft \<and> stmtid (cells1 ! k) = - 1 \<and>
           (\<forall>j < k. stmtid (cells1 ! j) \<noteq> - 1))"
    by simp
  let ?ft1 = "ft\<lparr>cursors_traces := cells1\<rparr>"
  have wf1: "wf_ftrace ?ft1" using wf len by (simp add: wf_ftrace_def)
  have fs1: "free_slot = - 1 \<or> (\<exists>k. free_slot = int k \<and> k < ncursors ?ft1)"
    using fs by auto
  have wf': "wf_ftrace ft'"
  proof (cases "cnt < MAX_NAMES_PER_STATEMENT")
    case True
    with st have "stmt_end_store h ?ft1 free_slot (new_entry estate stmt) = Some ft'" by simp
    with stmt_end_store_result [OF wf1 fs1, of h "new_entry estate stmt"]
    show ?thesis by auto
  next
    case False
    with st wf1 show ?thesis by simp
  qed
  from p d' wf' lx' dat len cells cnt out fs st show ?thesis by blast
qed

lemma stmt_end_returns:
  assumes d: "deref s p = Some ft" and lx: "traces_lxid s = MyProc_lxid h"
    and wf: "wf_ftrace ft" and op: "cmd_type stmt = PLPGSQL_STMT_OPEN"
    and dat: "curvar stmt < length (datums estate)" "\<not> isnull (datums estate ! curvar stmt)"
    and ns: "\<And>j. j < ncursors ft \<Longrightarrow>
       \<not> stmt_end_stops h (use_count (func estate)) (stmt_id stmt) (cursors_traces ft ! j)"
  shows "\<exists>s'. stmt_end h estate stmt (Some p) s = Returned (Some p, s')"
proof -
  let ?uc = "use_count (func estate)" and ?sid = "stmt_id stmt"
  have n: "ncursors ft \<le> length (cursors_traces ft)"
    using wf by (simp add: wf_ftrace_def)
  from stmt_end_loop_returns_if [OF n, of 0 h ?uc ?sid 0 "- 1" "reports s"] ns
  obtain cells1 cnt free_slot out1 where
    L: "stmt_end_loop h ?uc ?sid (ncursors ft) 0 (cursors_traces ft) 0 (- 1) (reports s)
          = Returned (cells1, cnt, free_slot, out1)"
    by blast
  from stmt_end_loop_cells [OF disjI1 [OF L] n]
  have len: "length cells1 = length (cursors_traces ft)" by (rule conjunct1)
  let ?ft1 = "ft\<lparr>cursors_traces := cells1\<rparr>"
  have wf1: "wf_ftrace ?ft1" using wf len by (simp add: wf_ftrace_def)
  from stmt_end_loop_free_slot [OF L n]
  have fs1: "free_slot = - 1 \<or> (\<exists>k. free_slot = int k \<and> k < ncursors ?ft1)"
    by auto
  from stmt_end_store_result [OF wf1 fs1, of h "new_entry estate stmt"] obtain ft' where
    "stmt_end_store h ?ft1 free_slot (new_entry estate stmt) = Some ft'" by blast
  then show ?thesis
    using L dat by (simp add: stmt_end_valid [OF d lx op] new_entry_def)
qed

lemma kept_for_stmt_eq:
  "kept_for_stmt h uc sid ft =
     (if early_report h uc then 0
      else length (filter (still_open h sid) (take (ncursors ft) (cursors_traces ft))))"
  by (simp add: kept_for_stmt_def)


lemma filter_take_none:
  assumes "\<And>j. j < n \<Longrightarrow> \<not> P (xs ! j)" and "n \<le> length xs"
  shows "filter P (take n xs) = []"
proof -
  have "\<not> P x" if "x \<in> set (take n xs)" for x
  proof -
    from that obtain j where "j < length (take n xs)" "x = take n xs ! j"
      by (auto simp: in_set_conv_nth)
    with assms show ?thesis by simp
  qed
  then show ?thesis by (simp add: filter_empty_conv)
qed

lemma stmt_end_store_holds_new:
  assumes "wf_ftrace ft" and "free_slot = - 1 \<or> (\<exists>k. free_slot = int k \<and> k < ncursors ft)"
    and "stmt_end_store h ft free_slot new = Some ft'"
  shows "\<exists>j < ncursors ft'. cursors_traces ft' ! j = new"
proof (cases "free_slot = - 1")
  case True
  with stmt_end_store_result [OF assms(1,2), of h new] assms(3)
  have "ncursors ft' = ncursors ft + 1" "cursors_traces ft' ! ncursors ft = new"
    by auto
  then have "ncursors ft < ncursors ft' \<and> cursors_traces ft' ! ncursors ft = new" by simp
  then show ?thesis by blast
next
  case False
  with assms(2) obtain k where k: "free_slot = int k" "k < ncursors ft" by blast
  with stmt_end_store_result [OF assms(1,2), of h new] assms(3)
  have ft': "ft' = ft\<lparr>cursors_traces := (cursors_traces ft)[k := new]\<rparr>" by auto
  have "k < length (cursors_traces ft)" using k(2) assms(1) by (simp add: wf_ftrace_def)
  then have "k < ncursors ft' \<and> cursors_traces ft' ! k = new"
    using k(2) by (simp add: ft')
  then show ?thesis by blast
qed


lemma stmt_end_loop_Raised:
  "stmt_end_loop h uc sid n i cells cnt free_slot out = Raised (cells', cnt', free', out') \<Longrightarrow>
   n \<le> length cells \<Longrightarrow>
   out' = out @ [cursor_is_not_closed h] \<and>
   (\<forall>j < length cells. still_open h sid (cells ! j) \<longrightarrow> cells' ! j = cells ! j)"
proof (induction "n - i" arbitrary: i cells cnt free_slot out)
  case 0
  then show ?case by (simp add: stmt_end_loop_done)
next
  case (Suc k)
  then have i: "i < n" "i < length cells" and k: "k = n - Suc i" by simp_all
  have esc: "early_report h uc \<and> \<not> plpgsql_check_cursors_leaks_level h < ERROR"
  proof (rule ccontr)
    assume "\<not> ?thesis"
    then have "\<not> early_report h uc \<or> plpgsql_check_cursors_leaks_level h < ERROR"
      by blast
    from stmt_end_loop_returns [OF Suc.prems(2) this, of sid i cnt free_slot out] Suc.prems(1)
    show False by simp
  qed
  show ?case
  proof (cases "stmt_end_stops h uc sid (cells ! i)")
    case True
    with Suc.prems show ?thesis by (simp add: stmt_end_loop_raise [OF i])
  next
    case False
    with esc have nl: "\<not> still_open h sid (cells ! i)" by (simp add: stmt_end_stops_def)
    let ?cells = "cells[i := stmt_end_cell h uc sid (cells ! i)]"
    from Suc.prems(1) False nl obtain cnt1 free1 where
      r: "stmt_end_loop h uc sid n (Suc i) ?cells cnt1 free1 out = Raised (cells', cnt', free', out')"
      by (simp add: stmt_end_loop_next [OF i])
    have len: "n \<le> length ?cells" using Suc.prems(2) by simp
    from Suc.hyps(1) [OF k r len] have
      o: "out' = out @ [cursor_is_not_closed h]"
      and c: "\<And>j. j < length cells \<Longrightarrow> still_open h sid (?cells ! j) \<Longrightarrow>
                cells' ! j = ?cells ! j"
      by simp_all
    have "cells' ! j = cells ! j" if "j < length cells" "still_open h sid (cells ! j)" for j
    proof -
      from that(2) nl have "j \<noteq> i" by auto
      with c [of j] that show ?thesis by simp
    qed
    with o show ?thesis by blast
  qed
qed

lemma stmt_end_loop_raises:
  "n \<le> length cells \<Longrightarrow> early_report h uc \<Longrightarrow>
   \<not> plpgsql_check_cursors_leaks_level h < ERROR \<Longrightarrow>
   i \<le> m \<Longrightarrow> m < n \<Longrightarrow> still_open h sid (cells ! m) \<Longrightarrow>
   \<exists>cells' cnt' free' out'.
      stmt_end_loop h uc sid n i cells cnt free_slot out = Raised (cells', cnt', free', out')"
proof (induction "n - i" arbitrary: i cells cnt free_slot out)
  case 0
  then show ?case by simp
next
  case (Suc k)
  then have i: "i < n" "i < length cells" and k: "k = n - Suc i" by simp_all
  show ?case
  proof (cases "stmt_end_stops h uc sid (cells ! i)")
    case True
    then show ?thesis by (simp add: stmt_end_loop_raise [OF i])
  next
    case False
    with Suc.prems have nl: "\<not> still_open h sid (cells ! i)" by (simp add: stmt_end_stops_def)
    with Suc.prems have mi: "Suc i \<le> m" by (cases "m = i") auto
    let ?cells = "cells[i := stmt_end_cell h uc sid (cells ! i)]"
    have len: "n \<le> length ?cells" using Suc.prems(1) by simp
    have lm: "still_open h sid (?cells ! m)" using Suc.prems(6) mi by simp
    from Suc.hyps(1) [OF k len Suc.prems(2,3) mi Suc.prems(5) lm] False nl
    show ?thesis by (simp add: stmt_end_loop_next [OF i])
  qed
qed

lemma stmt_end_Raised:
  assumes "deref s p = Some ft" and "traces_lxid s = MyProc_lxid h"
    and "cmd_type stmt = PLPGSQL_STMT_OPEN"
    and "stmt_end_loop h (use_count (func estate)) (stmt_id stmt) (ncursors ft) 0
           (cursors_traces ft) 0 (- 1) (reports s) = Raised (cells', cnt', free', out')"
  shows "stmt_end h estate stmt (Some p) s =
           Raised (Some p, assign p (ft\<lparr>cursors_traces := cells'\<rparr>) (s\<lparr>reports := out'\<rparr>))"
  by (simp add: stmt_end_valid [OF assms(1,2,3)] assms(4))



subsection \<open>What every reachable store satisfies\<close>

lemma clear_slot_consistent:
  "(curname (clear_slot ct) = None) = (stmtid (clear_slot ct) = - 1)"
  by (simp add: clear_slot_def)

lemma slots_consistent_cleared:
  assumes "slots_consistent ft"
    and "\<And>j. j < ncursors ft \<Longrightarrow>
           cells' ! j = cursors_traces ft ! j \<or> cells' ! j = clear_slot (cursors_traces ft ! j)"
  shows "slots_consistent (ft\<lparr>cursors_traces := cells'\<rparr>)"
  unfolding slots_consistent_def
proof (intro allI impI)
  fix i assume "i < ncursors (ft\<lparr>cursors_traces := cells'\<rparr>)"
  then have i: "i < ncursors ft" by simp
  from assms(1) i have
    c: "(curname (cursors_traces ft ! i) = None) = (stmtid (cursors_traces ft ! i) = - 1)"
    by (simp add: slots_consistent_def)
  from assms(2) [OF i] c clear_slot_consistent [of "cursors_traces ft ! i"]
  have "(curname (cells' ! i) = None) = (stmtid (cells' ! i) = - 1)"
    by (elim disjE) simp_all
  then show "(curname (cursors_traces (ft\<lparr>cursors_traces := cells'\<rparr>) ! i) = None) =
             (stmtid (cursors_traces (ft\<lparr>cursors_traces := cells'\<rparr>) ! i) = - 1)"
    by simp
qed

lemma store_ok_assign:
  assumes "store_ok s" and "wf_ftrace ft" and "slots_consistent ft"
  shows "store_ok (assign p ft (s\<lparr>reports := out\<rparr>))"
  using assms by (auto simp: store_ok_def assign_def split: option.splits if_splits)

lemma store_ok_deref:
  "store_ok s \<Longrightarrow> deref s p = Some ft \<Longrightarrow> wf_ftrace ft \<and> slots_consistent ft"
  by (auto simp: store_ok_def deref_def split: option.splits if_splits)

lemma store_ok_initial: "store_ok initial_state"
  by (simp add: store_ok_def initial_state_def)

lemma store_ok_get_function_trace:
  assumes "store_ok s" and "get_function_trace h fn s = (p, s')"
  shows "store_ok s' \<and> traces_lxid s' = MyProc_lxid h \<and> (\<exists>ft. deref s' p = Some ft)"
  using assms
  by (auto simp: store_ok_def get_function_trace_def Let_def deref_def wf_ftrace_def
      slots_consistent_def split: option.splits if_splits)

lemma store_ok_func_setup:
  assumes "store_ok s" and "func_setup h fn s = (info, s')"
  shows "store_ok s'"
proof (cases "plpgsql_check_cursors_leaks h")
  case False
  with assms show ?thesis by (simp add: func_setup_def)
next
  case True
  obtain p s1 where g: "get_function_trace h fn s = (p, s1)" by (cases "get_function_trace h fn s")
  with True assms(2) have "s' = s1" by (simp add: func_setup_def)
  with store_ok_get_function_trace [OF assms(1) g] show ?thesis by simp
qed

lemma store_ok_func_end:
  assumes ok: "store_ok s"
    and r: "func_end h fn info s = Returned s' \<or> func_end h fn info s = Raised s'"
  shows "store_ok s'"
proof (cases info)
  case None
  with r ok show ?thesis by (simp add: func_end_def)
next
  case (Some p)
  show ?thesis
  proof (cases "traces_lxid s = MyProc_lxid h")
    case False
    with r ok Some show ?thesis by (simp add: func_end_def)
  next
    case True
    from r Some True obtain ft where d: "deref s p = Some ft"
      by (cases "deref s p") (auto simp: func_end_def)
    from store_ok_deref [OF ok d] have wf: "wf_ftrace ft" and sc: "slots_consistent ft"
      by simp_all
    have n: "ncursors ft \<le> length (cursors_traces ft)" using wf by (simp add: wf_ftrace_def)
    from r Some have r': "func_end h fn (Some p) s = Returned s' \<or>
        func_end h fn (Some p) s = Raised s'" by simp
    from func_end_outcome [OF r' d True] obtain cells' out' where
      l: "func_end_loop h (use_count fn) (ncursors ft) 0 (cursors_traces ft) (reports s)
            = Returned (cells', out') \<or>
          func_end_loop h (use_count fn) (ncursors ft) 0 (cursors_traces ft) (reports s)
            = Raised (cells', out')"
      and s': "s' = assign p (ft\<lparr>cursors_traces := cells'\<rparr>) (s\<lparr>reports := out'\<rparr>)"
      by blast
    note lc = func_end_loop_cells [OF l n]
    from lc have len: "length cells' = length (cursors_traces ft)" by (rule conjunct1)
    have wf': "wf_ftrace (ft\<lparr>cursors_traces := cells'\<rparr>)"
      using wf len by (simp add: wf_ftrace_def)
    have "cells' ! j = cursors_traces ft ! j \<or> cells' ! j = clear_slot (cursors_traces ft ! j)"
      if "j < ncursors ft" for j
    proof -
      from that n have "j < length (cursors_traces ft)" by simp
      with lc have "cells' ! j = cursors_traces ft ! j \<or>
          cells' ! j = func_end_cell h (use_count fn) (cursors_traces ft ! j)"
        by blast
      with func_end_cell_cases [of h "use_count fn" "cursors_traces ft ! j"]
      show ?thesis by metis
    qed
    then have sc': "slots_consistent (ft\<lparr>cursors_traces := cells'\<rparr>)"
      by (rule slots_consistent_cleared [OF sc])
    show ?thesis unfolding s' by (rule store_ok_assign [OF ok wf' sc'])
  qed
qed


lemma stmt_end_reresolve:
  assumes "traces_lxid s \<noteq> MyProc_lxid h"
    and "get_function_trace h (func estate) s = (p, s1)"
  shows "stmt_end h estate stmt (Some p0) s = stmt_end h estate stmt (Some p) s1"
proof -
  from assms(2) have "traces_lxid s1 = MyProc_lxid h"
    by (auto simp: get_function_trace_def Let_def split: option.splits)
  with assms show ?thesis by (simp add: stmt_end_def)
qed

lemma slots_consistent_scan:
  assumes sc: "slots_consistent ft" and n: "ncursors ft \<le> length (cursors_traces ft)"
    and c: "\<forall>j < length (cursors_traces ft). cells' ! j = cursors_traces ft ! j \<or>
       (0 \<le> j \<and> j < ncursors ft \<and> cells' ! j = stmt_end_cell h uc sid (cursors_traces ft ! j))"
  shows "slots_consistent (ft\<lparr>cursors_traces := cells'\<rparr>)"
proof (rule slots_consistent_cleared [OF sc])
  fix j assume "j < ncursors ft"
  with n have "j < length (cursors_traces ft)" by simp
  with c have "cells' ! j = cursors_traces ft ! j \<or>
      cells' ! j = stmt_end_cell h uc sid (cursors_traces ft ! j)"
    by blast
  with stmt_end_cell_cases [of h uc sid "cursors_traces ft ! j"]
  show "cells' ! j = cursors_traces ft ! j \<or> cells' ! j = clear_slot (cursors_traces ft ! j)"
    by metis
qed

lemma slots_consistent_store:
  assumes wf: "wf_ftrace ft" and sc: "slots_consistent ft"
    and fs: "free_slot = - 1 \<or> (\<exists>k. free_slot = int k \<and> k < ncursors ft)"
    and new: "curname new \<noteq> None" "stmtid new \<noteq> - 1"
    and st: "stmt_end_store h ft free_slot new = Some ft'"
  shows "wf_ftrace ft' \<and> slots_consistent ft'"
proof -
  from stmt_end_store_result [OF wf fs, of h new] st have
    w: "wf_ftrace ft'"
    and ap: "free_slot = - 1 \<longrightarrow>
        ncursors ft' = ncursors ft + 1 \<and> cursors_traces ft' ! ncursors ft = new \<and>
        (\<forall>j < length (cursors_traces ft). j \<noteq> ncursors ft \<longrightarrow>
            cursors_traces ft' ! j = cursors_traces ft ! j)"
    and re: "\<forall>k. free_slot = int k \<longrightarrow>
        ft' = ft\<lparr>cursors_traces := (cursors_traces ft)[k := new]\<rparr>"
    by auto
  have n: "ncursors ft \<le> length (cursors_traces ft)" using wf by (simp add: wf_ftrace_def)
  have "(curname (cursors_traces ft' ! i) = None) = (stmtid (cursors_traces ft' ! i) = - 1)"
    if i: "i < ncursors ft'" for i
  proof (cases "free_slot = - 1")
    case True
    with ap have a: "ncursors ft' = ncursors ft + 1" "cursors_traces ft' ! ncursors ft = new"
      "\<forall>j < length (cursors_traces ft). j \<noteq> ncursors ft \<longrightarrow>
            cursors_traces ft' ! j = cursors_traces ft ! j"
      by simp_all
    show ?thesis
    proof (cases "i = ncursors ft")
      case True
      with a(2) new show ?thesis by simp
    next
      case False
      with i a(1) have il: "i < ncursors ft" by simp
      with n a(3) have "cursors_traces ft' ! i = cursors_traces ft ! i" by simp
      with sc il show ?thesis by (simp add: slots_consistent_def)
    qed
  next
    case False
    with fs obtain k where k: "free_slot = int k" "k < ncursors ft" by blast
    with re have ft': "ft' = ft\<lparr>cursors_traces := (cursors_traces ft)[k := new]\<rparr>" by blast
    from i ft' have il: "i < ncursors ft" by simp
    show ?thesis
    proof (cases "i = k")
      case True
      with ft' k(2) n new show ?thesis by simp
    next
      case False
      with ft' have "cursors_traces ft' ! i = cursors_traces ft ! i" by simp
      with sc il show ?thesis by (simp add: slots_consistent_def)
    qed
  qed
  then have "slots_consistent ft'" by (simp add: slots_consistent_def)
  with w show ?thesis by simp
qed

lemma store_ok_stmt_end_current:
  assumes ok: "store_ok s" and lx: "traces_lxid s = MyProc_lxid h"
    and valid: "stmt_id stmt \<noteq> - 1"
    and r: "stmt_end h estate stmt (Some p) s = Returned (info', s') \<or>
            stmt_end h estate stmt (Some p) s = Raised (info', s')"
  shows "store_ok s'"
proof (cases "cmd_type stmt = PLPGSQL_STMT_OPEN")
  case False
  with r lx have "s' = s" by (auto simp: stmt_end_def)
  with ok show ?thesis by simp
next
  case op: True
  from r op lx obtain ft where d: "deref s p = Some ft"
    by (cases "deref s p") (auto simp: stmt_end_def)
  from store_ok_deref [OF ok d] have wf: "wf_ftrace ft" and sc: "slots_consistent ft"
    by simp_all
  have n: "ncursors ft \<le> length (cursors_traces ft)" using wf by (simp add: wf_ftrace_def)
  let ?uc = "use_count (func estate)" and ?sid = "stmt_id stmt"
  let ?new = "new_entry estate stmt"
  let ?loop = "stmt_end_loop h ?uc ?sid (ncursors ft) 0 (cursors_traces ft) 0 (- 1) (reports s)"
  have scan_ok: "wf_ftrace (ft\<lparr>cursors_traces := cells'\<rparr>) \<and>
      slots_consistent (ft\<lparr>cursors_traces := cells'\<rparr>)"
    if "?loop = Returned (cells', cnt', free', out') \<or> ?loop = Raised (cells', cnt', free', out')"
    for cells' cnt' free' out'
  proof -
    note lc = stmt_end_loop_cells [OF that n]
    from lc have len: "length cells' = length (cursors_traces ft)" by (rule conjunct1)
    from lc have c: "\<forall>j < length (cursors_traces ft). cells' ! j = cursors_traces ft ! j \<or>
       (0 \<le> j \<and> j < ncursors ft \<and> cells' ! j = stmt_end_cell h ?uc ?sid (cursors_traces ft ! j))"
      by (rule conjunct2)
    from wf len have "wf_ftrace (ft\<lparr>cursors_traces := cells'\<rparr>)" by (simp add: wf_ftrace_def)
    with slots_consistent_scan [OF sc n c] show ?thesis by simp
  qed
  show ?thesis
  proof (cases ?loop)
    case Crashed
    with r show ?thesis by (simp add: stmt_end_valid [OF d lx op])
  next
    case (Raised x)
    obtain cells' cnt' free' out' where x: "x = (cells', cnt', free', out')" by (cases x)
    with Raised r have s': "s' = assign p (ft\<lparr>cursors_traces := cells'\<rparr>) (s\<lparr>reports := out'\<rparr>)"
      by (simp add: stmt_end_valid [OF d lx op])
    from scan_ok [of cells' cnt' free' out'] Raised x
    have "wf_ftrace (ft\<lparr>cursors_traces := cells'\<rparr>)"
      "slots_consistent (ft\<lparr>cursors_traces := cells'\<rparr>)"
      by simp_all
    then show ?thesis unfolding s' by (rule store_ok_assign [OF ok])
  next
    case (Returned x)
    obtain cells1 cnt free_slot out1 where x: "x = (cells1, cnt, free_slot, out1)" by (cases x)
    let ?ft1 = "ft\<lparr>cursors_traces := cells1\<rparr>"
    from scan_ok [of cells1 cnt free_slot out1] Returned x
    have wf1: "wf_ftrace ?ft1" and sc1: "slots_consistent ?ft1" by simp_all
    from Returned x have L: "?loop = Returned (cells1, cnt, free_slot, out1)" by simp
    from stmt_end_loop_free_slot [OF L n]
    have fs1: "free_slot = - 1 \<or> (\<exists>k. free_slot = int k \<and> k < ncursors ?ft1)"
      by auto
    show ?thesis
    proof (cases "cnt < MAX_NAMES_PER_STATEMENT")
      case False
      with r L have s': "s' = assign p ?ft1 (s\<lparr>reports := out1\<rparr>)"
        by (auto simp: stmt_end_valid [OF d lx op] split: if_splits)
      show ?thesis unfolding s' by (rule store_ok_assign [OF ok wf1 sc1])
    next
      case True
      with r L obtain ft' where
        st: "stmt_end_store h ?ft1 free_slot ?new = Some ft'"
        and s': "s' = assign p ft' (s\<lparr>reports := out1\<rparr>)"
        by (auto simp: stmt_end_valid [OF d lx op] new_entry_def
            split: if_splits option.splits)
      have new: "curname ?new \<noteq> None" "stmtid ?new \<noteq> - 1"
        using valid by (simp_all add: new_entry_def)
      from slots_consistent_store [OF wf1 sc1 fs1 new st]
      have "wf_ftrace ft'" "slots_consistent ft'" by simp_all
      then show ?thesis unfolding s' by (rule store_ok_assign [OF ok])
    qed
  qed
qed

lemma store_ok_stmt_end:
  assumes ok: "store_ok s" and valid: "stmt_id stmt \<noteq> - 1"
    and r: "stmt_end h estate stmt info s = Returned (info', s') \<or>
            stmt_end h estate stmt info s = Raised (info', s')"
  shows "store_ok s'"
proof (cases info)
  case None
  with r ok show ?thesis by (simp add: stmt_end_def)
next
  case (Some p0)
  show ?thesis
  proof (cases "traces_lxid s = MyProc_lxid h")
    case True
    from r Some show ?thesis
      by (intro store_ok_stmt_end_current [OF ok True valid, of estate p0 info']) simp
  next
    case False
    obtain p s1 where g: "get_function_trace h (func estate) s = (p, s1)"
      by (cases "get_function_trace h (func estate) s")
    from store_ok_get_function_trace [OF ok g]
    have ok1: "store_ok s1" and lx1: "traces_lxid s1 = MyProc_lxid h" by simp_all
    from r Some stmt_end_reresolve [OF False g, of stmt p0]
    have "stmt_end h estate stmt (Some p) s1 = Returned (info', s') \<or>
          stmt_end h estate stmt (Some p) s1 = Raised (info', s')"
      by simp
    then show ?thesis by (rule store_ok_stmt_end_current [OF ok1 lx1 valid])
  qed
qed

lemma reachable_store_ok: "reachable s \<Longrightarrow> store_ok s"
proof (induction rule: reachable.induct)
  case at_start
  show ?case by (rule store_ok_initial)
next
  case (after_setup s h fn info s')
  from after_setup.IH after_setup.hyps(2) show ?case by (rule store_ok_func_setup)
next
  case (stmt_returned s stmt h estate info info' s')
  from stmt_returned.hyps(2) have v: "stmt_id stmt \<noteq> - 1" by simp
  from stmt_returned.hyps(3) show ?case
    by (intro store_ok_stmt_end [OF stmt_returned.IH v, of h estate info info']) simp
next
  case (stmt_raised s stmt h estate info info' s')
  from stmt_raised.hyps(2) have v: "stmt_id stmt \<noteq> - 1" by simp
  from stmt_raised.hyps(3) show ?case
    by (intro store_ok_stmt_end [OF stmt_raised.IH v, of h estate info info']) simp
next
  case (end_returned s h fn info s')
  from end_returned.hyps(2) show ?case
    by (intro store_ok_func_end [OF end_returned.IH, of h fn info]) simp
next
  case (end_raised s h fn info s')
  from end_raised.hyps(2) show ?case
    by (intro store_ok_func_end [OF end_raised.IH, of h fn info]) simp
qed


section \<open>The claims\<close>

subsection \<open>The trace store\<close>

text \<open>
  \<open>get_function_trace\<close> by itself keeps the transactions apart. It leaves
  \<open>traces_lxid\<close> at the id of the running transaction and returns a pointer to
  the entry of the routine's key in the current table. When there was no table, or
  the table belonged to another transaction, the table afterwards is a new one that
  holds nothing but the zero-initialised record of this key (0 cursors, capacity 0,
  no array), which is the record returned. When the table is the current one, a key
  seen for the first time gets the zero-initialised record and a known key keeps
  its record, and the other entries stay. While \<open>traces_lxid\<close> differs from
  the id of the running transaction, nothing depends on the old table:
  \<open>get_function_trace\<close>, \<open>func_setup\<close> and \<open>stmt_end\<close> give the same
  result whatever the old table holds, and \<open>func_end\<close> returns at once.
\<close>

lemma get_function_trace_store:
  assumes "get_function_trace h fn s = (p, s')"
  shows "p = \<lparr>ptr_lxid = MyProc_lxid h, ptr_key = key_of fn\<rparr> \<and>
         traces_lxid s' = MyProc_lxid h \<and> reports s' = reports s \<and>
         (traces s = None \<or> traces_lxid s \<noteq> MyProc_lxid h \<longrightarrow>
            traces s' = Some [key_of fn \<mapsto> zero_trace (key_of fn)] \<and>
            deref s' p = Some (zero_trace (key_of fn))) \<and>
         (\<forall>tab. traces s = Some tab \<and> traces_lxid s = MyProc_lxid h \<longrightarrow>
            (case tab (key_of fn) of
               None \<Rightarrow> traces s' = Some (tab(key_of fn \<mapsto> zero_trace (key_of fn))) \<and>
                        deref s' p = Some (zero_trace (key_of fn))
             | Some ft \<Rightarrow> traces s' = Some tab \<and> deref s' p = Some ft)) \<and>
         (traces_lxid s \<noteq> MyProc_lxid h \<longrightarrow>
            (\<forall>t. get_function_trace h fn (s\<lparr>traces := t\<rparr>) = (p, s')) \<and>
            (\<forall>t. plpgsql_check_cursors_leaks h \<longrightarrow>
                 func_setup h fn (s\<lparr>traces := t\<rparr>) = (Some p, s')) \<and>
            (\<forall>t estate stmt p0. stmt_end h estate stmt (Some p0) (s\<lparr>traces := t\<rparr>) =
                                 stmt_end h estate stmt (Some p0) s) \<and>
            (\<forall>info. func_end h fn info s = Returned s))"
proof -
  have a: "p = \<lparr>ptr_lxid = MyProc_lxid h, ptr_key = key_of fn\<rparr> \<and>
         traces_lxid s' = MyProc_lxid h \<and> reports s' = reports s \<and>
         (traces s = None \<or> traces_lxid s \<noteq> MyProc_lxid h \<longrightarrow>
            traces s' = Some [key_of fn \<mapsto> zero_trace (key_of fn)] \<and>
            deref s' p = Some (zero_trace (key_of fn))) \<and>
         (\<forall>tab. traces s = Some tab \<and> traces_lxid s = MyProc_lxid h \<longrightarrow>
            (case tab (key_of fn) of
               None \<Rightarrow> traces s' = Some (tab(key_of fn \<mapsto> zero_trace (key_of fn))) \<and>
                        deref s' p = Some (zero_trace (key_of fn))
             | Some ft \<Rightarrow> traces s' = Some tab \<and> deref s' p = Some ft))"
    using assms
    by (auto simp: get_function_trace_def Let_def key_of_def zero_trace_def deref_def
        split: option.splits)
  have b: "(\<forall>t. get_function_trace h fn (s\<lparr>traces := t\<rparr>) = (p, s')) \<and>
            (\<forall>t. plpgsql_check_cursors_leaks h \<longrightarrow>
                 func_setup h fn (s\<lparr>traces := t\<rparr>) = (Some p, s')) \<and>
            (\<forall>t estate stmt p0. stmt_end h estate stmt (Some p0) (s\<lparr>traces := t\<rparr>) =
                                 stmt_end h estate stmt (Some p0) s) \<and>
            (\<forall>info. func_end h fn info s = Returned s)"
    if ne: "traces_lxid s \<noteq> MyProc_lxid h"
  proof (intro conjI allI impI)
    fix t
    show "get_function_trace h fn (s\<lparr>traces := t\<rparr>) = (p, s')"
      using assms by (simp add: get_function_trace_other_transaction [OF ne])
    then show "func_setup h fn (s\<lparr>traces := t\<rparr>) = (Some p, s')"
      if "plpgsql_check_cursors_leaks h"
      using that by (simp add: func_setup_def)
  next
    fix t estate stmt p0
    show "stmt_end h estate stmt (Some p0) (s\<lparr>traces := t\<rparr>) =
          stmt_end h estate stmt (Some p0) s"
      using ne by (simp add: stmt_end_def get_function_trace_other_transaction [OF ne])
  next
    fix info
    show "func_end h fn info s = Returned s"
      using ne by (simp add: func_end_def split: option.splits)
  qed
  from a b show ?thesis by blast
qed


lemma get_function_trace_store_example:
  "get_function_trace (ex_host 2 False WARNING []) (ex_fn 1)
       (ex_state 1 (ex_trace 1 10 (slot 7 1 ''c1'' # replicate 9 junk)) []) =
     (ex_ptr 2, ex_state 2 (zero_trace ex_key) []) \<and>
   traces_lxid (ex_state 1 (ex_trace 1 10 (slot 7 1 ''c1'' # replicate 9 junk)) []) \<noteq>
     MyProc_lxid (ex_host 2 False WARNING []) \<and>
   traces (ex_state 2 (zero_trace ex_key) []) = Some [ex_key \<mapsto> zero_trace ex_key] \<and>
   deref (ex_state 2 (zero_trace ex_key) []) (ex_ptr 2) = Some (zero_trace ex_key) \<and>
   get_function_trace (ex_host 2 False WARNING []) (ex_fn 1)
       (ex_state 1 (ex_trace 1 10 (slot 7 1 ''c1'' # replicate 9 junk)) []\<lparr>traces := None\<rparr>) =
     (ex_ptr 2, ex_state 2 (zero_trace ex_key) [])"
proof -
  let ?h = "ex_host 2 False WARNING []"
  let ?s = "ex_state 1 (ex_trace 1 10 (slot 7 1 ''c1'' # replicate 9 junk)) []"
  let ?s' = "ex_state 2 (zero_trace ex_key) []"
  have e: "get_function_trace ?h (ex_fn 1) ?s = (ex_ptr 2, ?s')"
    by (simp add: get_function_trace_def Let_def ex_defs zero_trace_def)
  have n: "traces_lxid ?s \<noteq> MyProc_lxid ?h"
    by (simp add: ex_defs)
  have k: "key_of (ex_fn 1) = ex_key" by (simp add: key_of_def ex_defs)
  note t = get_function_trace_store [OF e]
  from t have "traces ?s = None \<or> traces_lxid ?s \<noteq> MyProc_lxid ?h \<longrightarrow>
            traces ?s' = Some [key_of (ex_fn 1) \<mapsto> zero_trace (key_of (ex_fn 1))] \<and>
            deref ?s' (ex_ptr 2) = Some (zero_trace (key_of (ex_fn 1)))"
    by (elim conjE)
  with n have 1: "traces ?s' = Some [ex_key \<mapsto> zero_trace ex_key]"
    "deref ?s' (ex_ptr 2) = Some (zero_trace ex_key)"
    unfolding k by simp_all
  from t have "traces_lxid ?s \<noteq> MyProc_lxid ?h \<longrightarrow>
            (\<forall>t. get_function_trace ?h (ex_fn 1) (?s\<lparr>traces := t\<rparr>) = (ex_ptr 2, ?s')) \<and>
            (\<forall>t. plpgsql_check_cursors_leaks ?h \<longrightarrow>
                 func_setup ?h (ex_fn 1) (?s\<lparr>traces := t\<rparr>) = (Some (ex_ptr 2), ?s')) \<and>
            (\<forall>t estate stmt p0. stmt_end ?h estate stmt (Some p0) (?s\<lparr>traces := t\<rparr>) =
                                 stmt_end ?h estate stmt (Some p0) ?s) \<and>
            (\<forall>info. func_end ?h (ex_fn 1) info ?s = Returned ?s)"
    by (elim conjE)
  with n have "\<forall>t. get_function_trace ?h (ex_fn 1) (?s\<lparr>traces := t\<rparr>) = (ex_ptr 2, ?s')"
    by blast
  then have 2: "get_function_trace ?h (ex_fn 1) (?s\<lparr>traces := None\<rparr>) = (ex_ptr 2, ?s')"
    by (rule spec)
  from e n 1 2 show ?thesis by (intro conjI)
qed

text \<open>
  Claim C4. The record that \<open>get_function_trace\<close> returns is new for a new
  transaction, but the hooks compare \<open>traces_lxid\<close> with the id of the running
  transaction and not the pointer they hold with the current table. A first
  procedure opens a cursor and calls a second one, which commits: the end of the
  COMMIT statement finds another transaction id and makes a new table, with
  \<open>traces_lxid\<close> at the new id. The pointer that the first procedure got from
  \<open>func_setup\<close> in the first transaction still refers to the record of the old
  table, which was released with that transaction. When the first procedure goes
  on, the two ids are equal, so that neither \<open>stmt_end\<close> at its next OPEN
  statement nor \<open>func_end\<close> looks the record up again: both read the record of
  the first transaction through the old pointer.
\<close>

theorem kept_pointer_reads_released_record:
  "func_setup (ex_host 1 False WARNING []) (ex_fn 1) initial_state =
     (Some (ex_ptr 1), ex_state 1 (zero_trace ex_key) []) \<and>
   stmt_end (ex_host 1 False WARNING [''c1'']) (ex_estate 1 ''c1'') (ex_open 7)
      (Some (ex_ptr 1)) (ex_state 1 (zero_trace ex_key) []) =
     Returned (Some (ex_ptr 1),
       ex_state 1 (ex_trace 1 10 (slot 7 1 ''c1'' # replicate 9 junk)) []) \<and>
   func_setup (ex_host 1 False WARNING [''c1'']) (ex_fn2 1)
      (ex_state 1 (ex_trace 1 10 (slot 7 1 ''c1'' # replicate 9 junk)) []) =
     (Some \<lparr>ptr_lxid = 1, ptr_key = ex_key2\<rparr>, ex_nested_before) \<and>
   stmt_end (ex_host 2 False WARNING []) \<lparr>func = ex_fn2 1, datums = []\<rparr> ex_commit
      (Some \<lparr>ptr_lxid = 1, ptr_key = ex_key2\<rparr>) ex_nested_before =
     Returned (Some \<lparr>ptr_lxid = 2, ptr_key = ex_key2\<rparr>, ex_nested_after) \<and>
   traces_lxid ex_nested_after = MyProc_lxid (ex_host 2 False WARNING [''c2'']) \<and>
   deref ex_nested_after (ex_ptr 1) = None \<and>
   stmt_end (ex_host 2 False WARNING [''c2'']) (ex_estate 1 ''c2'') (ex_open 7)
      (Some (ex_ptr 1)) ex_nested_after = Crashed \<and>
   func_end (ex_host 2 False WARNING [''c2'']) (ex_fn 1) (Some (ex_ptr 1)) ex_nested_after =
     Crashed"
proof (intro conjI)
  show "func_setup (ex_host 1 False WARNING []) (ex_fn 1) initial_state =
     (Some (ex_ptr 1), ex_state 1 (zero_trace ex_key) [])"
    by (simp add: eval_defs initial_state_def InvalidLocalTransactionId_def zero_trace_def ex_defs)
  show "stmt_end (ex_host 1 False WARNING [''c1'']) (ex_estate 1 ''c1'') (ex_open 7)
      (Some (ex_ptr 1)) (ex_state 1 (zero_trace ex_key) []) =
     Returned (Some (ex_ptr 1),
       ex_state 1 (ex_trace 1 10 (slot 7 1 ''c1'' # replicate 9 junk)) [])"
    by (simp add: eval_defs ex_defs zero_trace_def upt_rec_numeral eval_nat_numeral)
  show "func_setup (ex_host 1 False WARNING [''c1'']) (ex_fn2 1)
      (ex_state 1 (ex_trace 1 10 (slot 7 1 ''c1'' # replicate 9 junk)) []) =
     (Some \<lparr>ptr_lxid = 1, ptr_key = ex_key2\<rparr>, ex_nested_before)"
    by (simp add: eval_defs ex_defs nested_defs)
  show "stmt_end (ex_host 2 False WARNING []) \<lparr>func = ex_fn2 1, datums = []\<rparr> ex_commit
      (Some \<lparr>ptr_lxid = 1, ptr_key = ex_key2\<rparr>) ex_nested_before =
     Returned (Some \<lparr>ptr_lxid = 2, ptr_key = ex_key2\<rparr>, ex_nested_after)"
    by (simp add: eval_defs ex_defs nested_defs)
  show "traces_lxid ex_nested_after = MyProc_lxid (ex_host 2 False WARNING [''c2''])"
    by (simp add: ex_defs nested_defs)
  show "deref ex_nested_after (ex_ptr 1) = None"
    by (simp add: deref_def ex_defs nested_defs)
  show "stmt_end (ex_host 2 False WARNING [''c2'']) (ex_estate 1 ''c2'') (ex_open 7)
      (Some (ex_ptr 1)) ex_nested_after = Crashed"
    by (simp add: eval_defs ex_defs nested_defs)
  show "func_end (ex_host 2 False WARNING [''c2'']) (ex_fn 1) (Some (ex_ptr 1)) ex_nested_after =
     Crashed"
    by (simp add: eval_defs ex_defs nested_defs)
qed

subsection \<open>Teardown\<close>

text \<open>
  Claim C8. Teardown of an activation with use count \<open>use_count fn\<close>, whether it
  returns or is left by a report: every slot recorded at another use level is
  unchanged; a slot that changed was a live slot of this level with a name, and it
  has been cleared; the new reports are at most one per slot of this level whose
  cursor exists; and the outcome does not depend on whether the cursors named in
  slots of other levels exist (the lookup is made for slots of this level only).
  So the teardown of an inner activation never clears the slot of an outer one,
  also when statement and cursor name are the same.
\<close>

theorem func_end_other_levels:
  assumes "func_end h fn (Some p) s = Returned s' \<or> func_end h fn (Some p) s = Raised s'"
    and "deref s p = Some ft"
    and "ncursors ft \<le> length (cursors_traces ft)"
  shows "\<exists>ft'. deref s' p = Some ft' \<and> ncursors ft' = ncursors ft \<and>
      length (cursors_traces ft') = length (cursors_traces ft) \<and>
      (\<forall>j < length (cursors_traces ft).
          (rec_level (cursors_traces ft ! j) \<noteq> use_count fn \<longrightarrow>
             cursors_traces ft' ! j = cursors_traces ft ! j) \<and>
          (cursors_traces ft' ! j \<noteq> cursors_traces ft ! j \<longrightarrow>
             j < ncursors ft \<and> rec_level (cursors_traces ft ! j) = use_count fn \<and>
             curname (cursors_traces ft ! j) \<noteq> None \<and>
             cursors_traces ft' ! j = clear_slot (cursors_traces ft ! j))) \<and>
      (\<exists>k \<le> length (filter (leaked_at_end h (use_count fn))
                      (take (ncursors ft) (cursors_traces ft))).
          reports s' = reports s @ replicate k (cursor_is_not_closed h)) \<and>
      (\<forall>f. (\<forall>j < ncursors ft. \<forall>name.
                rec_level (cursors_traces ft ! j) = use_count fn \<and>
                curname (cursors_traces ft ! j) = Some name \<longrightarrow>
                f name = SPI_cursor_find h name) \<longrightarrow>
           func_end (h\<lparr>SPI_cursor_find := f\<rparr>) fn (Some p) s = func_end h fn (Some p) s)"
proof -
  have indep: "\<forall>f. (\<forall>j < ncursors ft. \<forall>name.
                rec_level (cursors_traces ft ! j) = use_count fn \<and>
                curname (cursors_traces ft ! j) = Some name \<longrightarrow>
                f name = SPI_cursor_find h name) \<longrightarrow>
           func_end (h\<lparr>SPI_cursor_find := f\<rparr>) fn (Some p) s = func_end h fn (Some p) s"
    by (intro allI impI) (rule func_end_cursor_find [OF assms(2)])
  show ?thesis
  proof (cases "traces_lxid s = MyProc_lxid h")
    case False
    with assms(1) have s: "s' = s" by (simp add: func_end_def)
    have "0 \<le> length (filter (leaked_at_end h (use_count fn))
                      (take (ncursors ft) (cursors_traces ft))) \<and>
          reports s' = reports s @ replicate 0 (cursor_is_not_closed h)"
      by (simp add: s)
    then have rp: "\<exists>k \<le> length (filter (leaked_at_end h (use_count fn))
                      (take (ncursors ft) (cursors_traces ft))).
          reports s' = reports s @ replicate k (cursor_is_not_closed h)"
      by (rule exI)
    have d: "deref s' p = Some ft" using assms(2) s by simp
    show ?thesis
      apply (rule exI [of _ ft])
      apply (intro conjI)
           apply (rule d)
          apply (rule refl)
         apply (rule refl)
        apply simp
       apply (rule rp)
      apply (rule indep)
      done
  next
    case True
    from func_end_outcome [OF assms(1,2) True] obtain cells' out' where
      l: "func_end_loop h (use_count fn) (ncursors ft) 0 (cursors_traces ft) (reports s)
            = Returned (cells', out') \<or>
          func_end_loop h (use_count fn) (ncursors ft) 0 (cursors_traces ft) (reports s)
            = Raised (cells', out')"
      and d: "deref s' p = Some (ft\<lparr>cursors_traces := cells'\<rparr>)" and o: "reports s' = out'"
      by blast
    note lc = func_end_loop_cells [OF l assms(3)]
    from lc have len: "length cells' = length (cursors_traces ft)" by (rule conjunct1)
    have fr: "(rec_level (cursors_traces ft ! j) \<noteq> use_count fn \<longrightarrow>
             cells' ! j = cursors_traces ft ! j) \<and>
          (cells' ! j \<noteq> cursors_traces ft ! j \<longrightarrow>
             j < ncursors ft \<and> rec_level (cursors_traces ft ! j) = use_count fn \<and>
             curname (cursors_traces ft ! j) \<noteq> None \<and>
             cells' ! j = clear_slot (cursors_traces ft ! j))"
      if "j < length (cursors_traces ft)" for j
    proof -
      from lc that have "cells' ! j = cursors_traces ft ! j \<or>
           (j < ncursors ft \<and> cells' ! j = func_end_cell h (use_count fn) (cursors_traces ft ! j))"
        by blast
      with func_end_cell_cases [of h "use_count fn" "cursors_traces ft ! j"]
      show ?thesis by metis
    qed
    from func_end_loop_reports [OF l assms(3)] obtain k where
      k: "k \<le> length (filter (leaked_at_end h (use_count fn))
                      (drop 0 (take (ncursors ft) (cursors_traces ft))))"
         "out' = reports s @ replicate k (cursor_is_not_closed h)"
      by blast
    have rp: "\<exists>k \<le> length (filter (leaked_at_end h (use_count fn))
                      (take (ncursors ft) (cursors_traces ft))).
          reports s' = reports s @ replicate k (cursor_is_not_closed h)"
      by (rule exI [of _ k]) (use k o in simp)
    let ?ft = "ft\<lparr>cursors_traces := cells'\<rparr>"
    have sel: "cursors_traces ?ft = cells'" by simp
    have 3: "\<forall>j < length (cursors_traces ft).
          (rec_level (cursors_traces ft ! j) \<noteq> use_count fn \<longrightarrow>
             cursors_traces ?ft ! j = cursors_traces ft ! j) \<and>
          (cursors_traces ?ft ! j \<noteq> cursors_traces ft ! j \<longrightarrow>
             j < ncursors ft \<and> rec_level (cursors_traces ft ! j) = use_count fn \<and>
             curname (cursors_traces ft ! j) \<noteq> None \<and>
             cursors_traces ?ft ! j = clear_slot (cursors_traces ft ! j))"
      unfolding sel using fr by blast
    show ?thesis
      apply (rule exI [of _ ?ft])
      apply (intro conjI)
           apply (rule d)
          apply simp
         apply (simp add: len)
        apply (rule 3)
       apply (rule rp)
      apply (rule indep)
      done
  qed
qed

theorem func_end_other_levels_witness:
  "func_end (ex_host 1 True WARNING [''c1'', ''c2'']) (ex_fn 2) (Some (ex_ptr 1))
      (ex_state 1 (ex_trace 2 10 (slot 7 1 ''c1'' # slot 7 2 ''c2'' # replicate 8 junk)) []) =
   Returned (ex_state 1 (ex_trace 2 10
      (slot 7 1 ''c1'' # \<lparr>stmtid = - 1, rec_level = 2, curname = None\<rparr> # replicate 8 junk))
      [ex_report WARNING]) \<and>
   deref (ex_state 1 (ex_trace 2 10 (slot 7 1 ''c1'' # slot 7 2 ''c2'' # replicate 8 junk)) [])
      (ex_ptr 1) =
     Some (ex_trace 2 10 (slot 7 1 ''c1'' # slot 7 2 ''c2'' # replicate 8 junk)) \<and>
   rec_level (slot 7 1 ''c1'') \<noteq> use_count (ex_fn 2) \<and>
   (\<exists>ft'. deref (ex_state 1 (ex_trace 2 10
      (slot 7 1 ''c1'' # \<lparr>stmtid = - 1, rec_level = 2, curname = None\<rparr> # replicate 8 junk))
      [ex_report WARNING]) (ex_ptr 1) = Some ft' \<and>
      cursors_traces ft' ! 0 = slot 7 1 ''c1'')"
proof -
  let ?h = "ex_host 1 True WARNING [''c1'', ''c2'']"
  let ?ft = "ex_trace 2 10 (slot 7 1 ''c1'' # slot 7 2 ''c2'' # replicate 8 junk)"
  let ?s = "ex_state 1 ?ft []"
  let ?s' = "ex_state 1 (ex_trace 2 10
      (slot 7 1 ''c1'' # \<lparr>stmtid = - 1, rec_level = 2, curname = None\<rparr> # replicate 8 junk))
      [ex_report WARNING]"
  have e: "func_end ?h (ex_fn 2) (Some (ex_ptr 1)) ?s = Returned ?s'"
    by (simp add: eval_defs ex_defs)
  have d: "deref ?s (ex_ptr 1) = Some ?ft"
    by (simp add: deref_def ex_defs)
  have n: "ncursors ?ft \<le> length (cursors_traces ?ft)"
    by (simp add: ex_defs)
  have l: "rec_level (slot 7 1 ''c1'') \<noteq> use_count (ex_fn 2)"
    by (simp add: ex_defs)
  from func_end_other_levels [OF disjI1 [OF e] d n] obtain ft' where
    f: "deref ?s' (ex_ptr 1) = Some ft'"
       "\<forall>j < length (cursors_traces ?ft).
          rec_level (cursors_traces ?ft ! j) \<noteq> use_count (ex_fn 2) \<longrightarrow>
             cursors_traces ft' ! j = cursors_traces ?ft ! j"
    by blast
  from f(2) have "cursors_traces ft' ! 0 = slot 7 1 ''c1''"
    by (simp add: ex_defs)
  with e d l f(1) show ?thesis by blast
qed

text \<open>
  Claim C3. With strict mode off, teardown always returns and emits no report, and
  it leaves every slot whose cursor still exists as it is. In particular, for an
  OPEN statement none of whose earlier cursors is still open (the cursor is opened
  once, not reopened) and whose cursor is not closed: the end of the statement
  emits no report and records the cursor, and the teardown that follows emits no
  report and leaves that entry in the record.
\<close>

theorem teardown_silent_without_strict:
  assumes ns: "\<not> plpgsql_check_cursors_leaks_strict h"
    and d: "deref s p = Some ft" and wf: "wf_ftrace ft"
  shows "(\<exists>s' ft'. func_end h fn (Some p) s = Returned s' \<and> reports s' = reports s \<and>
            deref s' p = Some ft' \<and> ncursors ft' = ncursors ft \<and>
            (\<forall>j < ncursors ft. \<forall>name.
                curname (cursors_traces ft ! j) = Some name \<and> SPI_cursor_find h name \<longrightarrow>
                cursors_traces ft' ! j = cursors_traces ft ! j)) \<and>
         (traces_lxid s = MyProc_lxid h \<and> cmd_type stmt = PLPGSQL_STMT_OPEN \<and>
          curvar stmt < length (datums estate) \<and> \<not> isnull (datums estate ! curvar stmt) \<and>
          (\<forall>j < ncursors ft. \<not> still_open h (stmt_id stmt) (cursors_traces ft ! j)) \<and>
          SPI_cursor_find h (var_value (datums estate ! curvar stmt)) \<longrightarrow>
          (\<exists>s1 s2 ft2 j.
              stmt_end h estate stmt (Some p) s = Returned (Some p, s1) \<and>
              reports s1 = reports s \<and>
              func_end h (func estate) (Some p) s1 = Returned s2 \<and>
              reports s2 = reports s \<and>
              deref s2 p = Some ft2 \<and> j < ncursors ft2 \<and>
              cursors_traces ft2 ! j = new_entry estate stmt))"
proof (rule conjI)
  have n: "ncursors ft \<le> length (cursors_traces ft)" using wf by (simp add: wf_ftrace_def)
  from func_end_non_strict [OF ns d n, of fn] obtain s' cells' where
    r: "func_end h fn (Some p) s = Returned s'" and o: "reports s' = reports s"
    and d': "deref s' p = Some (ft\<lparr>cursors_traces := cells'\<rparr>)"
    and c: "\<forall>j < length (cursors_traces ft).
        cells' ! j = cursors_traces ft ! j \<or>
        (j < ncursors ft \<and> closed_at_end h (use_count fn) (cursors_traces ft ! j) \<and>
         cells' ! j = clear_slot (cursors_traces ft ! j))"
    by blast
  have keep: "cells' ! j = cursors_traces ft ! j"
    if "j < ncursors ft" "curname (cursors_traces ft ! j) = Some name" "SPI_cursor_find h name"
    for j name
  proof -
    from that have "\<not> closed_at_end h (use_count fn) (cursors_traces ft ! j)"
      by (simp add: closed_at_end_def)
    moreover from that(1) n have "j < length (cursors_traces ft)" by simp
    ultimately show ?thesis using c by blast
  qed
  let ?ft' = "ft\<lparr>cursors_traces := cells'\<rparr>"
  have "ncursors ?ft' = ncursors ft" by simp
  moreover have "\<forall>j < ncursors ft. \<forall>name.
                curname (cursors_traces ft ! j) = Some name \<and> SPI_cursor_find h name \<longrightarrow>
                cursors_traces ?ft' ! j = cursors_traces ft ! j"
    using keep by simp
  ultimately show "\<exists>s' ft'. func_end h fn (Some p) s = Returned s' \<and> reports s' = reports s \<and>
            deref s' p = Some ft' \<and> ncursors ft' = ncursors ft \<and>
            (\<forall>j < ncursors ft. \<forall>name.
                curname (cursors_traces ft ! j) = Some name \<and> SPI_cursor_find h name \<longrightarrow>
                cursors_traces ft' ! j = cursors_traces ft ! j)"
    using r o d' by blast
next
  let ?uc = "use_count (func estate)" and ?sid = "stmt_id stmt"
  let ?new = "new_entry estate stmt"
  show "traces_lxid s = MyProc_lxid h \<and> cmd_type stmt = PLPGSQL_STMT_OPEN \<and>
          curvar stmt < length (datums estate) \<and> \<not> isnull (datums estate ! curvar stmt) \<and>
          (\<forall>j < ncursors ft. \<not> still_open h (stmt_id stmt) (cursors_traces ft ! j)) \<and>
          SPI_cursor_find h (var_value (datums estate ! curvar stmt)) \<longrightarrow>
          (\<exists>s1 s2 ft2 j.
              stmt_end h estate stmt (Some p) s = Returned (Some p, s1) \<and>
              reports s1 = reports s \<and>
              func_end h (func estate) (Some p) s1 = Returned s2 \<and>
              reports s2 = reports s \<and>
              deref s2 p = Some ft2 \<and> j < ncursors ft2 \<and>
              cursors_traces ft2 ! j = new_entry estate stmt)"
  proof
    assume a: "traces_lxid s = MyProc_lxid h \<and> cmd_type stmt = PLPGSQL_STMT_OPEN \<and>
          curvar stmt < length (datums estate) \<and> \<not> isnull (datums estate ! curvar stmt) \<and>
          (\<forall>j < ncursors ft. \<not> still_open h (stmt_id stmt) (cursors_traces ft ! j)) \<and>
          SPI_cursor_find h (var_value (datums estate ! curvar stmt))"
    then have lx: "traces_lxid s = MyProc_lxid h" and op: "cmd_type stmt = PLPGSQL_STMT_OPEN"
      and dat: "curvar stmt < length (datums estate)" "\<not> isnull (datums estate ! curvar stmt)"
      and nso: "\<And>j. j < ncursors ft \<Longrightarrow> \<not> still_open h ?sid (cursors_traces ft ! j)"
      and opened: "SPI_cursor_find h (var_value (datums estate ! curvar stmt))"
      by simp_all
    have n: "ncursors ft \<le> length (cursors_traces ft)" using wf by (simp add: wf_ftrace_def)
    have nst: "\<not> stmt_end_stops h ?uc ?sid (cursors_traces ft ! j)" if "j < ncursors ft" for j
      using nso [OF that] by (simp add: stmt_end_stops_def)
    from stmt_end_returns [OF d lx wf op dat nst] obtain s1 where
      r1: "stmt_end h estate stmt (Some p) s = Returned (Some p, s1)" by blast
    have z: "filter (still_open h ?sid) (take (ncursors ft) (cursors_traces ft)) = []"
      by (rule filter_take_none [of "ncursors ft" "still_open h ?sid" "cursors_traces ft"])
        (use nso n in simp_all)
    from stmt_end_scan_store [OF d lx wf op r1] obtain cells1 cnt free_slot ft1 where
      d1: "deref s1 p = Some ft1" and wf1: "wf_ftrace ft1"
      and lx1: "traces_lxid s1 = traces_lxid s"
      and len: "length cells1 = length (cursors_traces ft)"
      and cnt: "cnt = 0" and o1: "reports s1 = reports s"
      and fs: "(free_slot = - 1 \<and> (\<forall>j < ncursors ft. stmtid (cells1 ! j) \<noteq> - 1)) \<or>
        (\<exists>k. free_slot = int k \<and> k < ncursors ft \<and> stmtid (cells1 ! k) = - 1 \<and>
           (\<forall>j < k. stmtid (cells1 ! j) \<noteq> - 1))"
      and st: "if cnt < MAX_NAMES_PER_STATEMENT
        then stmt_end_store h (ft\<lparr>cursors_traces := cells1\<rparr>) free_slot ?new = Some ft1
        else ft1 = ft\<lparr>cursors_traces := cells1\<rparr>"
      unfolding z by (elim exE conjE) (rule that, simp_all)
    let ?ft0 = "ft\<lparr>cursors_traces := cells1\<rparr>"
    have wf0: "wf_ftrace ?ft0" using wf len by (simp add: wf_ftrace_def)
    have fs0: "free_slot = - 1 \<or> (\<exists>k. free_slot = int k \<and> k < ncursors ?ft0)"
      using fs by auto
    from st cnt have "stmt_end_store h ?ft0 free_slot ?new = Some ft1"
      by (simp add: MAX_NAMES_PER_STATEMENT_def)
    from stmt_end_store_holds_new [OF wf0 fs0 this] obtain j where
      j: "j < ncursors ft1" "cursors_traces ft1 ! j = ?new" by blast
    have n1: "ncursors ft1 \<le> length (cursors_traces ft1)"
      using wf1 by (simp add: wf_ftrace_def)
    from func_end_non_strict [OF ns d1 n1, of "func estate"] obtain s2 cells2 where
      r2: "func_end h (func estate) (Some p) s1 = Returned s2"
      and o2: "reports s2 = reports s1"
      and d2: "deref s2 p = Some (ft1\<lparr>cursors_traces := cells2\<rparr>)"
      and c2: "\<forall>j < length (cursors_traces ft1).
        cells2 ! j = cursors_traces ft1 ! j \<or>
        (j < ncursors ft1 \<and> closed_at_end h ?uc (cursors_traces ft1 ! j) \<and>
         cells2 ! j = clear_slot (cursors_traces ft1 ! j))"
      by blast
    have "\<not> closed_at_end h ?uc (cursors_traces ft1 ! j)"
      using j(2) opened by (simp add: closed_at_end_def new_entry_def)
    moreover have "j < length (cursors_traces ft1)" using j(1) n1 by simp
    ultimately have "cells2 ! j = ?new" using c2 j(2) by metis
    then have "cursors_traces (ft1\<lparr>cursors_traces := cells2\<rparr>) ! j = ?new"
      "j < ncursors (ft1\<lparr>cursors_traces := cells2\<rparr>)"
      using j(1) by simp_all
    with r1 o1 r2 o2 d2 show "\<exists>s1 s2 ft2 j.
              stmt_end h estate stmt (Some p) s = Returned (Some p, s1) \<and>
              reports s1 = reports s \<and>
              func_end h (func estate) (Some p) s1 = Returned s2 \<and>
              reports s2 = reports s \<and>
              deref s2 p = Some ft2 \<and> j < ncursors ft2 \<and>
              cursors_traces ft2 ! j = new_entry estate stmt"
      by (intro exI [of _ s1] exI [of _ s2] exI [of _ "ft1\<lparr>cursors_traces := cells2\<rparr>"]
          exI [of _ j]) simp
  qed
qed


theorem teardown_silent_without_strict_witness:
  "\<not> plpgsql_check_cursors_leaks_strict (ex_host 1 False WARNING [''c1'']) \<and>
   deref (ex_state 1 (zero_trace ex_key) []) (ex_ptr 1) = Some (zero_trace ex_key) \<and>
   wf_ftrace (zero_trace ex_key) \<and>
   SPI_cursor_find (ex_host 1 False WARNING [''c1''])
     (var_value (datums (ex_estate 1 ''c1'') ! curvar (ex_open 7))) \<and>
   (\<exists>s1 s2 ft2 j.
       stmt_end (ex_host 1 False WARNING [''c1'']) (ex_estate 1 ''c1'') (ex_open 7)
         (Some (ex_ptr 1)) (ex_state 1 (zero_trace ex_key) []) = Returned (Some (ex_ptr 1), s1) \<and>
       reports s1 = [] \<and>
       func_end (ex_host 1 False WARNING [''c1'']) (ex_fn 1) (Some (ex_ptr 1)) s1 = Returned s2 \<and>
       reports s2 = [] \<and>
       deref s2 (ex_ptr 1) = Some ft2 \<and> j < ncursors ft2 \<and>
       cursors_traces ft2 ! j = slot 7 1 ''c1'')"
proof -
  let ?h = "ex_host 1 False WARNING [''c1'']"
  let ?s = "ex_state 1 (zero_trace ex_key) []"
  let ?e = "ex_estate 1 ''c1''"
  have ns: "\<not> plpgsql_check_cursors_leaks_strict ?h" by (simp add: ex_defs)
  have d: "deref ?s (ex_ptr 1) = Some (zero_trace ex_key)" by (simp add: deref_def ex_defs)
  have wf: "wf_ftrace (zero_trace ex_key)" by (simp add: wf_ftrace_def zero_trace_def)
  have opened: "SPI_cursor_find ?h (var_value (datums ?e ! curvar (ex_open 7)))"
    by (simp add: ex_defs)
  have pre: "traces_lxid ?s = MyProc_lxid ?h \<and> cmd_type (ex_open 7) = PLPGSQL_STMT_OPEN \<and>
          curvar (ex_open 7) < length (datums ?e) \<and> \<not> isnull (datums ?e ! curvar (ex_open 7)) \<and>
          (\<forall>j < ncursors (zero_trace ex_key).
              \<not> still_open ?h (stmt_id (ex_open 7)) (cursors_traces (zero_trace ex_key) ! j)) \<and>
          SPI_cursor_find ?h (var_value (datums ?e ! curvar (ex_open 7)))"
    by (simp add: ex_defs zero_trace_def)
  note t = teardown_silent_without_strict [OF ns d wf, of "ex_fn 1" "ex_open 7" ?e]
  from t [THEN conjunct2, THEN mp, OF pre]
  have "\<exists>s1 s2 ft2 j.
       stmt_end ?h ?e (ex_open 7) (Some (ex_ptr 1)) ?s = Returned (Some (ex_ptr 1), s1) \<and>
       reports s1 = [] \<and>
       func_end ?h (ex_fn 1) (Some (ex_ptr 1)) s1 = Returned s2 \<and>
       reports s2 = [] \<and>
       deref s2 (ex_ptr 1) = Some ft2 \<and> j < ncursors ft2 \<and>
       cursors_traces ft2 ! j = slot 7 1 ''c1''"
    by (simp add: new_entry_def ex_defs)
  with ns d wf opened show ?thesis by blast
qed

text \<open>
  Claim C6, as amended. At teardown in strict mode, for a live slot of this use
  level whose cursor still exists: when the configured level is below \<open>ERROR\<close>
  the report returns, teardown returns, the slot is cleared (statement id -1, name
  null), and there is exactly one new report for each such slot; when the level is
  \<open>ERROR\<close> or above, the first report ends the teardown and the slot is left as
  it was. The report carries the configured level, the error code of an invalid
  cursor state, and the context stack as detail.
\<close>

theorem teardown_strict_report:
  assumes st: "plpgsql_check_cursors_leaks_strict h"
    and d: "deref s p = Some ft" and lx: "traces_lxid s = MyProc_lxid h"
    and n: "ncursors ft \<le> length (cursors_traces ft)"
    and i: "i < ncursors ft"
    and nm: "curname (cursors_traces ft ! i) = Some name"
    and lv: "rec_level (cursors_traces ft ! i) = use_count fn"
    and ex: "SPI_cursor_find h name"
  shows "(plpgsql_check_cursors_leaks_level h < ERROR \<longrightarrow>
           (\<exists>s' ft'. func_end h fn (Some p) s = Returned s' \<and> deref s' p = Some ft' \<and>
              cursors_traces ft' ! i = clear_slot (cursors_traces ft ! i) \<and>
              stmtid (cursors_traces ft' ! i) = - 1 \<and> curname (cursors_traces ft' ! i) = None \<and>
              reports s' = reports s @ replicate
                 (length (filter (leaked_at_end h (use_count fn))
                    (take (ncursors ft) (cursors_traces ft))))
                 (cursor_is_not_closed h) \<and>
              1 \<le> length (filter (leaked_at_end h (use_count fn))
                    (take (ncursors ft) (cursors_traces ft))))) \<and>
         (\<not> plpgsql_check_cursors_leaks_level h < ERROR \<longrightarrow>
           (\<exists>s' ft'. func_end h fn (Some p) s = Raised s' \<and> deref s' p = Some ft' \<and>
              cursors_traces ft' ! i = cursors_traces ft ! i \<and>
              reports s' = reports s @ [cursor_is_not_closed h])) \<and>
         elevel (cursor_is_not_closed h) = plpgsql_check_cursors_leaks_level h \<and>
         sqlerrcode (cursor_is_not_closed h) = ERRCODE_INVALID_CURSOR_STATE \<and>
         detail (cursor_is_not_closed h) = GetErrorContextStack h"
proof (intro conjI impI)
  let ?uc = "use_count fn"
  have lk: "leaked_at_end h ?uc (cursors_traces ft ! i)"
    using nm lv ex by (simp add: leaked_at_end_def)
  have il: "i < length (cursors_traces ft)" using i n by simp
  {
    assume lev: "plpgsql_check_cursors_leaks_level h < ERROR"
    from func_end_loop_returns [OF n, of h ?uc 0 "reports s"] lev obtain cells' out' where
      L: "func_end_loop h ?uc (ncursors ft) 0 (cursors_traces ft) (reports s)
            = Returned (cells', out')"
      by blast
    let ?s' = "assign p (ft\<lparr>cursors_traces := cells'\<rparr>) (s\<lparr>reports := out'\<rparr>)"
    have r: "func_end h fn (Some p) s = Returned ?s'"
      by (simp add: func_end_valid [OF d lx] L)
    from func_end_loop_Returned [OF L n] st have
      o: "out' = reports s @ replicate
                 (length (filter (leaked_at_end h ?uc) (take (ncursors ft) (cursors_traces ft))))
                 (cursor_is_not_closed h)"
      and c: "\<forall>j < length (cursors_traces ft). cells' ! j =
         (if j < ncursors ft then func_end_cell h ?uc (cursors_traces ft ! j)
          else cursors_traces ft ! j)"
      by simp_all
    from c il i have "cells' ! i = func_end_cell h ?uc (cursors_traces ft ! i)" by simp
    with lk st have ci: "cells' ! i = clear_slot (cursors_traces ft ! i)"
      by (simp add: func_end_cell_def)
    have 1: "deref ?s' p = Some (ft\<lparr>cursors_traces := cells'\<rparr>)" by (rule deref_assign [OF d])
    have 2: "cursors_traces (ft\<lparr>cursors_traces := cells'\<rparr>) ! i =
               clear_slot (cursors_traces ft ! i)"
      using ci by simp
    have 3: "stmtid (cursors_traces (ft\<lparr>cursors_traces := cells'\<rparr>) ! i) = - 1"
      "curname (cursors_traces (ft\<lparr>cursors_traces := cells'\<rparr>) ! i) = None"
      using ci by (simp_all add: clear_slot_def)
    have 4: "reports ?s' = reports s @ replicate
                 (length (filter (leaked_at_end h ?uc) (take (ncursors ft) (cursors_traces ft))))
                 (cursor_is_not_closed h)"
      using o by (simp add: reports_assign)
    have 5: "1 \<le> length (filter (leaked_at_end h ?uc) (take (ncursors ft) (cursors_traces ft)))"
      by (rule filter_take_some [of i "ncursors ft" "cursors_traces ft" "leaked_at_end h ?uc"])
        (use i n lk in simp_all)
    from r 1 2 3 4 5
    show "\<exists>s' ft'. func_end h fn (Some p) s = Returned s' \<and> deref s' p = Some ft' \<and>
              cursors_traces ft' ! i = clear_slot (cursors_traces ft ! i) \<and>
              stmtid (cursors_traces ft' ! i) = - 1 \<and> curname (cursors_traces ft' ! i) = None \<and>
              reports s' = reports s @ replicate
                 (length (filter (leaked_at_end h (use_count fn))
                    (take (ncursors ft) (cursors_traces ft))))
                 (cursor_is_not_closed h) \<and>
              1 \<le> length (filter (leaked_at_end h (use_count fn))
                    (take (ncursors ft) (cursors_traces ft)))"
      by (intro exI [of _ ?s'] exI [of _ "ft\<lparr>cursors_traces := cells'\<rparr>"] conjI)
  }
  {
    assume lev: "\<not> plpgsql_check_cursors_leaks_level h < ERROR"
    from func_end_loop_raises [OF n st lev _ i lk, of 0 "reports s"] obtain cells' out' where
      L: "func_end_loop h ?uc (ncursors ft) 0 (cursors_traces ft) (reports s)
            = Raised (cells', out')"
      by blast
    let ?s' = "assign p (ft\<lparr>cursors_traces := cells'\<rparr>) (s\<lparr>reports := out'\<rparr>)"
    have r: "func_end h fn (Some p) s = Raised ?s'"
      by (simp add: func_end_valid [OF d lx] L)
    from func_end_loop_Raised [OF L n] lk il have
      o: "out' = reports s @ [cursor_is_not_closed h]"
      and ci: "cells' ! i = cursors_traces ft ! i"
      by simp_all
    have 1: "deref ?s' p = Some (ft\<lparr>cursors_traces := cells'\<rparr>)" by (rule deref_assign [OF d])
    have 2: "cursors_traces (ft\<lparr>cursors_traces := cells'\<rparr>) ! i = cursors_traces ft ! i"
      using ci by simp
    have 4: "reports ?s' = reports s @ [cursor_is_not_closed h]"
      using o by (simp add: reports_assign)
    from r 1 2 4
    show "\<exists>s' ft'. func_end h fn (Some p) s = Raised s' \<and> deref s' p = Some ft' \<and>
              cursors_traces ft' ! i = cursors_traces ft ! i \<and>
              reports s' = reports s @ [cursor_is_not_closed h]"
      by (intro exI [of _ ?s'] exI [of _ "ft\<lparr>cursors_traces := cells'\<rparr>"] conjI)
  }
qed (simp_all add: cursor_is_not_closed_fields)

theorem teardown_strict_report_witness:
  "plpgsql_check_cursors_leaks_strict (ex_host 1 True WARNING [''c1'']) \<and>
   plpgsql_check_cursors_leaks_level (ex_host 1 True WARNING [''c1'']) < ERROR \<and>
   deref (ex_state 1 (ex_trace 1 10 (slot 7 1 ''c1'' # replicate 9 junk)) []) (ex_ptr 1) =
     Some (ex_trace 1 10 (slot 7 1 ''c1'' # replicate 9 junk)) \<and>
   curname (cursors_traces (ex_trace 1 10 (slot 7 1 ''c1'' # replicate 9 junk)) ! 0) = Some ''c1'' \<and>
   SPI_cursor_find (ex_host 1 True WARNING [''c1'']) ''c1'' \<and>
   (\<exists>s' ft'. func_end (ex_host 1 True WARNING [''c1'']) (ex_fn 1) (Some (ex_ptr 1))
        (ex_state 1 (ex_trace 1 10 (slot 7 1 ''c1'' # replicate 9 junk)) []) = Returned s' \<and>
      deref s' (ex_ptr 1) = Some ft' \<and>
      stmtid (cursors_traces ft' ! 0) = - 1 \<and> curname (cursors_traces ft' ! 0) = None \<and>
      reports s' = [ex_report WARNING])"
proof -
  let ?h = "ex_host 1 True WARNING [''c1'']"
  let ?ft = "ex_trace 1 10 (slot 7 1 ''c1'' # replicate 9 junk)"
  let ?s = "ex_state 1 ?ft []"
  have st: "plpgsql_check_cursors_leaks_strict ?h" by (simp add: ex_defs)
  have lev: "plpgsql_check_cursors_leaks_level ?h < ERROR"
    by (simp add: ex_defs WARNING_def ERROR_def)
  have d: "deref ?s (ex_ptr 1) = Some ?ft" by (simp add: deref_def ex_defs)
  have lx: "traces_lxid ?s = MyProc_lxid ?h" by (simp add: ex_defs)
  have n: "ncursors ?ft \<le> length (cursors_traces ?ft)" by (simp add: ex_defs)
  have i: "0 < ncursors ?ft" by (simp add: ex_defs)
  have nm: "curname (cursors_traces ?ft ! 0) = Some ''c1''" by (simp add: ex_defs)
  have lv: "rec_level (cursors_traces ?ft ! 0) = use_count (ex_fn 1)" by (simp add: ex_defs)
  have ex: "SPI_cursor_find ?h ''c1''" by (simp add: ex_defs)
  have cnt: "length (filter (leaked_at_end ?h (use_count (ex_fn 1)))
                    (take (ncursors ?ft) (cursors_traces ?ft))) = 1"
    by (simp add: ex_defs leaked_at_end_def)
  have rep: "cursor_is_not_closed ?h = ex_report WARNING"
    by (simp add: cursor_is_not_closed_def ERRCODE_INVALID_CURSOR_STATE_def ex_defs)
  from teardown_strict_report [OF st d lx n i nm lv ex, THEN conjunct1, THEN mp, OF lev]
  have "\<exists>s' ft'. func_end ?h (ex_fn 1) (Some (ex_ptr 1)) ?s = Returned s' \<and>
      deref s' (ex_ptr 1) = Some ft' \<and>
      stmtid (cursors_traces ft' ! 0) = - 1 \<and> curname (cursors_traces ft' ! 0) = None \<and>
      reports s' = [ex_report WARNING]"
    unfolding cnt rep by (auto simp: ex_state_def)
  with st lev d nm ex show ?thesis by blast
qed

text \<open>
  The slot is not cleared whatever the outcome of the report: at level \<open>ERROR\<close>
  the teardown of a record with one still-open cursor is left by the report, and
  the slot keeps its statement id and its name.
\<close>

theorem teardown_strict_report_counterexample:
  "func_end (ex_host 1 True ERROR [''c1'']) (ex_fn 1) (Some (ex_ptr 1))
      (ex_state 1 (ex_trace 1 10 (slot 7 1 ''c1'' # replicate 9 junk)) []) =
   Raised (ex_state 1 (ex_trace 1 10 (slot 7 1 ''c1'' # replicate 9 junk)) [ex_report ERROR]) \<and>
   stmtid (slot 7 1 ''c1'') \<noteq> - 1 \<and> curname (slot 7 1 ''c1'') \<noteq> None"
  by (simp add: eval_defs ex_defs)



subsection \<open>The end of an OPEN statement\<close>

text \<open>
  Claim C5. When \<open>stmt_end\<close> returns for an OPEN statement: if the number of
  slots of this statement that the scan kept (their cursor still exists and they
  were not cleared) is below \<open>MAX_NAMES_PER_STATEMENT\<close> = 20, the record holds
  an entry for the cursor just opened afterwards; if that number has reached 20,
  nothing is written for the new cursor: the record is what the scan left, with the
  same number of entries and the same capacity.
\<close>

theorem stmt_end_cap:
  assumes "deref s p = Some ft" and "traces_lxid s = MyProc_lxid h"
    and "wf_ftrace ft" and "cmd_type stmt = PLPGSQL_STMT_OPEN"
    and "stmt_end h estate stmt (Some p) s = Returned (p', s')"
  shows "\<exists>ft'. deref s' p = Some ft' \<and>
     (kept_for_stmt h (use_count (func estate)) (stmt_id stmt) ft < MAX_NAMES_PER_STATEMENT \<longrightarrow>
        (\<exists>j < ncursors ft'. cursors_traces ft' ! j = new_entry estate stmt)) \<and>
     (MAX_NAMES_PER_STATEMENT \<le> kept_for_stmt h (use_count (func estate)) (stmt_id stmt) ft \<longrightarrow>
        ncursors ft' = ncursors ft \<and> cursors_size ft' = cursors_size ft \<and>
        length (cursors_traces ft') = length (cursors_traces ft) \<and>
        (\<forall>j < length (cursors_traces ft). cursors_traces ft' ! j =
           (if j < ncursors ft
            then stmt_end_cell h (use_count (func estate)) (stmt_id stmt) (cursors_traces ft ! j)
            else cursors_traces ft ! j)))"
proof -
  let ?uc = "use_count (func estate)" and ?sid = "stmt_id stmt"
  let ?new = "new_entry estate stmt"
  from stmt_end_scan_store [OF assms] obtain cells1 cnt free_slot ft' where
    d': "deref s' p = Some ft'"
    and len: "length cells1 = length (cursors_traces ft)"
    and cells: "\<forall>j < length (cursors_traces ft). cells1 ! j =
         (if j < ncursors ft then stmt_end_cell h ?uc ?sid (cursors_traces ft ! j)
          else cursors_traces ft ! j)"
    and cnt: "cnt = kept_for_stmt h ?uc ?sid ft"
    and fs: "(free_slot = - 1 \<and> (\<forall>j < ncursors ft. stmtid (cells1 ! j) \<noteq> - 1)) \<or>
      (\<exists>k. free_slot = int k \<and> k < ncursors ft \<and> stmtid (cells1 ! k) = - 1 \<and>
           (\<forall>j < k. stmtid (cells1 ! j) \<noteq> - 1))"
    and st: "if cnt < MAX_NAMES_PER_STATEMENT
      then stmt_end_store h (ft\<lparr>cursors_traces := cells1\<rparr>) free_slot ?new = Some ft'
      else ft' = ft\<lparr>cursors_traces := cells1\<rparr>"
    unfolding kept_for_stmt_eq by blast
  let ?ft1 = "ft\<lparr>cursors_traces := cells1\<rparr>"
  have wf1: "wf_ftrace ?ft1" using assms(3) len by (simp add: wf_ftrace_def)
  have fs1: "free_slot = - 1 \<or> (\<exists>k. free_slot = int k \<and> k < ncursors ?ft1)"
    using fs by auto
  have a: "\<exists>j < ncursors ft'. cursors_traces ft' ! j = ?new"
    if "kept_for_stmt h ?uc ?sid ft < MAX_NAMES_PER_STATEMENT"
  proof -
    from that st cnt have e: "stmt_end_store h ?ft1 free_slot ?new = Some ft'" by simp
    from stmt_end_store_result [OF wf1 fs1, of h ?new] e have
      ap: "free_slot = - 1 \<longrightarrow> ncursors ft' = ncursors ?ft1 + 1 \<and>
             cursors_traces ft' ! ncursors ?ft1 = ?new"
      and re: "\<forall>k. free_slot = int k \<longrightarrow>
             ft' = ?ft1\<lparr>cursors_traces := (cursors_traces ?ft1)[k := ?new]\<rparr>"
      by auto
    show ?thesis
    proof (cases "free_slot = - 1")
      case True
      with ap have "ncursors ft < ncursors ft'" "cursors_traces ft' ! ncursors ft = ?new"
        by simp_all
      then show ?thesis by blast
    next
      case False
      with fs obtain k where k: "free_slot = int k" "k < ncursors ft" by blast
      with re have ft': "ft' = ?ft1\<lparr>cursors_traces := (cursors_traces ?ft1)[k := ?new]\<rparr>"
        by blast
      have "k < length cells1" using k(2) assms(3) len by (simp add: wf_ftrace_def)
      then have "k < ncursors ft'" "cursors_traces ft' ! k = ?new"
        using k(2) by (simp_all add: ft')
      then show ?thesis by blast
    qed
  qed
  have b: "ncursors ft' = ncursors ft \<and> cursors_size ft' = cursors_size ft \<and>
        length (cursors_traces ft') = length (cursors_traces ft) \<and>
        (\<forall>j < length (cursors_traces ft). cursors_traces ft' ! j =
           (if j < ncursors ft then stmt_end_cell h ?uc ?sid (cursors_traces ft ! j)
            else cursors_traces ft ! j))"
    if "MAX_NAMES_PER_STATEMENT \<le> kept_for_stmt h ?uc ?sid ft"
  proof -
    from that st cnt have "ft' = ?ft1" by simp
    with len cells show ?thesis by simp
  qed
  from d' a b show ?thesis by blast
qed


theorem stmt_end_cap_witness:
  "deref (ex_state 1 (ex_cap_trace 20) []) (ex_ptr 1) = Some (ex_cap_trace 20) \<and>
   traces_lxid (ex_state 1 (ex_cap_trace 20) []) = MyProc_lxid (ex_host 1 True WARNING ex_names) \<and>
   wf_ftrace (ex_cap_trace 20) \<and> cmd_type (ex_open 7) = PLPGSQL_STMT_OPEN \<and>
   MAX_NAMES_PER_STATEMENT \<le>
     kept_for_stmt (ex_host 1 True WARNING ex_names) (use_count (func (ex_estate 1 ''c21'')))
       (stmt_id (ex_open 7)) (ex_cap_trace 20) \<and>
   (\<exists>s' ft'. stmt_end (ex_host 1 True WARNING ex_names) (ex_estate 1 ''c21'') (ex_open 7)
        (Some (ex_ptr 1)) (ex_state 1 (ex_cap_trace 20) []) = Returned (Some (ex_ptr 1), s') \<and>
      deref s' (ex_ptr 1) = Some ft' \<and> ncursors ft' = 20 \<and> cursors_size ft' = 20)"
proof -
  let ?h = "ex_host 1 True WARNING ex_names"
  let ?ft = "ex_cap_trace 20"
  let ?s = "ex_state 1 ?ft []"
  let ?e = "ex_estate 1 ''c21''"
  have d: "deref ?s (ex_ptr 1) = Some ?ft" by (simp add: deref_def ex_defs)
  have lx: "traces_lxid ?s = MyProc_lxid ?h" by (simp add: ex_defs)
  have wf: "wf_ftrace ?ft" by (simp add: wf_ftrace_def ex_cap_trace_def ex_names_def)
  have op: "cmd_type (ex_open 7) = PLPGSQL_STMT_OPEN" by (simp add: ex_defs)
  have so: "still_open ?h 7 ct" if "ct \<in> set (cursors_traces ?ft)" for ct
    using that by (auto simp: ex_cap_trace_def still_open_def ex_names_def ex_defs)
  have ne: "\<not> early_report ?h 1" by (simp add: early_report_def ex_defs)
  have "filter (\<lambda>ct. still_open ?h 7 ct \<and> \<not> early_report ?h 1)
           (take (ncursors ?ft) (cursors_traces ?ft)) = take (ncursors ?ft) (cursors_traces ?ft)"
    by (rule filter_True) (use so ne in \<open>auto dest: in_set_takeD\<close>)
  then have k: "kept_for_stmt ?h 1 7 ?ft = 20"
    by (simp add: kept_for_stmt_def ex_cap_trace_def ex_names_def)
  then have cap: "MAX_NAMES_PER_STATEMENT \<le>
     kept_for_stmt ?h (use_count (func ?e)) (stmt_id (ex_open 7)) ?ft"
    by (simp add: MAX_NAMES_PER_STATEMENT_def ex_defs)
  have "\<not> stmt_end_stops ?h (use_count (func ?e)) (stmt_id (ex_open 7)) ct" for ct
    by (simp add: stmt_end_stops_def early_report_def ex_defs)
  with stmt_end_returns [OF d lx wf op, of ?e] obtain s' where
    r: "stmt_end ?h ?e (ex_open 7) (Some (ex_ptr 1)) ?s = Returned (Some (ex_ptr 1), s')"
    by (auto simp: ex_defs)
  from stmt_end_cap [OF d lx wf op r] cap obtain ft' where
    "deref s' (ex_ptr 1) = Some ft'" "ncursors ft' = ncursors ?ft"
    "cursors_size ft' = cursors_size ?ft"
    by blast
  then have "deref s' (ex_ptr 1) = Some ft' \<and> ncursors ft' = 20 \<and> cursors_size ft' = 20"
    by (simp add: ex_cap_trace_def)
  with d lx wf op cap r show ?thesis by blast
qed

text \<open>
  Claim C7. When \<open>stmt_end\<close> returns for an OPEN statement and writes the new
  entry (fewer than 20 kept slots): \<open>scan\<close> being the cells as the scan left
  them, if one of the live slots has statement id -1 then the first such slot is
  overwritten with the new entry, and the number of entries and the capacity stay;
  otherwise the new entry goes to the cell after the last live slot, the number of
  entries grows by one, and the capacity grows by exactly 10 when the record was
  full (from 0 to 10 at the first allocation) and stays otherwise.
\<close>

theorem stmt_end_slot_choice:
  assumes "deref s p = Some ft" and "traces_lxid s = MyProc_lxid h"
    and "wf_ftrace ft" and "cmd_type stmt = PLPGSQL_STMT_OPEN"
    and "stmt_end h estate stmt (Some p) s = Returned (p', s')"
    and "kept_for_stmt h (use_count (func estate)) (stmt_id stmt) ft < MAX_NAMES_PER_STATEMENT"
  shows "\<exists>ft' scan. deref s' p = Some ft' \<and>
     (\<forall>j < length (cursors_traces ft). scan ! j =
        (if j < ncursors ft
         then stmt_end_cell h (use_count (func estate)) (stmt_id stmt) (cursors_traces ft ! j)
         else cursors_traces ft ! j)) \<and>
     length scan = length (cursors_traces ft) \<and>
     ((\<exists>k < ncursors ft. stmtid (scan ! k) = - 1) \<longrightarrow>
        (\<exists>k < ncursors ft. stmtid (scan ! k) = - 1 \<and> (\<forall>j < k. stmtid (scan ! j) \<noteq> - 1) \<and>
            cursors_traces ft' = scan[k := new_entry estate stmt]) \<and>
        ncursors ft' = ncursors ft \<and> cursors_size ft' = cursors_size ft) \<and>
     ((\<forall>k < ncursors ft. stmtid (scan ! k) \<noteq> - 1) \<longrightarrow>
        ncursors ft' = ncursors ft + 1 \<and>
        cursors_traces ft' ! ncursors ft = new_entry estate stmt \<and>
        (\<forall>j < ncursors ft. cursors_traces ft' ! j = scan ! j) \<and>
        cursors_size ft' =
          (if ncursors ft = cursors_size ft then cursors_size ft + 10 else cursors_size ft) \<and>
        (cursors_size ft = 0 \<longrightarrow> cursors_size ft' = 10) \<and>
        length (cursors_traces ft') = cursors_size ft')"
proof -
  let ?uc = "use_count (func estate)" and ?sid = "stmt_id stmt"
  let ?new = "new_entry estate stmt"
  from stmt_end_scan_store [OF assms(1-5)] obtain cells1 cnt free_slot ft' where
    d': "deref s' p = Some ft'"
    and len: "length cells1 = length (cursors_traces ft)"
    and cells: "\<forall>j < length (cursors_traces ft). cells1 ! j =
         (if j < ncursors ft then stmt_end_cell h ?uc ?sid (cursors_traces ft ! j)
          else cursors_traces ft ! j)"
    and fs: "(free_slot = - 1 \<and> (\<forall>j < ncursors ft. stmtid (cells1 ! j) \<noteq> - 1)) \<or>
      (\<exists>k. free_slot = int k \<and> k < ncursors ft \<and> stmtid (cells1 ! k) = - 1 \<and>
           (\<forall>j < k. stmtid (cells1 ! j) \<noteq> - 1))"
    and cnt: "cnt = kept_for_stmt h ?uc ?sid ft"
    and st0: "if cnt < MAX_NAMES_PER_STATEMENT
      then stmt_end_store h (ft\<lparr>cursors_traces := cells1\<rparr>) free_slot ?new = Some ft'
      else ft' = ft\<lparr>cursors_traces := cells1\<rparr>"
    unfolding kept_for_stmt_eq by blast
  from st0 cnt assms(6)
  have st: "stmt_end_store h (ft\<lparr>cursors_traces := cells1\<rparr>) free_slot ?new = Some ft'"
    by simp
  let ?ft1 = "ft\<lparr>cursors_traces := cells1\<rparr>"
  have wf1: "wf_ftrace ?ft1" using assms(3) len by (simp add: wf_ftrace_def)
  have n: "ncursors ft \<le> length cells1" using assms(3) len by (simp add: wf_ftrace_def)
  have fs1: "free_slot = - 1 \<or> (\<exists>k. free_slot = int k \<and> k < ncursors ?ft1)"
    using fs by auto
  from stmt_end_store_result [OF wf1 fs1, of h ?new] st have
    wf': "wf_ftrace ft'"
    and ap: "free_slot = - 1 \<longrightarrow>
        ncursors ft' = ncursors ft + 1 \<and>
        cursors_size ft' =
          (if ncursors ft = cursors_size ft then cursors_size ft + 10 else cursors_size ft) \<and>
        cursors_traces ft' ! ncursors ft = ?new \<and>
        (\<forall>j < length cells1. j \<noteq> ncursors ft \<longrightarrow> cursors_traces ft' ! j = cells1 ! j)"
    and re: "\<forall>k. free_slot = int k \<longrightarrow> ft' = ?ft1\<lparr>cursors_traces := cells1[k := ?new]\<rparr>"
    by auto
  have a: "(\<exists>k < ncursors ft. stmtid (cells1 ! k) = - 1 \<and> (\<forall>j < k. stmtid (cells1 ! j) \<noteq> - 1) \<and>
            cursors_traces ft' = cells1[k := ?new]) \<and>
        ncursors ft' = ncursors ft \<and> cursors_size ft' = cursors_size ft"
    if "\<exists>k < ncursors ft. stmtid (cells1 ! k) = - 1"
  proof -
    from that fs obtain k where k: "free_slot = int k" "k < ncursors ft"
      "stmtid (cells1 ! k) = - 1" "\<forall>j < k. stmtid (cells1 ! j) \<noteq> - 1"
      by blast
    with re have "ft' = ?ft1\<lparr>cursors_traces := cells1[k := ?new]\<rparr>" by blast
    then have "cursors_traces ft' = cells1[k := ?new]" "ncursors ft' = ncursors ft"
      "cursors_size ft' = cursors_size ft"
      by simp_all
    with k show ?thesis by blast
  qed
  have b: "ncursors ft' = ncursors ft + 1 \<and>
        cursors_traces ft' ! ncursors ft = ?new \<and>
        (\<forall>j < ncursors ft. cursors_traces ft' ! j = cells1 ! j) \<and>
        cursors_size ft' =
          (if ncursors ft = cursors_size ft then cursors_size ft + 10 else cursors_size ft) \<and>
        (cursors_size ft = 0 \<longrightarrow> cursors_size ft' = 10) \<and>
        length (cursors_traces ft') = cursors_size ft'"
    if "\<forall>k < ncursors ft. stmtid (cells1 ! k) \<noteq> - 1"
  proof -
    from that fs have "free_slot = - 1" by blast
    with ap have 1: "ncursors ft' = ncursors ft + 1"
      and 2: "cursors_size ft' =
          (if ncursors ft = cursors_size ft then cursors_size ft + 10 else cursors_size ft)"
      and 3: "cursors_traces ft' ! ncursors ft = ?new"
      and 4: "\<forall>j < length cells1. j \<noteq> ncursors ft \<longrightarrow> cursors_traces ft' ! j = cells1 ! j"
      by blast+
    from 4 n have 5: "\<forall>j < ncursors ft. cursors_traces ft' ! j = cells1 ! j" by auto
    from 2 assms(3) have 6: "cursors_size ft = 0 \<longrightarrow> cursors_size ft' = 10"
      by (simp add: wf_ftrace_def)
    from wf' have 7: "length (cursors_traces ft') = cursors_size ft'"
      by (simp add: wf_ftrace_def)
    from 1 2 3 5 6 7 show ?thesis by blast
  qed
  have c: "(\<exists>k < ncursors ft. stmtid (cells1 ! k) = - 1) \<longrightarrow>
        (\<exists>k < ncursors ft. stmtid (cells1 ! k) = - 1 \<and> (\<forall>j < k. stmtid (cells1 ! j) \<noteq> - 1) \<and>
            cursors_traces ft' = cells1[k := ?new]) \<and>
        ncursors ft' = ncursors ft \<and> cursors_size ft' = cursors_size ft"
    using a by (rule impI)
  have e: "(\<forall>k < ncursors ft. stmtid (cells1 ! k) \<noteq> - 1) \<longrightarrow>
        ncursors ft' = ncursors ft + 1 \<and>
        cursors_traces ft' ! ncursors ft = ?new \<and>
        (\<forall>j < ncursors ft. cursors_traces ft' ! j = cells1 ! j) \<and>
        cursors_size ft' =
          (if ncursors ft = cursors_size ft then cursors_size ft + 10 else cursors_size ft) \<and>
        (cursors_size ft = 0 \<longrightarrow> cursors_size ft' = 10) \<and>
        length (cursors_traces ft') = cursors_size ft'"
    using b by (rule impI)
  show ?thesis
    apply (rule exI [of _ ft'])
    apply (rule exI [of _ cells1])
    apply (intro conjI)
        apply (rule d')
       apply (rule cells)
      apply (rule len)
     apply (rule c)
    apply (rule e)
    done
qed


theorem stmt_end_slot_choice_witness:
  "(\<exists>s' ft'. stmt_end (ex_host 1 False WARNING [''c2'', ''c3'']) (ex_estate 1 ''c3'') (ex_open 7)
        (Some (ex_ptr 1))
        (ex_state 1 (ex_trace 2 10 (slot 7 1 ''c1'' # slot 3 1 ''c2'' # replicate 8 junk)) []) =
      Returned (Some (ex_ptr 1), s') \<and>
      deref s' (ex_ptr 1) = Some ft' \<and> ncursors ft' = 2 \<and> cursors_size ft' = 10 \<and>
      cursors_traces ft' = slot 7 1 ''c3'' # slot 3 1 ''c2'' # replicate 8 junk) \<and>
   (\<exists>s' ft'. stmt_end (ex_host 1 False WARNING ex_names) (ex_estate 1 ''c3'') (ex_open 7)
        (Some (ex_ptr 1)) (ex_state 1 (ex_full_trace 10) []) = Returned (Some (ex_ptr 1), s') \<and>
      deref s' (ex_ptr 1) = Some ft' \<and> ncursors ft' = 11 \<and> cursors_size ft' = 20 \<and>
      length (cursors_traces ft') = 20 \<and> cursors_traces ft' ! 10 = slot 7 1 ''c3'')"
proof -
  let ?e = "ex_estate 1 ''c3''"
  have op: "cmd_type (ex_open 7) = PLPGSQL_STMT_OPEN" by (simp add: ex_defs)
  have new: "new_entry ?e (ex_open 7) = slot 7 1 ''c3''" by (simp add: new_entry_def ex_defs)
  have uc: "use_count (func ?e) = 1" "stmt_id (ex_open 7) = 7" by (simp_all add: ex_defs)
  have dat: "curvar (ex_open 7) < length (datums ?e)" "\<not> isnull (datums ?e ! curvar (ex_open 7))"
    by (simp_all add: ex_defs)
  have reuse: "\<exists>s' ft'. stmt_end (ex_host 1 False WARNING [''c2'', ''c3'']) ?e (ex_open 7)
        (Some (ex_ptr 1))
        (ex_state 1 (ex_trace 2 10 (slot 7 1 ''c1'' # slot 3 1 ''c2'' # replicate 8 junk)) []) =
      Returned (Some (ex_ptr 1), s') \<and>
      deref s' (ex_ptr 1) = Some ft' \<and> ncursors ft' = 2 \<and> cursors_size ft' = 10 \<and>
      cursors_traces ft' = slot 7 1 ''c3'' # slot 3 1 ''c2'' # replicate 8 junk"
  proof -
    let ?h = "ex_host 1 False WARNING [''c2'', ''c3'']"
    let ?ft = "ex_trace 2 10 (slot 7 1 ''c1'' # slot 3 1 ''c2'' # replicate 8 junk)"
    let ?s = "ex_state 1 ?ft []"
    have d: "deref ?s (ex_ptr 1) = Some ?ft" by (simp add: deref_def ex_defs)
    have lx: "traces_lxid ?s = MyProc_lxid ?h" by (simp add: ex_defs)
    have wf: "wf_ftrace ?ft" by (simp add: wf_ftrace_def ex_defs)
    have k: "kept_for_stmt ?h (use_count (func ?e)) (stmt_id (ex_open 7)) ?ft
               < MAX_NAMES_PER_STATEMENT"
      by (simp add: kept_for_stmt_def early_report_def MAX_NAMES_PER_STATEMENT_def ex_defs)
    have ns: "\<not> stmt_end_stops ?h (use_count (func ?e)) (stmt_id (ex_open 7)) ct" for ct
      by (simp add: stmt_end_stops_def ex_host_def WARNING_def ERROR_def)
    from stmt_end_returns [OF d lx wf op dat ns] obtain s' where
      r: "stmt_end ?h ?e (ex_open 7) (Some (ex_ptr 1)) ?s = Returned (Some (ex_ptr 1), s')"
      by blast
    from stmt_end_slot_choice [OF d lx wf op r k] obtain ft' scan where
      f: "deref s' (ex_ptr 1) = Some ft'"
      and sc: "\<forall>j < length (cursors_traces ?ft). scan ! j =
        (if j < ncursors ?ft
         then stmt_end_cell ?h (use_count (func ?e)) (stmt_id (ex_open 7)) (cursors_traces ?ft ! j)
         else cursors_traces ?ft ! j)"
      and ls: "length scan = length (cursors_traces ?ft)"
      and a: "(\<exists>k < ncursors ?ft. stmtid (scan ! k) = - 1) \<longrightarrow>
        (\<exists>k < ncursors ?ft. stmtid (scan ! k) = - 1 \<and> (\<forall>j < k. stmtid (scan ! j) \<noteq> - 1) \<and>
            cursors_traces ft' = scan[k := new_entry ?e (ex_open 7)]) \<and>
        ncursors ft' = ncursors ?ft \<and> cursors_size ft' = cursors_size ?ft"
      by blast
    have s0: "scan ! 0 = \<lparr>stmtid = - 1, rec_level = 1, curname = None\<rparr>"
      using sc by (simp add: ex_defs stmt_end_cell_def closed_since_def still_open_def
          clear_slot_def)
    have "scan = (cursors_traces ?ft)[0 := \<lparr>stmtid = - 1, rec_level = 1, curname = None\<rparr>]"
    proof (rule nth_equalityI)
      show "length scan =
        length ((cursors_traces ?ft)[0 := \<lparr>stmtid = - 1, rec_level = 1, curname = None\<rparr>])"
        using ls by simp
    next
      fix j assume "j < length scan"
      then have j: "j < length (cursors_traces ?ft)" using ls by simp
      show "scan ! j =
        (cursors_traces ?ft)[0 := \<lparr>stmtid = - 1, rec_level = 1, curname = None\<rparr>] ! j"
      proof (cases "j = 0")
        case True
        with s0 show ?thesis by (simp add: ex_defs)
      next
        case False
        then consider "j = 1" | "2 \<le> j" by linarith
        then show ?thesis
        proof cases
          case 1
          with sc j show ?thesis
            by (simp add: ex_defs stmt_end_cell_def closed_since_def still_open_def)
        next
          case 2
          with sc j have "scan ! j = cursors_traces ?ft ! j" by (simp add: ex_defs)
          with 2 show ?thesis by (simp add: ex_defs)
        qed
      qed
    qed
    then have scan: "scan = \<lparr>stmtid = - 1, rec_level = 1, curname = None\<rparr> #
        slot 3 1 ''c2'' # replicate 8 junk"
      by (simp add: ex_defs)
    have ex: "\<exists>k < ncursors ?ft. stmtid (scan ! k) = - 1"
      by (rule exI [of _ 0]) (simp add: scan ex_defs)
    with a obtain k where k: "k < ncursors ?ft" "stmtid (scan ! k) = - 1"
      "\<forall>j < k. stmtid (scan ! j) \<noteq> - 1" "cursors_traces ft' = scan[k := new_entry ?e (ex_open 7)]"
      and nc: "ncursors ft' = ncursors ?ft" "cursors_size ft' = cursors_size ?ft"
      by blast
    have "k = 0"
    proof (rule ccontr)
      assume "k \<noteq> 0"
      with k(3) have "stmtid (scan ! 0) \<noteq> - 1" by simp
      then show False by (simp add: scan)
    qed
    with k(4) have "cursors_traces ft' = slot 7 1 ''c3'' # slot 3 1 ''c2'' # replicate 8 junk"
      by (simp add: scan new)
    with r f nc show ?thesis by (simp add: ex_defs)
  qed
  have grow: "\<exists>s' ft'. stmt_end (ex_host 1 False WARNING ex_names) ?e (ex_open 7)
        (Some (ex_ptr 1)) (ex_state 1 (ex_full_trace 10) []) = Returned (Some (ex_ptr 1), s') \<and>
      deref s' (ex_ptr 1) = Some ft' \<and> ncursors ft' = 11 \<and> cursors_size ft' = 20 \<and>
      length (cursors_traces ft') = 20 \<and> cursors_traces ft' ! 10 = slot 7 1 ''c3''"
  proof -
    let ?h = "ex_host 1 False WARNING ex_names"
    let ?ft = "ex_full_trace 10"
    let ?s = "ex_state 1 ?ft []"
    have d: "deref ?s (ex_ptr 1) = Some ?ft" by (simp add: deref_def ex_defs)
    have lx: "traces_lxid ?s = MyProc_lxid ?h" by (simp add: ex_defs)
    have wf: "wf_ftrace ?ft" by (simp add: wf_ftrace_def ex_full_trace_def ex_names_def)
    have nso: "\<not> still_open ?h 7 ct" if "ct \<in> set (cursors_traces ?ft)" for ct
      using that by (auto simp: ex_full_trace_def still_open_def ex_defs dest: in_set_takeD)
    have "filter (\<lambda>ct. still_open ?h 7 ct \<and> \<not> early_report ?h 1)
           (take (ncursors ?ft) (cursors_traces ?ft)) = []"
      using nso by (auto simp: filter_empty_conv dest: in_set_takeD)
    then have k: "kept_for_stmt ?h (use_count (func ?e)) (stmt_id (ex_open 7)) ?ft
               < MAX_NAMES_PER_STATEMENT"
      by (simp add: kept_for_stmt_def uc MAX_NAMES_PER_STATEMENT_def)
    have ns: "\<not> stmt_end_stops ?h (use_count (func ?e)) (stmt_id (ex_open 7)) ct" for ct
      by (simp add: stmt_end_stops_def ex_host_def WARNING_def ERROR_def)
    from stmt_end_returns [OF d lx wf op dat ns] obtain s' where
      r: "stmt_end ?h ?e (ex_open 7) (Some (ex_ptr 1)) ?s = Returned (Some (ex_ptr 1), s')"
      by blast
    from stmt_end_slot_choice [OF d lx wf op r k] obtain ft' scan where
      f: "deref s' (ex_ptr 1) = Some ft'"
      and sc: "\<forall>j < length (cursors_traces ?ft). scan ! j =
        (if j < ncursors ?ft
         then stmt_end_cell ?h (use_count (func ?e)) (stmt_id (ex_open 7)) (cursors_traces ?ft ! j)
         else cursors_traces ?ft ! j)"
      and ls: "length scan = length (cursors_traces ?ft)"
      and a: "(\<exists>k < ncursors ?ft. stmtid (scan ! k) = - 1) \<longrightarrow>
        (\<exists>k < ncursors ?ft. stmtid (scan ! k) = - 1 \<and> (\<forall>j < k. stmtid (scan ! j) \<noteq> - 1) \<and>
            cursors_traces ft' = scan[k := new_entry ?e (ex_open 7)]) \<and>
        ncursors ft' = ncursors ?ft \<and> cursors_size ft' = cursors_size ?ft"
      and b: "(\<forall>k < ncursors ?ft. stmtid (scan ! k) \<noteq> - 1) \<longrightarrow>
        ncursors ft' = ncursors ?ft + 1 \<and>
        cursors_traces ft' ! ncursors ?ft = new_entry ?e (ex_open 7) \<and>
        (\<forall>j < ncursors ?ft. cursors_traces ft' ! j = scan ! j) \<and>
        cursors_size ft' =
          (if ncursors ?ft = cursors_size ?ft then cursors_size ?ft + 10 else cursors_size ?ft) \<and>
        (cursors_size ?ft = 0 \<longrightarrow> cursors_size ft' = 10) \<and>
        length (cursors_traces ft') = cursors_size ft'"
      by (elim exE conjE) (rule that, assumption+)
    have "stmtid (scan ! k) \<noteq> - 1" if "k < ncursors ?ft" for k
    proof -
      from that have kl: "k < length (cursors_traces ?ft)" "k < 10"
        by (simp_all add: ex_full_trace_def ex_names_def)
      then have "cursors_traces ?ft ! k = slot 3 1 (take 10 ex_names ! k)"
        by (simp add: ex_full_trace_def ex_names_def)
      with sc kl that have "scan ! k = slot 3 1 (take 10 ex_names ! k)"
        by (simp add: uc stmt_end_cell_def closed_since_def still_open_def slot_def)
      then show ?thesis by (simp add: slot_def)
    qed
    then have "\<forall>k < ncursors ?ft. stmtid (scan ! k) \<noteq> - 1" by blast
    with b have bb: "ncursors ft' = ncursors ?ft + 1 \<and>
        cursors_traces ft' ! ncursors ?ft = new_entry ?e (ex_open 7) \<and>
        (\<forall>j < ncursors ?ft. cursors_traces ft' ! j = scan ! j) \<and>
        cursors_size ft' =
          (if ncursors ?ft = cursors_size ?ft then cursors_size ?ft + 10 else cursors_size ?ft) \<and>
        (cursors_size ?ft = 0 \<longrightarrow> cursors_size ft' = 10) \<and>
        length (cursors_traces ft') = cursors_size ft'"
      by (rule mp)
    note bb1 = bb [THEN conjunct1]
      and bb2 = bb [THEN conjunct2, THEN conjunct1]
      and bb4 = bb [THEN conjunct2, THEN conjunct2, THEN conjunct2, THEN conjunct1]
      and bb6 = bb [THEN conjunct2, THEN conjunct2, THEN conjunct2, THEN conjunct2, THEN conjunct2]
    from bb1 bb2 bb4 bb6
    have "ncursors ft' = 11 \<and> cursors_size ft' = 20 \<and>
      length (cursors_traces ft') = 20 \<and> cursors_traces ft' ! 10 = slot 7 1 ''c3''"
      by (simp add: ex_full_trace_def new)
    with r f show ?thesis by blast
  qed
  from reuse grow show ?thesis by (rule conjI)
qed

text \<open>
  Claim C1, as amended. With strict mode off, at use count 1, at the end of an OPEN
  statement with a live slot of the same statement id whose cursor still exists:
  when the configured level is below \<open>ERROR\<close>, the scan returns and has cleared
  that slot (statement id -1, name null), \<open>stmt_end\<close> returns with exactly one
  new report for each such slot, the slot is cleared or already holds the entry of
  the cursor just opened, and the teardown that follows emits no further report;
  when the level is \<open>ERROR\<close> or above, the first report ends the hook and the
  slot is left as it was. The report carries the configured level and the error
  code of an invalid cursor state.
\<close>

theorem stmt_end_early_report:
  assumes ns: "\<not> plpgsql_check_cursors_leaks_strict h"
    and uc: "use_count (func estate) = 1"
    and d: "deref s p = Some ft" and lx: "traces_lxid s = MyProc_lxid h"
    and wf: "wf_ftrace ft" and op: "cmd_type stmt = PLPGSQL_STMT_OPEN"
    and dat: "curvar stmt < length (datums estate)" "\<not> isnull (datums estate ! curvar stmt)"
    and i: "i < ncursors ft"
    and nm: "curname (cursors_traces ft ! i) = Some name"
    and sid: "stmtid (cursors_traces ft ! i) = stmt_id stmt"
    and ex: "SPI_cursor_find h name"
  shows "(plpgsql_check_cursors_leaks_level h < ERROR \<longrightarrow>
           (\<exists>cells1 cnt free_slot s' ft' s''.
              stmt_end_loop h 1 (stmt_id stmt) (ncursors ft) 0 (cursors_traces ft) 0 (- 1)
                 (reports s) = Returned (cells1, cnt, free_slot, reports s') \<and>
              cells1 ! i = clear_slot (cursors_traces ft ! i) \<and>
              stmtid (cells1 ! i) = - 1 \<and> curname (cells1 ! i) = None \<and>
              stmt_end h estate stmt (Some p) s = Returned (Some p, s') \<and>
              reports s' = reports s @ replicate
                 (length (filter (still_open h (stmt_id stmt))
                    (take (ncursors ft) (cursors_traces ft))))
                 (cursor_is_not_closed h) \<and>
              1 \<le> length (filter (still_open h (stmt_id stmt))
                    (take (ncursors ft) (cursors_traces ft))) \<and>
              deref s' p = Some ft' \<and>
              (cursors_traces ft' ! i = clear_slot (cursors_traces ft ! i) \<or>
               cursors_traces ft' ! i = new_entry estate stmt) \<and>
              func_end h (func estate) (Some p) s' = Returned s'' \<and>
              reports s'' = reports s')) \<and>
         (\<not> plpgsql_check_cursors_leaks_level h < ERROR \<longrightarrow>
           (\<exists>s' ft'. stmt_end h estate stmt (Some p) s = Raised (Some p, s') \<and>
              deref s' p = Some ft' \<and>
              cursors_traces ft' ! i = cursors_traces ft ! i \<and>
              reports s' = reports s @ [cursor_is_not_closed h])) \<and>
         elevel (cursor_is_not_closed h) = plpgsql_check_cursors_leaks_level h \<and>
         sqlerrcode (cursor_is_not_closed h) = ERRCODE_INVALID_CURSOR_STATE"
proof (intro conjI impI)
  let ?sid = "stmt_id stmt"
  let ?new = "new_entry estate stmt"
  have so: "still_open h ?sid (cursors_traces ft ! i)"
    using nm sid ex by (simp add: still_open_def)
  have early: "early_report h 1" using ns by (simp add: early_report_def)
  have n: "ncursors ft \<le> length (cursors_traces ft)" using wf by (simp add: wf_ftrace_def)
  have il: "i < length (cursors_traces ft)" using i n by simp
  {
    assume lev: "plpgsql_check_cursors_leaks_level h < ERROR"
    have nst: "\<not> stmt_end_stops h (use_count (func estate)) ?sid (cursors_traces ft ! j)" for j
      using lev by (simp add: stmt_end_stops_def)
    from stmt_end_returns [OF d lx wf op dat nst] obtain s' where
      r: "stmt_end h estate stmt (Some p) s = Returned (Some p, s')" by blast
    from stmt_end_Returned [OF d lx op r] obtain cells1 cnt free_slot out1 ft' where
      L: "stmt_end_loop h 1 ?sid (ncursors ft) 0 (cursors_traces ft) 0 (- 1) (reports s)
            = Returned (cells1, cnt, free_slot, out1)"
      and d': "deref s' p = Some ft'" and o': "reports s' = out1"
      and st: "if cnt < MAX_NAMES_PER_STATEMENT
        then stmt_end_store h (ft\<lparr>cursors_traces := cells1\<rparr>) free_slot ?new = Some ft'
        else ft' = ft\<lparr>cursors_traces := cells1\<rparr>"
      unfolding uc by (elim exE conjE) (rule that, assumption+)
    from stmt_end_loop_Returned [OF L n] early have
      c: "\<forall>j < length (cursors_traces ft). cells1 ! j =
         (if j < ncursors ft then stmt_end_cell h 1 ?sid (cursors_traces ft ! j)
          else cursors_traces ft ! j)"
      and o: "out1 = reports s @ replicate
          (length (filter (still_open h ?sid) (take (ncursors ft) (cursors_traces ft))))
          (cursor_is_not_closed h)"
      by simp_all
    from c il i have "cells1 ! i = stmt_end_cell h 1 ?sid (cursors_traces ft ! i)" by simp
    with so early have ci: "cells1 ! i = clear_slot (cursors_traces ft ! i)"
      by (simp add: stmt_end_cell_def)
    from stmt_end_loop_cells [OF disjI1 [OF L] n]
    have len: "length cells1 = length (cursors_traces ft)" by (rule conjunct1)
    let ?ft1 = "ft\<lparr>cursors_traces := cells1\<rparr>"
    have wf1: "wf_ftrace ?ft1" using wf len by (simp add: wf_ftrace_def)
    from stmt_end_loop_free_slot [OF L n]
    have fs1: "free_slot = - 1 \<or> (\<exists>k. free_slot = int k \<and> k < ncursors ?ft1)"
      by auto
    have fin: "wf_ftrace ft' \<and> (cursors_traces ft' ! i = clear_slot (cursors_traces ft ! i) \<or>
               cursors_traces ft' ! i = ?new)"
    proof (cases "cnt < MAX_NAMES_PER_STATEMENT")
      case False
      with st wf1 ci show ?thesis by simp
    next
      case True
      with st have e: "stmt_end_store h ?ft1 free_slot ?new = Some ft'" by simp
      from stmt_end_store_result [OF wf1 fs1, of h ?new] e have
        w: "wf_ftrace ft'"
        and ap: "free_slot = - 1 \<longrightarrow>
          (\<forall>j < length cells1. j \<noteq> ncursors ft \<longrightarrow> cursors_traces ft' ! j = cells1 ! j)"
        and re: "\<forall>k. free_slot = int k \<longrightarrow> ft' = ?ft1\<lparr>cursors_traces := cells1[k := ?new]\<rparr>"
        by auto
      show ?thesis
      proof (cases "free_slot = - 1")
        case True
        with ap il len i have "cursors_traces ft' ! i = cells1 ! i" by simp
        with w ci show ?thesis by simp
      next
        case False
        with fs1 obtain k where "free_slot = int k" by blast
        with re have "ft' = ?ft1\<lparr>cursors_traces := cells1[k := ?new]\<rparr>" by blast
        then have "cursors_traces ft' ! i = (if k = i then ?new else cells1 ! i)"
          using il len by (simp add: nth_list_update)
        with w ci show ?thesis by auto
      qed
    qed
    then have n': "ncursors ft' \<le> length (cursors_traces ft')" by (simp add: wf_ftrace_def)
    from func_end_non_strict [OF ns d' n', of "func estate"] obtain s'' where
      r2: "func_end h (func estate) (Some p) s' = Returned s''" "reports s'' = reports s'"
      by blast
    have 1: "stmt_end_loop h 1 ?sid (ncursors ft) 0 (cursors_traces ft) 0 (- 1) (reports s)
               = Returned (cells1, cnt, free_slot, reports s')"
      using L o' by simp
    have 2: "stmtid (cells1 ! i) = - 1" "curname (cells1 ! i) = None"
      using ci by (simp_all add: clear_slot_def)
    have 3: "reports s' = reports s @ replicate
          (length (filter (still_open h ?sid) (take (ncursors ft) (cursors_traces ft))))
          (cursor_is_not_closed h)"
      using o o' by simp
    have 4: "1 \<le> length (filter (still_open h ?sid) (take (ncursors ft) (cursors_traces ft)))"
      by (rule filter_take_some [of i "ncursors ft" "cursors_traces ft" "still_open h ?sid"])
        (use i n so in simp_all)
    note 5 = fin [THEN conjunct2]
    show "\<exists>cells1 cnt free_slot s' ft' s''.
              stmt_end_loop h 1 (stmt_id stmt) (ncursors ft) 0 (cursors_traces ft) 0 (- 1)
                 (reports s) = Returned (cells1, cnt, free_slot, reports s') \<and>
              cells1 ! i = clear_slot (cursors_traces ft ! i) \<and>
              stmtid (cells1 ! i) = - 1 \<and> curname (cells1 ! i) = None \<and>
              stmt_end h estate stmt (Some p) s = Returned (Some p, s') \<and>
              reports s' = reports s @ replicate
                 (length (filter (still_open h (stmt_id stmt))
                    (take (ncursors ft) (cursors_traces ft))))
                 (cursor_is_not_closed h) \<and>
              1 \<le> length (filter (still_open h (stmt_id stmt))
                    (take (ncursors ft) (cursors_traces ft))) \<and>
              deref s' p = Some ft' \<and>
              (cursors_traces ft' ! i = clear_slot (cursors_traces ft ! i) \<or>
               cursors_traces ft' ! i = new_entry estate stmt) \<and>
              func_end h (func estate) (Some p) s' = Returned s'' \<and>
              reports s'' = reports s'"
      apply (rule exI [of _ cells1], rule exI [of _ cnt], rule exI [of _ free_slot])
      apply (rule exI [of _ s'], rule exI [of _ ft'], rule exI [of _ s''])
      apply (intro conjI)
                apply (rule 1)
               apply (rule ci)
              apply (rule 2(1))
             apply (rule 2(2))
            apply (rule r)
           apply (rule 3)
          apply (rule 4)
         apply (rule d')
        apply (rule 5)
       apply (rule r2(1))
      apply (rule r2(2))
      done
  }
  {
    assume lev: "\<not> plpgsql_check_cursors_leaks_level h < ERROR"
    from stmt_end_loop_raises [OF n early lev _ i so, of 0 0 "- 1" "reports s"]
    obtain cells' cnt' free' out' where
      L: "stmt_end_loop h 1 ?sid (ncursors ft) 0 (cursors_traces ft) 0 (- 1) (reports s)
            = Raised (cells', cnt', free', out')"
      by blast
    let ?s' = "assign p (ft\<lparr>cursors_traces := cells'\<rparr>) (s\<lparr>reports := out'\<rparr>)"
    from L have L': "stmt_end_loop h (use_count (func estate)) ?sid (ncursors ft) 0
           (cursors_traces ft) 0 (- 1) (reports s) = Raised (cells', cnt', free', out')"
      by (simp add: uc)
    have r: "stmt_end h estate stmt (Some p) s = Raised (Some p, ?s')"
      by (rule stmt_end_Raised [OF d lx op L'])
    from stmt_end_loop_Raised [OF L n] so il have
      o: "out' = reports s @ [cursor_is_not_closed h]"
      and ci: "cells' ! i = cursors_traces ft ! i"
      by simp_all
    have 1: "deref ?s' p = Some (ft\<lparr>cursors_traces := cells'\<rparr>)" by (rule deref_assign [OF d])
    have 2: "cursors_traces (ft\<lparr>cursors_traces := cells'\<rparr>) ! i = cursors_traces ft ! i"
      using ci by simp
    have 4: "reports ?s' = reports s @ [cursor_is_not_closed h]"
      using o by (simp add: reports_assign)
    from r 1 2 4
    show "\<exists>s' ft'. stmt_end h estate stmt (Some p) s = Raised (Some p, s') \<and>
              deref s' p = Some ft' \<and>
              cursors_traces ft' ! i = cursors_traces ft ! i \<and>
              reports s' = reports s @ [cursor_is_not_closed h]"
      by (intro exI [of _ ?s'] exI [of _ "ft\<lparr>cursors_traces := cells'\<rparr>"] conjI)
  }
qed (simp_all add: cursor_is_not_closed_fields)


theorem stmt_end_early_report_witness:
  "\<not> plpgsql_check_cursors_leaks_strict (ex_host 1 False WARNING [''c1'', ''c2'']) \<and>
   plpgsql_check_cursors_leaks_level (ex_host 1 False WARNING [''c1'', ''c2'']) < ERROR \<and>
   use_count (func (ex_estate 1 ''c2'')) = 1 \<and>
   deref (ex_state 1 (ex_trace 1 10 (slot 7 1 ''c1'' # replicate 9 junk)) []) (ex_ptr 1) =
     Some (ex_trace 1 10 (slot 7 1 ''c1'' # replicate 9 junk)) \<and>
   wf_ftrace (ex_trace 1 10 (slot 7 1 ''c1'' # replicate 9 junk)) \<and>
   SPI_cursor_find (ex_host 1 False WARNING [''c1'', ''c2'']) ''c1'' \<and>
   (\<exists>s' ft' s''.
      stmt_end (ex_host 1 False WARNING [''c1'', ''c2'']) (ex_estate 1 ''c2'') (ex_open 7)
        (Some (ex_ptr 1)) (ex_state 1 (ex_trace 1 10 (slot 7 1 ''c1'' # replicate 9 junk)) []) =
        Returned (Some (ex_ptr 1), s') \<and>
      reports s' = [ex_report WARNING] \<and> deref s' (ex_ptr 1) = Some ft' \<and>
      (cursors_traces ft' ! 0 = \<lparr>stmtid = - 1, rec_level = 1, curname = None\<rparr> \<or>
       cursors_traces ft' ! 0 = slot 7 1 ''c2'') \<and>
      func_end (ex_host 1 False WARNING [''c1'', ''c2'']) (ex_fn 1) (Some (ex_ptr 1)) s' =
        Returned s'' \<and>
      reports s'' = [ex_report WARNING])"
proof -
  let ?h = "ex_host 1 False WARNING [''c1'', ''c2'']"
  let ?ft = "ex_trace 1 10 (slot 7 1 ''c1'' # replicate 9 junk)"
  let ?s = "ex_state 1 ?ft []"
  let ?e = "ex_estate 1 ''c2''"
  have ns: "\<not> plpgsql_check_cursors_leaks_strict ?h" by (simp add: ex_defs)
  have lev: "plpgsql_check_cursors_leaks_level ?h < ERROR"
    by (simp add: ex_defs WARNING_def ERROR_def)
  have uc: "use_count (func ?e) = 1" by (simp add: ex_defs)
  have d: "deref ?s (ex_ptr 1) = Some ?ft" by (simp add: deref_def ex_defs)
  have lx: "traces_lxid ?s = MyProc_lxid ?h" by (simp add: ex_defs)
  have wf: "wf_ftrace ?ft" by (simp add: wf_ftrace_def ex_defs)
  have op: "cmd_type (ex_open 7) = PLPGSQL_STMT_OPEN" by (simp add: ex_defs)
  have dat: "curvar (ex_open 7) < length (datums ?e)" "\<not> isnull (datums ?e ! curvar (ex_open 7))"
    by (simp_all add: ex_defs)
  have i: "0 < ncursors ?ft" by (simp add: ex_defs)
  have nm: "curname (cursors_traces ?ft ! 0) = Some ''c1''" by (simp add: ex_defs)
  have sid: "stmtid (cursors_traces ?ft ! 0) = stmt_id (ex_open 7)" by (simp add: ex_defs)
  have ex: "SPI_cursor_find ?h ''c1''" by (simp add: ex_defs)
  have cnt: "length (filter (still_open ?h (stmt_id (ex_open 7)))
                    (take (ncursors ?ft) (cursors_traces ?ft))) = 1"
    by (simp add: ex_defs still_open_def)
  have rep: "cursor_is_not_closed ?h = ex_report WARNING"
    by (simp add: cursor_is_not_closed_def ERRCODE_INVALID_CURSOR_STATE_def ex_defs)
  have cl: "clear_slot (cursors_traces ?ft ! 0) = \<lparr>stmtid = - 1, rec_level = 1, curname = None\<rparr>"
    by (simp add: clear_slot_def ex_defs)
  have new: "new_entry ?e (ex_open 7) = slot 7 1 ''c2''" by (simp add: new_entry_def ex_defs)
  have fn: "func ?e = ex_fn 1" by (simp add: ex_defs)
  from stmt_end_early_report [OF ns uc d lx wf op dat i nm sid ex, THEN conjunct1, THEN mp, OF lev]
  obtain s' ft' s'' where
    "stmt_end ?h ?e (ex_open 7) (Some (ex_ptr 1)) ?s = Returned (Some (ex_ptr 1), s')"
    "reports s' = reports ?s @ replicate 1 (ex_report WARNING)"
    "deref s' (ex_ptr 1) = Some ft'"
    "cursors_traces ft' ! 0 = \<lparr>stmtid = - 1, rec_level = 1, curname = None\<rparr> \<or>
       cursors_traces ft' ! 0 = slot 7 1 ''c2''"
    "func_end ?h (ex_fn 1) (Some (ex_ptr 1)) s' = Returned s''"
    "reports s'' = reports s'"
    unfolding cnt rep cl new fn by (elim exE conjE) (rule that, assumption+)
  moreover have "reports ?s = []" by (simp add: ex_defs)
  ultimately have "\<exists>s' ft' s''.
      stmt_end ?h ?e (ex_open 7) (Some (ex_ptr 1)) ?s = Returned (Some (ex_ptr 1), s') \<and>
      reports s' = [ex_report WARNING] \<and> deref s' (ex_ptr 1) = Some ft' \<and>
      (cursors_traces ft' ! 0 = \<lparr>stmtid = - 1, rec_level = 1, curname = None\<rparr> \<or>
       cursors_traces ft' ! 0 = slot 7 1 ''c2'') \<and>
      func_end ?h (ex_fn 1) (Some (ex_ptr 1)) s' = Returned s'' \<and>
      reports s'' = [ex_report WARNING]"
    by (intro exI [of _ s'] exI [of _ ft'] exI [of _ s'']) simp
  with ns lev uc d wf ex show ?thesis by blast
qed


text \<open>
  The slot is not cleared at every configured level: at level \<open>ERROR\<close> the hook
  is left by the report, and the slot keeps its statement id and its name.
\<close>

theorem stmt_end_early_report_counterexample:
  "stmt_end (ex_host 1 False ERROR [''c1'', ''c2'']) (ex_estate 1 ''c2'') (ex_open 7)
      (Some (ex_ptr 1)) (ex_state 1 (ex_trace 1 10 (slot 7 1 ''c1'' # replicate 9 junk)) []) =
   Raised (Some (ex_ptr 1),
     ex_state 1 (ex_trace 1 10 (slot 7 1 ''c1'' # replicate 9 junk)) [ex_report ERROR]) \<and>
   stmtid (slot 7 1 ''c1'') \<noteq> - 1 \<and> curname (slot 7 1 ''c1'') \<noteq> None"
  by (simp add: eval_defs ex_defs)






subsection \<open>Free slots\<close>

text \<open>
  Claim C9. In every state that the hooks can reach (with statement ids that are
  not negative), for every record of the store and every index below its number of
  live entries, the name of the slot is null if and only if its statement id is -1:
  a record starts without entries, every clearing sets both fields, and every new
  entry has a name and the statement id of the OPEN statement.
\<close>

theorem name_null_iff_stmtid_free:
  assumes "reachable s" and "traces s = Some tab" and "tab k = Some ft"
    and "i < ncursors ft"
  shows "(curname (cursors_traces ft ! i) = None) = (stmtid (cursors_traces ft ! i) = - 1)"
proof -
  from reachable_store_ok [OF assms(1)] assms(2,3) have "slots_consistent ft"
    by (simp add: store_ok_def)
  with assms(4) show ?thesis by (simp add: slots_consistent_def)
qed


theorem name_null_iff_stmtid_free_witness:
  "reachable (ex_state 1 (ex_trace 1 10 (slot 7 1 ''c1'' # replicate 9 junk)) []) \<and>
   curname (slot 7 1 ''c1'') \<noteq> None \<and> stmtid (slot 7 1 ''c1'') \<noteq> - 1 \<and>
   ((curname (slot 7 1 ''c1'') = None) = (stmtid (slot 7 1 ''c1'') = - 1)) \<and>
   reachable (ex_state 1
     (ex_trace 1 10 (\<lparr>stmtid = - 1, rec_level = 1, curname = None\<rparr> # replicate 9 junk)) []) \<and>
   ((curname \<lparr>stmtid = - 1, rec_level = 1, curname = None\<rparr> = None) =
    (stmtid \<lparr>stmtid = - 1, rec_level = 1, curname = None\<rparr> = - 1))"
proof -
  let ?ft = "ex_trace 1 10 (slot 7 1 ''c1'' # replicate 9 junk)"
  let ?s = "ex_state 1 ?ft []"
  let ?ft2 = "ex_trace 1 10 (\<lparr>stmtid = - 1, rec_level = 1, curname = None\<rparr> # replicate 9 junk)"
  let ?s2 = "ex_state 1 ?ft2 []"
  have 1: "func_setup (ex_host 1 False WARNING [''c1'']) (ex_fn 1) initial_state =
     (Some (ex_ptr 1), ex_state 1 (zero_trace ex_key) [])"
    by (simp add: eval_defs initial_state_def InvalidLocalTransactionId_def zero_trace_def ex_defs)
  have 2: "stmt_end (ex_host 1 False WARNING [''c1'']) (ex_estate 1 ''c1'') (ex_open 7)
       (Some (ex_ptr 1)) (ex_state 1 (zero_trace ex_key) []) = Returned (Some (ex_ptr 1), ?s)"
    by (simp add: eval_defs ex_defs zero_trace_def upt_rec_numeral eval_nat_numeral)
  have 3: "func_end (ex_host 1 False WARNING []) (ex_fn 1) (Some (ex_ptr 1)) ?s = Returned ?s2"
    by (simp add: eval_defs ex_defs)
  have v: "0 \<le> stmt_id (ex_open 7)" by (simp add: ex_defs)
  have r0: "reachable (ex_state 1 (zero_trace ex_key) [])"
    by (rule reachable.after_setup [OF reachable.at_start 1])
  have r1: "reachable ?s" by (rule reachable.stmt_returned [OF r0 v 2])
  have r2: "reachable ?s2" by (rule reachable.end_returned [OF r1 3])
  have t1: "traces ?s = Some [ex_key \<mapsto> ?ft]" and t2: "traces ?s2 = Some [ex_key \<mapsto> ?ft2]"
    by (simp_all add: ex_state_def)
  have k1: "[ex_key \<mapsto> ?ft] ex_key = Some ?ft" and k2: "[ex_key \<mapsto> ?ft2] ex_key = Some ?ft2"
    by simp_all
  have i1: "0 < ncursors ?ft" and i2: "0 < ncursors ?ft2" by (simp_all add: ex_defs)
  from name_null_iff_stmtid_free [OF r1 t1 k1 i1]
  have a: "(curname (slot 7 1 ''c1'') = None) = (stmtid (slot 7 1 ''c1'') = - 1)"
    by (simp add: ex_trace_def)
  from name_null_iff_stmtid_free [OF r2 t2 k2 i2]
  have b: "(curname \<lparr>stmtid = - 1, rec_level = 1, curname = None\<rparr> = None) =
    (stmtid \<lparr>stmtid = - 1, rec_level = 1, curname = None\<rparr> = - 1)"
    by (simp add: ex_trace_def)
  have c: "curname (slot 7 1 ''c1'') \<noteq> None" "stmtid (slot 7 1 ''c1'') \<noteq> - 1"
    by (simp_all add: slot_def)
  from r1 r2 a b c show ?thesis by blast
qed

subsection \<open>The language of a routine\<close>

text \<open>
  Claim C10. \<open>plpgsql_check_is_plpgsql_function\<close> returns false, and raises no
  error, when the cache has no routine of the given oid. It is left by an error
  only when the routine exists, the language oid is not yet known, and the lookup
  of the language \<open>plpgsql\<close> (with \<open>missing_ok\<close> false) raises; in that case it
  is. With a known language oid it returns whether the routine's language is that
  one.
\<close>

theorem is_plpgsql_function_outcomes:
  "(PROCOID c foid = None \<longrightarrow>
      plpgsql_check_is_plpgsql_function c foid langid = Returned (False, langid)) \<and>
   (\<forall>x. plpgsql_check_is_plpgsql_function c foid langid = Raised x \<longrightarrow>
      PROCOID c foid \<noteq> None \<and> \<not> OidIsValid langid \<and>
      get_language_oid c ''plpgsql'' False = Raised InvalidOid) \<and>
   (PROCOID c foid \<noteq> None \<and> \<not> OidIsValid langid \<and>
    (\<forall>oid. LANGNAME c ''plpgsql'' = Some oid \<longrightarrow> \<not> OidIsValid oid) \<longrightarrow>
      plpgsql_check_is_plpgsql_function c foid langid = Raised (False, langid)) \<and>
   (\<forall>procStruct. PROCOID c foid = Some procStruct \<and> OidIsValid langid \<longrightarrow>
      plpgsql_check_is_plpgsql_function c foid langid =
        Returned (prolang procStruct = langid, langid)) \<and>
   plpgsql_check_is_plpgsql_function c foid langid \<noteq> Crashed"
  by (auto simp: plpgsql_check_is_plpgsql_function_def get_language_oid_def Let_def
      OidIsValid_def split: option.splits if_splits outcome.splits)

theorem is_plpgsql_function_outcomes_witness:
  "PROCOID ex_cache 99 = None \<and>
   plpgsql_check_is_plpgsql_function ex_cache 99 InvalidOid = Returned (False, InvalidOid) \<and>
   PROCOID (ex_cache\<lparr>LANGNAME := Map.empty\<rparr>) 16384 \<noteq> None \<and>
   \<not> OidIsValid InvalidOid \<and>
   plpgsql_check_is_plpgsql_function (ex_cache\<lparr>LANGNAME := Map.empty\<rparr>) 16384 InvalidOid =
     Raised (False, InvalidOid) \<and>
   plpgsql_check_is_plpgsql_function ex_cache 16384 InvalidOid = Returned (True, 13000)"
proof -
  have a: "PROCOID ex_cache 99 = None" by (simp add: ex_cache_def)
  have b: "PROCOID (ex_cache\<lparr>LANGNAME := Map.empty\<rparr>) 16384 \<noteq> None \<and>
     \<not> OidIsValid InvalidOid \<and>
     (\<forall>oid. LANGNAME (ex_cache\<lparr>LANGNAME := Map.empty\<rparr>) ''plpgsql'' = Some oid \<longrightarrow>
        \<not> OidIsValid oid)"
    by (simp add: ex_cache_def OidIsValid_def)
  have c: "plpgsql_check_is_plpgsql_function ex_cache 16384 InvalidOid = Returned (True, 13000)"
    by (simp add: plpgsql_check_is_plpgsql_function_def get_language_oid_def ex_cache_def
        OidIsValid_def InvalidOid_def)
  from is_plpgsql_function_outcomes [of ex_cache 99 InvalidOid, THEN conjunct1, THEN mp, OF a]
    is_plpgsql_function_outcomes [of "ex_cache\<lparr>LANGNAME := Map.empty\<rparr>" 16384 InvalidOid,
      THEN conjunct2, THEN conjunct2, THEN conjunct1, THEN mp, OF b]
    a b c
  show ?thesis by simp
qed

end
